(* ===== verification/OZ_Prelude.thy ===== *)
theory OZ_Prelude
  imports Main "HOL-Library.Word"
begin

text \<open>
  Shared foundation of the development: machine integers, the outcome of a native
  call (a value, a C++ exception, or undefined behaviour), actions over an explicit
  state with a weakest-precondition calculus, and little-endian byte strings.
\<close>

unbundle bit_operations_syntax

section \<open>Machine integers\<close>

type_synonym u8 = "8 word"
type_synonym u32 = "32 word"
type_synonym u64 = "64 word"
type_synonym jint = "32 word"
type_synonym jlong = "64 word"
type_synonym bytes = "u8 list"

text \<open>
  A \<open>jint\<close> is read as two's complement with \<open>sint\<close>; \<open>static_cast<size_t>\<close> of a
  non-negative \<open>jint\<close> is \<open>nat (sint i)\<close>.  Buffer sizes and offsets that the code keeps
  in \<open>size_t\<close> are naturals wherever no operation of the code can wrap them.
\<close>

abbreviation jmax :: int where "jmax \<equiv> 2147483647"

definition jneg :: "jint \<Rightarrow> bool" where
  "jneg i \<longleftrightarrow> sint i < 0"

definition jsize :: "jint \<Rightarrow> nat" where
  "jsize i = nat (sint i)"

section \<open>Outcomes and actions\<close>

datatype cpp_exn =
    BadAlloc
  | LengthError
  | RuntimeError string
  | InvalidArgs string
  | CompilerError string
  | LibraryError string

text \<open>
  \<open>Undef\<close> is undefined behaviour of C++ or of the JNI (an access outside a buffer, a null or
  dangling pointer, a null array handed to a JNI function).
\<close>

datatype 'a outcome = Ret 'a | Throw cpp_exn | Undef

type_synonym ('s, 'a) act = "'s \<Rightarrow> 'a outcome \<times> 's"

definition ret :: "'a \<Rightarrow> ('s, 'a) act" where
  "ret a = (\<lambda>s. (Ret a, s))"

definition throw :: "cpp_exn \<Rightarrow> ('s, 'a) act" where
  "throw e = (\<lambda>s. (Throw e, s))"

definition undef :: "('s, 'a) act" where
  "undef = (\<lambda>s. (Undef, s))"

definition bnd :: "('s, 'a) act \<Rightarrow> ('a \<Rightarrow> ('s, 'b) act) \<Rightarrow> ('s, 'b) act" where
  "bnd m f = (\<lambda>s. case m s of
      (Ret a, s') \<Rightarrow> f a s'
    | (Throw e, s') \<Rightarrow> (Throw e, s')
    | (Undef, s') \<Rightarrow> (Undef, s'))"

definition seq :: "('s, 'a) act \<Rightarrow> ('s, 'b) act \<Rightarrow> ('s, 'b) act" where
  "seq m k = bnd m (\<lambda>_. k)"

definition gets :: "('s \<Rightarrow> 'a) \<Rightarrow> ('s, 'a) act" where
  "gets f = (\<lambda>s. (Ret (f s), s))"

definition modify :: "('s \<Rightarrow> 's) \<Rightarrow> ('s, unit) act" where
  "modify f = (\<lambda>s. (Ret (), f s))"

text \<open>\<open>try { m } catch (e) { h e }\<close>; \<open>h\<close> rethrows what the source's clauses do not name.\<close>

definition try_catch :: "('s, 'a) act \<Rightarrow> (cpp_exn \<Rightarrow> ('s, 'a) act) \<Rightarrow> ('s, 'a) act" where
  "try_catch m h = (\<lambda>s. case m s of
      (Ret a, s') \<Rightarrow> (Ret a, s')
    | (Throw e, s') \<Rightarrow> h e s'
    | (Undef, s') \<Rightarrow> (Undef, s'))"

section \<open>Weakest preconditions\<close>

text \<open>
  \<open>wp m Q E s\<close>: from \<open>s\<close> the action shows no undefined behaviour; if it returns \<open>a\<close> in \<open>s'\<close>
  then \<open>Q a s'\<close>, and if it throws \<open>e\<close> in \<open>s'\<close> then \<open>E e s'\<close>.
\<close>

definition wp :: "('s, 'a) act \<Rightarrow> ('a \<Rightarrow> 's \<Rightarrow> bool) \<Rightarrow> (cpp_exn \<Rightarrow> 's \<Rightarrow> bool) \<Rightarrow> 's \<Rightarrow> bool" where
  "wp m Q E s = (case m s of
      (Ret a, s') \<Rightarrow> Q a s'
    | (Throw e, s') \<Rightarrow> E e s'
    | (Undef, s') \<Rightarrow> False)"

named_theorems wp_simps

lemma wp_ret [wp_simps]: "wp (ret a) Q E s = Q a s"
  by (simp add: wp_def ret_def)

lemma wp_throw [wp_simps]: "wp (throw e) Q E s = E e s"
  by (simp add: wp_def throw_def)

lemma wp_undef [wp_simps]: "wp undef Q E s = False"
  by (simp add: wp_def undef_def)

lemma wp_bnd [wp_simps]: "wp (bnd m f) Q E s = wp m (\<lambda>a. wp (f a) Q E) E s"
  by (simp add: wp_def bnd_def split: prod.splits outcome.splits)

lemma wp_seq [wp_simps]: "wp (seq m k) Q E s = wp m (\<lambda>_. wp k Q E) E s"
  by (simp add: seq_def wp_bnd)

lemma wp_gets [wp_simps]: "wp (gets f) Q E s = Q (f s) s"
  by (simp add: wp_def gets_def)

lemma wp_modify [wp_simps]: "wp (modify f) Q E s = Q () (f s)"
  by (simp add: wp_def modify_def)

lemma wp_try_catch [wp_simps]:
  "wp (try_catch m h) Q E s = wp m Q (\<lambda>e. wp (h e) Q E) s"
  by (simp add: wp_def try_catch_def split: prod.splits outcome.splits)

lemma wp_if [wp_simps]:
  "wp (if b then m else k) Q E s = (if b then wp m Q E s else wp k Q E s)"
  by simp

lemma wp_Let [wp_simps]: "wp (let x = v in f x) Q E s = (let x = v in wp (f x) Q E s)"
  by (simp add: Let_def)

lemma wp_case_option [wp_simps]:
  "wp (case x of None \<Rightarrow> m | Some a \<Rightarrow> f a) Q E s
     = (case x of None \<Rightarrow> wp m Q E s | Some a \<Rightarrow> wp (f a) Q E s)"
  by (cases x) simp_all

lemma wp_case_prod [wp_simps]:
  "wp (case x of (a, b) \<Rightarrow> f a b) Q E s = (case x of (a, b) \<Rightarrow> wp (f a b) Q E s)"
  by (cases x) simp

lemma wp_mono:
  assumes "wp m Q E s"
    and "\<And>a s'. Q a s' \<Longrightarrow> Q' a s'" and "\<And>e s'. E e s' \<Longrightarrow> E' e s'"
  shows "wp m Q' E' s"
  using assms by (auto simp: wp_def split: prod.splits outcome.splits)

lemma wp_conj: "wp m Q E s \<Longrightarrow> wp m Q' E' s \<Longrightarrow> wp m (\<lambda>a s. Q a s \<and> Q' a s) (\<lambda>e s. E e s \<and> E' e s) s"
  by (auto simp: wp_def split: prod.splits outcome.splits)

lemma wp_run: "wp m Q E s \<longleftrightarrow>
    fst (m s) \<noteq> Undef \<and>
    (\<forall>a. fst (m s) = Ret a \<longrightarrow> Q a (snd (m s))) \<and>
    (\<forall>e. fst (m s) = Throw e \<longrightarrow> E e (snd (m s)))"
  by (auto simp: wp_def split: prod.splits outcome.splits)

lemma wp_RetD: "wp m Q E s \<Longrightarrow> m s = (Ret a, s') \<Longrightarrow> Q a s'"
  by (simp add: wp_def)

lemma wp_ThrowD: "wp m Q E s \<Longrightarrow> m s = (Throw e, s') \<Longrightarrow> E e s'"
  by (simp add: wp_def)

lemma wp_UndefD: "wp m Q E s \<Longrightarrow> fst (m s) \<noteq> Undef"
  by (auto simp: wp_def split: prod.splits)

lemma wp_retI: "m s = (Ret a, s') \<Longrightarrow> Q a s' \<Longrightarrow> wp m Q E s"
  by (simp add: wp_def)

section \<open>Little-endian byte strings\<close>

text \<open>
  The code reads multi-byte values either by shifting bytes together
  (\<open>readStructuredSampleUInt32\<close>) or by reinterpreting memory as \<open>uint32_t\<close>; both are the
  little-endian reading on the supported hosts (x86-64, arm64).
\<close>

definition le32 :: "u8 \<Rightarrow> u8 \<Rightarrow> u8 \<Rightarrow> u8 \<Rightarrow> u32" where
  "le32 a b c d = ucast a OR push_bit 8 (ucast b) OR push_bit 16 (ucast c) OR push_bit 24 (ucast d)"

definition bytes32 :: "u32 \<Rightarrow> bytes" where
  "bytes32 w = [ucast w, ucast (drop_bit 8 w), ucast (drop_bit 16 w), ucast (drop_bit 24 w)]"

definition bytes64 :: "u64 \<Rightarrow> bytes" where
  "bytes64 w = bytes32 (ucast w) @ bytes32 (ucast (drop_bit 32 w))"

definition le64 :: "u32 \<Rightarrow> u32 \<Rightarrow> u64" where
  "le64 lo hi = ucast lo OR push_bit 32 (ucast hi)"

lemma length_bytes32 [simp]: "length (bytes32 w) = 4"
  by (simp add: bytes32_def)

lemma length_bytes64 [simp]: "length (bytes64 w) = 8"
  by (simp add: bytes64_def)

lemma bit_u8_beyond [simp]: "8 \<le> n \<Longrightarrow> \<not> bit (a :: u8) n"
  by (auto dest: bit_imp_le_length)

lemma le32_bytes32 [simp]:
  "le32 (ucast w) (ucast (drop_bit 8 w)) (ucast (drop_bit 16 w)) (ucast (drop_bit 24 w)) = w"
proof (rule bit_word_eqI)
  fix n :: nat
  assume "n < LENGTH(32)"
  then consider "n < 8" | "8 \<le> n \<and> n < 16" | "16 \<le> n \<and> n < 24" | "24 \<le> n \<and> n < 32"
    by fastforce
  then show "bit (le32 (ucast w) (ucast (drop_bit 8 w)) (ucast (drop_bit 16 w))
      (ucast (drop_bit 24 w))) n = bit w n"
    by cases (auto simp: le32_def bit_simps)
qed

lemma bytes32_le32 [simp]: "bytes32 (le32 a b c d) = [a, b, c, d]"
  unfolding bytes32_def le32_def by (auto intro!: bit_word_eqI simp: bit_simps)

lemma le64_bytes64 [simp]: "le64 (ucast w) (ucast (drop_bit 32 w)) = w"
  by (rule bit_word_eqI) (auto simp: le64_def bit_simps)

fun words32 :: "bytes \<Rightarrow> u32 list" where
  "words32 (a # b # c # d # xs) = le32 a b c d # words32 xs"
| "words32 _ = []"

lemma length_words32: "length (words32 bs) = length bs div 4"
  by (induction bs rule: words32.induct) auto

lemma words32_append_bytes32 [simp]: "words32 (bytes32 w @ xs) = w # words32 xs"
  by (simp add: bytes32_def)

lemma words32_concat [simp]: "words32 (concat (map bytes32 ws)) = ws"
  by (induction ws) simp_all

fun words64 :: "bytes \<Rightarrow> u64 list" where
  "words64 (a # b # c # d # e # f # g # h # xs) = le64 (le32 a b c d) (le32 e f g h) # words64 xs"
| "words64 _ = []"

lemma words64_append_bytes64 [simp]: "words64 (bytes64 w @ xs) = w # words64 xs"
proof -
  have "words64 (bytes32 l @ bytes32 h @ xs) = le64 l h # words64 xs" for l h
    by (simp add: bytes32_def)
  then show ?thesis by (simp add: bytes64_def)
qed

lemma words64_concat [simp]: "words64 (concat (map bytes64 ws)) = ws"
  by (induction ws) simp_all

lemma length_concat_bytes32 [simp]: "length (concat (map bytes32 ws)) = 4 * length ws"
  by (induction ws) simp_all

lemma length_concat_bytes64 [simp]: "length (concat (map bytes64 ws)) = 8 * length ws"
  by (induction ws) simp_all

section \<open>Decimal numerals\<close>

text \<open>\<open>std::to_string\<close> on an unsigned value.\<close>

fun to_string :: "nat \<Rightarrow> string" where
  "to_string n = (if n < 10 then [char_of (48 + n)] else to_string (n div 10) @ [char_of (48 + n mod 10)])"

declare to_string.simps [simp del]

section \<open>Lists\<close>

text \<open>Overwriting a slice in place, as \<open>memcpy\<close> into the middle of a buffer does.\<close>

definition overwrite :: "'a list \<Rightarrow> nat \<Rightarrow> 'a list \<Rightarrow> 'a list" where
  "overwrite xs off ys = take off xs @ ys @ drop (off + length ys) xs"

definition slice :: "'a list \<Rightarrow> nat \<Rightarrow> nat \<Rightarrow> 'a list" where
  "slice xs off n = take n (drop off xs)"

lemma length_slice [simp]: "off + n \<le> length xs \<Longrightarrow> length (slice xs off n) = n"
  by (simp add: slice_def)

lemma length_overwrite [simp]: "off + length ys \<le> length xs \<Longrightarrow> length (overwrite xs off ys) = length xs"
  by (simp add: overwrite_def)

lemma slice_overwrite [simp]:
  "off + length ys \<le> length xs \<Longrightarrow> slice (overwrite xs off ys) off (length ys) = ys"
  by (simp add: overwrite_def slice_def)

lemma overwrite_outside:
  assumes "off + length ys \<le> length xs" and "i < off \<or> off + length ys \<le> i" and "i < length xs"
  shows "overwrite xs off ys ! i = xs ! i"
  using assms by (auto simp: overwrite_def nth_append)

lemma overwrite_full: "length ys = length xs \<Longrightarrow> overwrite xs 0 ys = ys"
  by (simp add: overwrite_def)

end
