(* ===== verification/Jni_Env.thy ===== *)
theory Jni_Env
  imports OZ_Prelude
begin

text \<open>
  The part of the Java Native Interface the code uses, as operations on an explicit JVM
  state: Java objects by reference (0 is null), the pending exception, the arrays pinned by
  \<open>GetPrimitiveArrayCritical\<close>, and the arrays whose elements are borrowed.  Which of the
  calls that may fail do fail is read off the list \<open>faults\<close>, so a theorem about every state
  is a theorem about every schedule of failures.  Diagnostics on stderr are not modelled.
\<close>

section \<open>Java objects and the JVM state\<close>

datatype jexn =
    NullPointerException
  | IllegalArgumentException
  | IllegalStateException
  | OutOfMemoryError
  | RuntimeException
  | NegativeArraySizeException
  | ArrayIndexOutOfBoundsException
  | NoClassDefFoundError
  | NoSuchFieldError

datatype jval = VInt jint | VHandle nat | VRef nat

text \<open>Floating point arrays are kept as the bit patterns that the JNI copies.\<close>

datatype jobj =
    JByteArr bytes
  | JIntArr "u32 list"
  | JLongArr "u64 list"
  | JFloatArr "u32 list"
  | JDoubleArr "u64 list"
  | JObjArr "nat list"
  | JString string
  | JDirect bytes
  | JHeapBuffer bytes
  | JObject "string \<Rightarrow> jval option"

text \<open>
  A pin is a pointer handed out by \<open>GetPrimitiveArrayCritical\<close>: its number, the array and,
  when the JVM hands out a copy, the copy.
\<close>

record pin =
  pin_id :: nat
  pin_arr :: nat
  pin_copy :: "bytes option"

record jvm =
  objs :: "nat \<Rightarrow> jobj option"
  next_ref :: nat
  pending :: "(jexn \<times> string) option"
  pins :: "pin list"
  next_pin :: nat
  pin_copies :: bool
  borrowed :: "nat list"
  faults :: "bool list"
  misuse :: bool
  class_refs :: "jexn \<Rightarrow> bool"
  global_refs :: "jexn list"
  handle_field :: bool

datatype release_mode = ReleaseCommit | JNI_ABORT

fun array_length :: "jobj \<Rightarrow> nat option" where
  "array_length (JByteArr xs) = Some (length xs)"
| "array_length (JIntArr xs) = Some (length xs)"
| "array_length (JLongArr xs) = Some (length xs)"
| "array_length (JFloatArr xs) = Some (length xs)"
| "array_length (JDoubleArr xs) = Some (length xs)"
| "array_length (JObjArr xs) = Some (length xs)"
| "array_length _ = None"

section \<open>JNI functions\<close>

definition fault :: "('z jvm_scheme, bool) act" where
  "fault w = (Ret (faults w \<noteq> [] \<and> hd (faults w)), w\<lparr>faults := tl (faults w)\<rparr>)"

text \<open>
  Between \<open>GetPrimitiveArrayCritical\<close> and its release the JNI allows no other JNI function;
  a call there sets \<open>misuse\<close>.
\<close>

definition jni :: "('z jvm_scheme, unit) act" where
  "jni = modify (\<lambda>w. if pins w = [] then w else w\<lparr>misuse := True\<rparr>)"

definition raise :: "jexn \<Rightarrow> string \<Rightarrow> ('z jvm_scheme, unit) act" where
  "raise c msg = modify (\<lambda>w. w\<lparr>pending := Some (c, msg)\<rparr>)"

definition exceptionCheck :: "('z jvm_scheme, bool) act" where
  "exceptionCheck = seq jni (gets (\<lambda>w. pending w \<noteq> None))"

definition exceptionClear :: "('z jvm_scheme, unit) act" where
  "exceptionClear = seq jni (modify (\<lambda>w. w\<lparr>pending := None\<rparr>))"

definition alloc :: "jobj \<Rightarrow> ('z jvm_scheme, nat) act" where
  "alloc x w = (Ret (next_ref w),
     w\<lparr>objs := (objs w)(next_ref w \<mapsto> x), next_ref := Suc (next_ref w)\<rparr>)"

definition getArrayLength :: "nat \<Rightarrow> ('z jvm_scheme, jint) act" where
  "getArrayLength r = seq jni (\<lambda>w.
     case Option.bind (objs w r) array_length of
       None \<Rightarrow> (Undef, w)
     | Some n \<Rightarrow> (Ret (word_of_nat n), w))"

text \<open>\<open>New<Type>Array\<close>: null with a pending exception on a negative length or a failure.\<close>

definition newArray :: "(nat \<Rightarrow> jobj) \<Rightarrow> jint \<Rightarrow> ('z jvm_scheme, nat) act" where
  "newArray mk n = seq jni
     (if jneg n then seq (raise NegativeArraySizeException ''negative array length'') (ret 0)
      else bnd fault (\<lambda>f.
        if f then seq (raise OutOfMemoryError ''Java heap space'') (ret 0)
        else alloc (mk (jsize n))))"

definition newByteArray :: "jint \<Rightarrow> ('z jvm_scheme, nat) act" where
  "newByteArray = newArray (\<lambda>n. JByteArr (replicate n 0))"

definition newIntArray :: "jint \<Rightarrow> ('z jvm_scheme, nat) act" where
  "newIntArray = newArray (\<lambda>n. JIntArr (replicate n 0))"

definition newLongArray :: "jint \<Rightarrow> ('z jvm_scheme, nat) act" where
  "newLongArray = newArray (\<lambda>n. JLongArr (replicate n 0))"

definition newFloatArray :: "jint \<Rightarrow> ('z jvm_scheme, nat) act" where
  "newFloatArray = newArray (\<lambda>n. JFloatArr (replicate n 0))"

definition newDoubleArray :: "jint \<Rightarrow> ('z jvm_scheme, nat) act" where
  "newDoubleArray = newArray (\<lambda>n. JDoubleArr (replicate n 0))"

definition newObjectArray :: "jint \<Rightarrow> ('z jvm_scheme, nat) act" where
  "newObjectArray = newArray (\<lambda>n. JObjArr (replicate n 0))"

definition newStringUTF :: "string \<Rightarrow> ('z jvm_scheme, nat) act" where
  "newStringUTF s = seq jni (bnd fault (\<lambda>f.
     if f then seq (raise OutOfMemoryError ''Java heap space'') (ret 0) else alloc (JString s)))"

text \<open>\<open>Set<Type>ArrayRegion(arr, 0, n, data)\<close> with the \<open>n\<close> elements of \<open>data\<close>.\<close>

definition overwrite_obj :: "jobj \<Rightarrow> jobj \<Rightarrow> jobj option" where
  "overwrite_obj old new = (case (old, new) of
      (JByteArr xs, JByteArr ys) \<Rightarrow>
        if length ys \<le> length xs then Some (JByteArr (overwrite xs 0 ys)) else None
    | (JIntArr xs, JIntArr ys) \<Rightarrow>
        if length ys \<le> length xs then Some (JIntArr (overwrite xs 0 ys)) else None
    | (JLongArr xs, JLongArr ys) \<Rightarrow>
        if length ys \<le> length xs then Some (JLongArr (overwrite xs 0 ys)) else None
    | (JFloatArr xs, JFloatArr ys) \<Rightarrow>
        if length ys \<le> length xs then Some (JFloatArr (overwrite xs 0 ys)) else None
    | (JDoubleArr xs, JDoubleArr ys) \<Rightarrow>
        if length ys \<le> length xs then Some (JDoubleArr (overwrite xs 0 ys)) else None
    | _ \<Rightarrow> None)"

definition setArrayRegion :: "nat \<Rightarrow> jobj \<Rightarrow> ('z jvm_scheme, unit) act" where
  "setArrayRegion r new = seq jni (\<lambda>w. case objs w r of
      None \<Rightarrow> (Undef, w)
    | Some old \<Rightarrow> (case overwrite_obj old new of
        Some x \<Rightarrow> (Ret (), w\<lparr>objs := (objs w)(r \<mapsto> x)\<rparr>)
      | None \<Rightarrow> raise ArrayIndexOutOfBoundsException ''region'' w))"

definition getObjectArrayElement :: "nat \<Rightarrow> nat \<Rightarrow> ('z jvm_scheme, nat) act" where
  "getObjectArrayElement r i = seq jni (\<lambda>w. case objs w r of
      Some (JObjArr xs) \<Rightarrow> if i < length xs then (Ret (xs ! i), w)
        else seq (raise ArrayIndexOutOfBoundsException ''index'') (ret 0) w
    | _ \<Rightarrow> (Undef, w))"

definition setObjectArrayElement :: "nat \<Rightarrow> nat \<Rightarrow> nat \<Rightarrow> ('z jvm_scheme, unit) act" where
  "setObjectArrayElement r i x = seq jni (\<lambda>w. case objs w r of
      Some (JObjArr xs) \<Rightarrow>
        if i < length xs then (Ret (), w\<lparr>objs := (objs w)(r \<mapsto> JObjArr (xs[i := x]))\<rparr>)
        else raise ArrayIndexOutOfBoundsException ''index'' w
    | _ \<Rightarrow> (Undef, w))"

text \<open>\<open>GetStringUTFChars\<close> copied into a \<open>std::string\<close> and released at once; \<open>None\<close> is null.\<close>

definition getStringUTFChars :: "nat \<Rightarrow> ('z jvm_scheme, string option) act" where
  "getStringUTFChars r = seq jni (\<lambda>w. case objs w r of
      Some (JString s) \<Rightarrow> bnd fault (\<lambda>f. ret (if f then None else Some s)) w
    | _ \<Rightarrow> (Undef, w))"

definition getField :: "nat \<Rightarrow> string \<Rightarrow> ('z jvm_scheme, jval) act" where
  "getField r f = seq jni (\<lambda>w. case objs w r of
      Some (JObject fs) \<Rightarrow> (case fs f of Some v \<Rightarrow> (Ret v, w) | None \<Rightarrow> (Undef, w))
    | _ \<Rightarrow> (Undef, w))"

definition setField :: "nat \<Rightarrow> string \<Rightarrow> jval \<Rightarrow> ('z jvm_scheme, unit) act" where
  "setField r f v = seq jni (\<lambda>w. case objs w r of
      Some (JObject fs) \<Rightarrow> (Ret (), w\<lparr>objs := (objs w)(r \<mapsto> JObject (fs(f \<mapsto> v)))\<rparr>)
    | _ \<Rightarrow> (Undef, w))"

section \<open>Pinned arrays and direct buffers\<close>

text \<open>
  A second \<open>GetPrimitiveArrayCritical\<close> inside a critical region is allowed; a failure is a
  null pointer.
\<close>

definition getCritical :: "nat \<Rightarrow> ('z jvm_scheme, nat option) act" where
  "getCritical r = (\<lambda>w. case objs w r of
      Some (JByteArr bs) \<Rightarrow> bnd fault (\<lambda>f w.
        if f then (Ret None, w)
        else (Ret (Some (next_pin w)),
          w\<lparr>pins := \<lparr>pin_id = next_pin w, pin_arr = r,
                pin_copy = (if pin_copies w then Some bs else None)\<rparr> # pins w,
             next_pin := Suc (next_pin w)\<rparr>)) w
    | _ \<Rightarrow> (Undef, w))"

definition find_pin :: "nat \<Rightarrow> 'z jvm_scheme \<Rightarrow> pin option" where
  "find_pin p w = find (\<lambda>x. pin_id x = p) (pins w)"

definition heap_bytes :: "'z jvm_scheme \<Rightarrow> nat \<Rightarrow> bytes" where
  "heap_bytes w r = (case objs w r of Some (JByteArr bs) \<Rightarrow> bs | _ \<Rightarrow> [])"

definition pin_bytes :: "'z jvm_scheme \<Rightarrow> pin \<Rightarrow> bytes" where
  "pin_bytes w x = (case pin_copy x of Some bs \<Rightarrow> bs | None \<Rightarrow> heap_bytes w (pin_arr x))"

definition releaseCritical :: "nat \<Rightarrow> nat \<Rightarrow> release_mode \<Rightarrow> ('z jvm_scheme, unit) act" where
  "releaseCritical r p mode = (\<lambda>w. case find_pin p w of
      None \<Rightarrow> (Undef, w)
    | Some x \<Rightarrow> if pin_arr x \<noteq> r then (Undef, w)
        else (Ret (), w\<lparr>pins := filter (\<lambda>y. pin_id y \<noteq> p) (pins w),
          objs := (case pin_copy x of
              Some bs \<Rightarrow> if mode = ReleaseCommit then (objs w)(r \<mapsto> JByteArr bs) else objs w
            | None \<Rightarrow> objs w)\<rparr>))"

text \<open>Reading and writing through the pointer of a pin: outside the array is undefined.\<close>

definition readPin :: "nat \<Rightarrow> nat \<Rightarrow> nat \<Rightarrow> ('z jvm_scheme, bytes) act" where
  "readPin p off n = (\<lambda>w. case find_pin p w of
      None \<Rightarrow> (Undef, w)
    | Some x \<Rightarrow> if off + n \<le> length (pin_bytes w x)
        then (Ret (slice (pin_bytes w x) off n), w) else (Undef, w))"

definition set_pin_bytes :: "pin \<Rightarrow> bytes \<Rightarrow> 'z jvm_scheme \<Rightarrow> 'z jvm_scheme" where
  "set_pin_bytes x bs w = (case pin_copy x of
      Some _ \<Rightarrow> w\<lparr>pins := map (\<lambda>y. if pin_id y = pin_id x then y\<lparr>pin_copy := Some bs\<rparr> else y) (pins w)\<rparr>
    | None \<Rightarrow> w\<lparr>objs := (objs w)(pin_arr x \<mapsto> JByteArr bs)\<rparr>)"

definition writePin :: "nat \<Rightarrow> nat \<Rightarrow> bytes \<Rightarrow> ('z jvm_scheme, unit) act" where
  "writePin p off bs = (\<lambda>w. case find_pin p w of
      None \<Rightarrow> (Undef, w)
    | Some x \<Rightarrow> if off + length bs \<le> length (pin_bytes w x)
        then (Ret (), set_pin_bytes x (overwrite (pin_bytes w x) off bs) w) else (Undef, w))"

definition getDirectBufferAddress :: "nat \<Rightarrow> ('z jvm_scheme, nat option) act" where
  "getDirectBufferAddress r = seq jni (gets (\<lambda>w. case objs w r of
      Some (JDirect _) \<Rightarrow> Some r | _ \<Rightarrow> None))"

definition getDirectBufferCapacity :: "nat \<Rightarrow> ('z jvm_scheme, int) act" where
  "getDirectBufferCapacity r = seq jni (gets (\<lambda>w. case objs w r of
      Some (JDirect bs) \<Rightarrow> int (length bs) | _ \<Rightarrow> -1))"

definition readDirect :: "nat \<Rightarrow> nat \<Rightarrow> nat \<Rightarrow> ('z jvm_scheme, bytes) act" where
  "readDirect a off n = (\<lambda>w. case objs w a of
      Some (JDirect bs) \<Rightarrow> if off + n \<le> length bs then (Ret (slice bs off n), w) else (Undef, w)
    | _ \<Rightarrow> (Undef, w))"

definition writeDirect :: "nat \<Rightarrow> nat \<Rightarrow> bytes \<Rightarrow> ('z jvm_scheme, unit) act" where
  "writeDirect a off ys = (\<lambda>w. case objs w a of
      Some (JDirect bs) \<Rightarrow> if off + length ys \<le> length bs
        then (Ret (), w\<lparr>objs := (objs w)(a \<mapsto> JDirect (overwrite bs off ys))\<rparr>) else (Undef, w)
    | _ \<Rightarrow> (Undef, w))"

text \<open>\<open>Get<Type>ArrayElements\<close> and its release with \<open>JNI_ABORT\<close>; a failure is null.\<close>

definition getElements :: "nat \<Rightarrow> ('z jvm_scheme, jobj option) act" where
  "getElements r = seq jni (\<lambda>w. case objs w r of
      None \<Rightarrow> (Undef, w)
    | Some x \<Rightarrow> bnd fault (\<lambda>f w. if f then (Ret None, w)
        else (Ret (Some x), w\<lparr>borrowed := r # borrowed w\<rparr>)) w)"

definition releaseElements :: "nat \<Rightarrow> ('z jvm_scheme, unit) act" where
  "releaseElements r = seq jni (modify (\<lambda>w. w\<lparr>borrowed := remove1 r (borrowed w)\<rparr>))"

section \<open>Well-formed JVM states\<close>

definition obj_ok :: "jobj \<Rightarrow> bool" where
  "obj_ok x = (case array_length x of Some n \<Rightarrow> n \<le> 2147483647 | None \<Rightarrow>
     (case x of JDirect bs \<Rightarrow> length bs \<le> 2147483647 | _ \<Rightarrow> True))"

definition jvm_ok :: "'z jvm_scheme \<Rightarrow> bool" where
  "jvm_ok w \<longleftrightarrow> objs w 0 = None \<and> 0 < next_ref w \<and> (\<forall>r\<ge>next_ref w. objs w r = None)
     \<and> (\<forall>r x. objs w r = Some x \<longrightarrow> obj_ok x)"

section \<open>Rules for the JNI functions\<close>

text \<open>
  Each function's weakest precondition in closed form; the state it leaves is named
  (\<open>touch\<close>, \<open>consume\<close>, \<open>pinned\<close>), with the fields it keeps as simplification rules.
\<close>

definition next_fault :: "'z jvm_scheme \<Rightarrow> bool" where
  "next_fault w \<longleftrightarrow> faults w \<noteq> [] \<and> hd (faults w)"

definition consume :: "'z jvm_scheme \<Rightarrow> 'z jvm_scheme" where
  "consume w = w\<lparr>faults := tl (faults w)\<rparr>"

definition touch :: "'z jvm_scheme \<Rightarrow> 'z jvm_scheme" where
  "touch w = (if pins w = [] then w else w\<lparr>misuse := True\<rparr>)"

definition allocated :: "jobj \<Rightarrow> 'z jvm_scheme \<Rightarrow> 'z jvm_scheme" where
  "allocated x w = w\<lparr>objs := (objs w)(next_ref w \<mapsto> x), next_ref := Suc (next_ref w)\<rparr>"

definition pinned :: "nat \<Rightarrow> bytes \<Rightarrow> 'z jvm_scheme \<Rightarrow> 'z jvm_scheme" where
  "pinned r bs w = w\<lparr>pins := \<lparr>pin_id = next_pin w, pin_arr = r,
       pin_copy = (if pin_copies w then Some bs else None)\<rparr> # pins w,
     next_pin := Suc (next_pin w)\<rparr>"

lemma touch_idle [simp]: "pins w = [] \<Longrightarrow> touch w = w"
  by (simp add: touch_def)

lemma consume_simps [simp]:
  "objs (consume w) = objs w" "next_ref (consume w) = next_ref w" "pending (consume w) = pending w"
  "pins (consume w) = pins w" "next_pin (consume w) = next_pin w"
  "pin_copies (consume w) = pin_copies w" "borrowed (consume w) = borrowed w"
  "misuse (consume w) = misuse w" "class_refs (consume w) = class_refs w"
  "global_refs (consume w) = global_refs w" "handle_field (consume w) = handle_field w"
  "jvm.more (consume w) = jvm.more w" "faults (consume w) = tl (faults w)"
  by (simp_all add: consume_def)

lemma allocated_simps [simp]:
  "objs (allocated x w) = (objs w)(next_ref w \<mapsto> x)" "next_ref (allocated x w) = Suc (next_ref w)"
  "pending (allocated x w) = pending w" "pins (allocated x w) = pins w"
  "next_pin (allocated x w) = next_pin w" "pin_copies (allocated x w) = pin_copies w"
  "borrowed (allocated x w) = borrowed w" "misuse (allocated x w) = misuse w"
  "class_refs (allocated x w) = class_refs w" "global_refs (allocated x w) = global_refs w"
  "handle_field (allocated x w) = handle_field w" "jvm.more (allocated x w) = jvm.more w"
  by (simp_all add: allocated_def)

lemma pinned_simps [simp]:
  "objs (pinned r bs w) = objs w" "next_ref (pinned r bs w) = next_ref w"
  "pending (pinned r bs w) = pending w" "next_pin (pinned r bs w) = Suc (next_pin w)"
  "pin_copies (pinned r bs w) = pin_copies w" "borrowed (pinned r bs w) = borrowed w"
  "misuse (pinned r bs w) = misuse w" "class_refs (pinned r bs w) = class_refs w"
  "handle_field (pinned r bs w) = handle_field w" "jvm.more (pinned r bs w) = jvm.more w"
  "pins (pinned r bs w) = \<lparr>pin_id = next_pin w, pin_arr = r,
     pin_copy = (if pin_copies w then Some bs else None)\<rparr> # pins w"
  by (simp_all add: pinned_def)

lemma wp_fault [wp_simps]: "wp fault Q E w = Q (next_fault w) (consume w)"
  by (simp add: wp_def fault_def next_fault_def consume_def)

lemma wp_jni [wp_simps]: "wp jni Q E w = Q () (touch w)"
  by (simp add: jni_def wp_modify touch_def)

lemma wp_raise [wp_simps]: "wp (raise c msg) Q E w = Q () (w\<lparr>pending := Some (c, msg)\<rparr>)"
  by (simp add: raise_def wp_modify)

lemma wp_exceptionCheck [wp_simps]:
  "wp exceptionCheck Q E w = Q (pending (touch w) \<noteq> None) (touch w)"
  by (simp add: exceptionCheck_def wp_simps)

lemma wp_alloc [wp_simps]: "wp (alloc x) Q E w = Q (next_ref w) (allocated x w)"
  by (simp add: wp_def alloc_def allocated_def)

lemma wp_getArrayLength [wp_simps]:
  "wp (getArrayLength r) Q E w = (case Option.bind (objs (touch w) r) array_length of
      None \<Rightarrow> False | Some n \<Rightarrow> Q (word_of_nat n) (touch w))"
  by (simp add: getArrayLength_def wp_simps) (simp add: wp_def split: option.splits)

lemma wp_newArray [wp_simps]:
  "wp (newArray mk n) Q E w =
     (if jneg n then Q 0 ((touch w)\<lparr>pending := Some (NegativeArraySizeException, ''negative array length'')\<rparr>)
      else if next_fault (touch w) then
        Q 0 ((consume (touch w))\<lparr>pending := Some (OutOfMemoryError, ''Java heap space'')\<rparr>)
      else Q (next_ref (touch w)) (allocated (mk (jsize n)) (consume (touch w))))"
  by (simp add: newArray_def wp_simps)

lemma wp_setArrayRegion [wp_simps]:
  "wp (setArrayRegion r new) Q E w = (case objs (touch w) r of None \<Rightarrow> False
     | Some old \<Rightarrow> (case overwrite_obj old new of
         Some x \<Rightarrow> Q () ((touch w)\<lparr>objs := (objs (touch w))(r \<mapsto> x)\<rparr>)
       | None \<Rightarrow> Q () ((touch w)\<lparr>pending := Some (ArrayIndexOutOfBoundsException, ''region'')\<rparr>)))"
  by (simp add: setArrayRegion_def wp_simps)
    (simp add: wp_def raise_def modify_def split: option.splits)

lemma wp_getField [wp_simps]:
  "wp (getField r f) Q E w = (case objs (touch w) r of
      Some (JObject fs) \<Rightarrow> (case fs f of Some v \<Rightarrow> Q v (touch w) | None \<Rightarrow> False)
    | _ \<Rightarrow> False)"
  by (simp add: getField_def wp_simps) (simp add: wp_def split: option.splits jobj.splits)

lemma wp_setField [wp_simps]:
  "wp (setField r f v) Q E w = (case objs (touch w) r of
      Some (JObject fs) \<Rightarrow>
        Q () ((touch w)\<lparr>objs := (objs (touch w))(r \<mapsto> JObject (fs(f \<mapsto> v)))\<rparr>)
    | _ \<Rightarrow> False)"
  by (simp add: setField_def wp_simps) (simp add: wp_def split: option.splits jobj.splits)

lemma wp_getCritical [wp_simps]:
  "wp (getCritical r) Q E w = (case objs w r of
      Some (JByteArr bs) \<Rightarrow> (if next_fault w then Q None (consume w)
        else Q (Some (next_pin w)) (pinned r bs (consume w)))
    | _ \<Rightarrow> False)"
proof (cases "\<exists>bs. objs w r = Some (JByteArr bs)")
  case True
  then obtain bs where bs: "objs w r = Some (JByteArr bs)" by blast
  then have "getCritical r w = bnd fault (\<lambda>f w. if f then (Ret None, w)
       else (Ret (Some (next_pin w)), pinned r bs w)) w"
    by (simp add: getCritical_def pinned_def cong: if_cong)
  then have "wp (getCritical r) Q E w = wp (bnd fault (\<lambda>f w. if f then (Ret None, w)
       else (Ret (Some (next_pin w)), pinned r bs w))) Q E w"
    by (simp add: wp_def)
  with bs show ?thesis by (simp add: wp_bnd wp_fault) (simp add: wp_def)
next
  case False
  then show ?thesis
    by (auto simp: wp_def getCritical_def split: option.splits jobj.splits)
qed

lemma wp_releaseCritical [wp_simps]:
  "wp (releaseCritical r p mode) Q E w = (case find_pin p w of None \<Rightarrow> False
    | Some x \<Rightarrow> pin_arr x = r \<and> Q () (w\<lparr>pins := filter (\<lambda>y. pin_id y \<noteq> p) (pins w),
          objs := (case pin_copy x of
              Some bs \<Rightarrow> if mode = ReleaseCommit then (objs w)(r \<mapsto> JByteArr bs) else objs w
            | None \<Rightarrow> objs w)\<rparr>))"
  by (simp add: wp_def releaseCritical_def split: option.splits)

lemma wp_readPin [wp_simps]:
  "wp (readPin p off n) Q E w = (case find_pin p w of None \<Rightarrow> False
    | Some x \<Rightarrow> off + n \<le> length (pin_bytes w x) \<and> Q (slice (pin_bytes w x) off n) w)"
  by (simp add: wp_def readPin_def split: option.splits)

lemma wp_writePin [wp_simps]:
  "wp (writePin p off bs) Q E w = (case find_pin p w of None \<Rightarrow> False
    | Some x \<Rightarrow> off + length bs \<le> length (pin_bytes w x)
        \<and> Q () (set_pin_bytes x (overwrite (pin_bytes w x) off bs) w))"
  by (simp add: wp_def writePin_def split: option.splits)

lemma wp_getDirectBufferAddress [wp_simps]:
  "wp (getDirectBufferAddress r) Q E w =
     Q (case objs (touch w) r of Some (JDirect _) \<Rightarrow> Some r | _ \<Rightarrow> None) (touch w)"
  by (simp add: getDirectBufferAddress_def wp_simps)

lemma wp_getDirectBufferCapacity [wp_simps]:
  "wp (getDirectBufferCapacity r) Q E w =
     Q (case objs (touch w) r of Some (JDirect bs) \<Rightarrow> int (length bs) | _ \<Rightarrow> -1) (touch w)"
  by (simp add: getDirectBufferCapacity_def wp_simps)

lemma wp_readDirect [wp_simps]:
  "wp (readDirect a off n) Q E w = (case objs w a of
      Some (JDirect bs) \<Rightarrow> off + n \<le> length bs \<and> Q (slice bs off n) w | _ \<Rightarrow> False)"
  by (simp add: wp_def readDirect_def split: option.splits jobj.splits)

lemma wp_writeDirect [wp_simps]:
  "wp (writeDirect a off ys) Q E w = (case objs w a of
      Some (JDirect bs) \<Rightarrow> off + length ys \<le> length bs
        \<and> Q () (w\<lparr>objs := (objs w)(a \<mapsto> JDirect (overwrite bs off ys))\<rparr>) | _ \<Rightarrow> False)"
  by (simp add: wp_def writeDirect_def split: option.splits jobj.splits)

lemma wp_getElements [wp_simps]:
  "wp (getElements r) Q E w = (case objs w r of None \<Rightarrow> False
    | Some x \<Rightarrow> if next_fault (touch w) then Q None (consume (touch w))
        else Q (Some x) ((consume (touch w))\<lparr>borrowed := r # borrowed w\<rparr>))"
proof -
  have "objs (touch w) = objs w" "borrowed (touch w) = borrowed w" by (simp_all add: touch_def)
  moreover have "wp (bnd fault (\<lambda>f w. if f then (Ret None, w)
        else (Ret (Some x), w\<lparr>borrowed := r # borrowed w\<rparr>))) Q E v
      = (if next_fault v then Q None (consume v) else Q (Some x) ((consume v)\<lparr>borrowed := r # borrowed v\<rparr>))"
    for x v
    by (simp add: wp_bnd wp_fault) (simp add: wp_def)
  ultimately show ?thesis
    unfolding getElements_def wp_seq wp_jni by (cases "objs w r") (simp_all add: wp_def)
qed

lemma wp_releaseElements [wp_simps]:
  "wp (releaseElements r) Q E w = Q () ((touch w)\<lparr>borrowed := remove1 r (borrowed w)\<rparr>)"
  by (simp add: releaseElements_def wp_simps touch_def)

lemma wp_getStringUTFChars [wp_simps]:
  "wp (getStringUTFChars r) Q E w = (case objs w r of
      Some (JString s) \<Rightarrow> Q (if next_fault (touch w) then None else Some s) (consume (touch w))
    | _ \<Rightarrow> False)"
proof -
  have "objs (touch w) = objs w" by (simp add: touch_def)
  moreover have "wp (bnd fault (\<lambda>f. ret (if f then None else Some s))) Q E v
      = Q (if next_fault v then None else Some s) (consume v)" for s v
    by (simp add: wp_simps)
  ultimately show ?thesis
    unfolding getStringUTFChars_def wp_seq wp_jni
    by (cases "objs w r"; cases "the (objs w r)") (simp_all add: wp_def)
qed

lemma wp_newStringUTF [wp_simps]:
  "wp (newStringUTF s) Q E w =
     (if next_fault (touch w) then Q 0 ((consume (touch w))\<lparr>pending := Some (OutOfMemoryError, ''Java heap space'')\<rparr>)
      else Q (next_ref (touch w)) (allocated (JString s) (consume (touch w))))"
  by (simp add: newStringUTF_def wp_simps)

lemma wp_setObjectArrayElement [wp_simps]:
  "wp (setObjectArrayElement r i x) Q E w = (case objs w r of
      Some (JObjArr xs) \<Rightarrow>
        if i < length xs then Q () ((touch w)\<lparr>objs := (objs w)(r \<mapsto> JObjArr (xs[i := x]))\<rparr>)
        else Q () ((touch w)\<lparr>pending := Some (ArrayIndexOutOfBoundsException, ''index'')\<rparr>)
    | _ \<Rightarrow> False)"
proof -
  have "objs (touch w) = objs w" by (simp add: touch_def)
  then show ?thesis
    unfolding setObjectArrayElement_def wp_seq wp_jni
    by (cases "objs w r"; cases "the (objs w r)") (simp_all add: wp_def raise_def modify_def)
qed

end
