(* ===== verification/Native_Support.thy ===== *)
theory Native_Support
  imports Jni_Env
begin

text \<open>
  \<open>JNI/OpenZLNativeSupport.cpp\<close> and \<open>.h\<close>: the cached class references and exception
  helpers, the range checks of Java arrays and direct buffers, the graph ordinals, the
  scratch buffer and \<open>NativeState\<close>, and the cache of recycled states.  The OpenZL library
  is a parameter of the model: the record \<open>zl\<close> of the functions the code calls.
\<close>

section \<open>The OpenZL library as a parameter\<close>

datatype report = ZOk nat | ZErr nat

definition zl_isError :: "report \<Rightarrow> bool" where
  "zl_isError r = (case r of ZErr _ \<Rightarrow> True | ZOk _ \<Rightarrow> False)"

definition zl_value :: "report \<Rightarrow> nat" where
  "zl_value r = (case r of ZOk n \<Rightarrow> n | ZErr _ \<Rightarrow> 0)"

lemma zl_report_simps [simp]:
  "zl_isError (ZErr e)" "\<not> zl_isError (ZOk n)" "zl_value (ZOk n) = n"
  by (simp_all add: zl_isError_def zl_value_def)

datatype std_graph = G_ZSTD | G_COMPRESS_GENERIC | G_NUMERIC | G_STORE | G_BITPACK | G_FSE
  | G_HUFFMAN | G_ENTROPY | G_CONSTANT

datatype cparam = StickyParameters | CompressionLevel | FormatVersion

datatype arena = Arena_heap | Arena_stack

datatype zl_type = ZL_serial | ZL_struct | ZL_numeric | ZL_string

record outinfo =
  oi_type :: zl_type
  oi_width :: nat
  oi_numElts :: nat

text \<open>
  \<open>'k\<close> is a compressor object, \<open>'c\<close> and \<open>'d\<close> the compression and decompression contexts.
  A context that references a compressor sees its later changes, so the compressor is an
  argument of every compression.  Sizes are \<open>size_t\<close> values.
\<close>

record ('k, 'c, 'd) zl =
  zl_gid :: "std_graph \<Rightarrow> nat"
  zl_level_default :: nat
  zl_default_version :: nat
  zl_new_compressor :: 'k
  zl_new_cctx :: 'c
  zl_new_dctx :: 'd
  zl_cctx_setParameter :: "cparam \<Rightarrow> nat \<Rightarrow> 'c \<Rightarrow> report \<times> 'c"
  zl_dctx_setSticky :: "nat \<Rightarrow> 'd \<Rightarrow> report \<times> 'd"
  zl_cctx_resetParameters :: "'c \<Rightarrow> report \<times> 'c"
  zl_dctx_resetParameters :: "'d \<Rightarrow> report \<times> 'd"
  zl_selectStartingGraph :: "nat \<Rightarrow> 'k \<Rightarrow> report \<times> 'k"
  zl_cctx_refCompressor :: "'k \<Rightarrow> 'c \<Rightarrow> report \<times> 'c"
  zl_cctx_selectStartingGraph :: "'k \<Rightarrow> nat \<Rightarrow> 'c \<Rightarrow> report \<times> 'c"
  zl_cctx_setDataArena :: "arena \<Rightarrow> 'c \<Rightarrow> report \<times> 'c"
  zl_cctx_errorContext :: "'c \<Rightarrow> report \<Rightarrow> string option"
  zl_compressBound :: "nat \<Rightarrow> nat"
  zl_compress :: "'k \<Rightarrow> 'c \<Rightarrow> nat \<Rightarrow> bytes \<Rightarrow> report \<times> bytes \<times> 'c"
  zl_compressTyped :: "'k \<Rightarrow> 'c \<Rightarrow> nat \<Rightarrow> nat \<Rightarrow> nat \<Rightarrow> bytes \<Rightarrow> report \<times> bytes \<times> 'c"
  zl_getDecompressedSize :: "bytes \<Rightarrow> report"
  zl_decompress :: "'d \<Rightarrow> nat \<Rightarrow> bytes \<Rightarrow> report \<times> bytes \<times> 'd"
  zl_decompressTyped :: "'d \<Rightarrow> nat \<Rightarrow> bytes \<Rightarrow> report \<times> outinfo \<times> bytes \<times> 'd"

section \<open>State\<close>

record scratch =
  sc_data :: "bytes option"
  sc_capacity :: nat
  sc_size :: nat

record ('k, 'c, 'd) nstate =
  compressor :: 'k
  cctx :: 'c
  dctx :: 'd
  startingGraph :: nat
  outputScratch :: scratch

text \<open>
  The process: the JVM state, the \<open>NativeState\<close> objects by address (0 is \<open>nullptr\<close>), the
  number of live contexts of either kind and of live frame descriptions, the thread-local cache of each thread, the running
  thread, and the global cache (the list of its \<open>globalCacheSize\<close> entries, last on top); and the
  files of the host by path.
\<close>

record ('k, 'c, 'd) world = jvm +
  natives :: "nat \<Rightarrow> ('k, 'c, 'd) nstate option"
  next_addr :: nat
  live_cctx :: nat
  live_dctx :: nat
  live_frames :: nat
  tls :: "nat \<Rightarrow> nat"
  cur :: nat
  gcache :: "nat list"
  files :: "(string \<times> bytes) list"

definition MAX_GLOBAL_CACHE :: nat where
  "MAX_GLOBAL_CACHE = 8"

section \<open>Class references and exceptions\<close>

definition makeGlobalClassRef :: "jexn \<Rightarrow> ('z jvm_scheme, bool) act" where
  "makeGlobalClassRef c = seq jni (bnd fault (\<lambda>notFound.
     if notFound then seq (raise NoClassDefFoundError ''class not found'') (ret False)
     else bnd fault (\<lambda>noGlobal.
       if noGlobal then ret False
       else seq (modify (\<lambda>w. w\<lparr>global_refs := c # global_refs w\<rparr>)) (ret True))))"

definition ensureExceptionClass :: "jexn \<Rightarrow> ('z jvm_scheme, bool) act" where
  "ensureExceptionClass c = bnd (gets (\<lambda>w. class_refs w c)) (\<lambda>have_it.
     if have_it then ret True
     else bnd (makeGlobalClassRef c) (\<lambda>made.
       if made then seq (modify (\<lambda>w. w\<lparr>class_refs := (class_refs w)(c := True)\<rparr>)) (ret True)
       else ret False))"

definition initJniRefs :: "('z jvm_scheme, bool) act" where
  "initJniRefs =
     bnd (ensureExceptionClass NullPointerException) (\<lambda>ok. if \<not> ok then ret False else
     bnd (ensureExceptionClass IllegalArgumentException) (\<lambda>ok. if \<not> ok then ret False else
     bnd (ensureExceptionClass IllegalStateException) (\<lambda>ok. if \<not> ok then ret False else
     bnd (ensureExceptionClass OutOfMemoryError) (\<lambda>ok. if \<not> ok then ret False else
     ret True))))"

definition clearRef :: "jexn \<Rightarrow> ('z jvm_scheme, unit) act" where
  "clearRef c = bnd (gets (\<lambda>w. class_refs w c)) (\<lambda>have_it.
     if have_it then seq jni (modify (\<lambda>w. w\<lparr>global_refs := remove1 c (global_refs w),
       class_refs := (class_refs w)(c := False)\<rparr>))
     else ret ())"

definition clearJniRefs :: "('z jvm_scheme, unit) act" where
  "clearJniRefs =
     seq (clearRef NullPointerException)
    (seq (clearRef IllegalArgumentException)
    (seq (clearRef IllegalStateException)
    (seq (clearRef OutOfMemoryError)
         (modify (\<lambda>w. w\<lparr>handle_field := False\<rparr>)))))"

text \<open>\<open>refs.c\<close>: the cached reference, null unless initialised.\<close>

definition ref_of :: "jexn \<Rightarrow> ('z jvm_scheme, jexn option) act" where
  "ref_of c = gets (\<lambda>w. if class_refs w c then Some c else None)"

definition throwNew :: "jexn option \<Rightarrow> string \<Rightarrow> ('z jvm_scheme, unit) act" where
  "throwNew clazz msg = seq jni (case clazz of
      Some c \<Rightarrow> raise c msg
    | None \<Rightarrow> bnd fault (\<lambda>notFound.
        if notFound then raise NoClassDefFoundError ''java/lang/RuntimeException''
        else raise RuntimeException msg))"

definition throwCached :: "jexn \<Rightarrow> string \<Rightarrow> ('z jvm_scheme, unit) act" where
  "throwCached c msg = bnd (ref_of c) (\<lambda>clazz. throwNew clazz msg)"

definition throwIllegalState :: "string \<Rightarrow> ('z jvm_scheme, unit) act" where
  "throwIllegalState msg = bnd (ensureExceptionClass IllegalStateException) (\<lambda>ok.
     if \<not> ok then throwNew None msg else throwCached IllegalStateException msg)"

definition throwIllegalArgument :: "string \<Rightarrow> ('z jvm_scheme, unit) act" where
  "throwIllegalArgument msg = bnd (ensureExceptionClass IllegalArgumentException) (\<lambda>ok.
     if \<not> ok then throwNew None msg else throwCached IllegalArgumentException msg)"

section \<open>Native handles\<close>

definition ensureNativeHandleField :: "nat \<Rightarrow> ('z jvm_scheme, bool) act" where
  "ensureNativeHandleField obj = bnd (gets handle_field) (\<lambda>cached.
     if cached then ret True
     else if obj = 0 then
       seq (throwCached NullPointerException ''Compressor instance is required'') (ret False)
     else seq jni (bnd fault (\<lambda>noField.
       if noField then seq (raise NoSuchFieldError ''nativeHandle'') (ret False)
       else seq (modify (\<lambda>w. w\<lparr>handle_field := True\<rparr>)) (ret True))))"

definition getState :: "nat \<Rightarrow> ('z jvm_scheme, nat) act" where
  "getState obj = bnd (ensureNativeHandleField obj) (\<lambda>ok.
     if \<not> ok then ret 0
     else bnd (getField obj ''nativeHandle'') (\<lambda>v. case v of VHandle h \<Rightarrow> ret h | _ \<Rightarrow> undef))"

definition setNativeHandle :: "nat \<Rightarrow> nat \<Rightarrow> ('z jvm_scheme, unit) act" where
  "setNativeHandle obj value = bnd (ensureNativeHandleField obj) (\<lambda>ok.
     if \<not> ok then ret () else setField obj ''nativeHandle'' (VHandle value))"

definition ensureState :: "nat \<Rightarrow> bool" where
  "ensureState state \<longleftrightarrow> state \<noteq> 0"

section \<open>Range checks\<close>

definition checkArrayRange :: "nat \<Rightarrow> jint \<Rightarrow> jint \<Rightarrow> string \<Rightarrow> ('z jvm_scheme, bool) act" where
  "checkArrayRange arr offset len name =
     (if arr = 0 then seq (throwCached NullPointerException name) (ret False)
      else if jneg offset \<or> jneg len then
        seq (throwCached IllegalArgumentException ''offset or length is negative'') (ret False)
      else bnd (getArrayLength arr) (\<lambda>arrayLen.
        if sint offset > sint arrayLen \<or> sint len > sint (arrayLen - offset) then
          seq (throwCached IllegalArgumentException ''offset/length out of bounds'') (ret False)
        else ret True))"

definition ensureDirect :: "nat \<Rightarrow> string \<Rightarrow> ('z jvm_scheme, bool) act" where
  "ensureDirect buffer name =
     (if buffer = 0 then seq (throwCached NullPointerException name) (ret False)
      else bnd (getDirectBufferAddress buffer) (\<lambda>addr.
        if addr = None then
          seq (throwCached IllegalArgumentException ''ByteBuffer must be direct'') (ret False)
        else ret True))"

definition ensureDirectRange :: "nat \<Rightarrow> jint \<Rightarrow> jint \<Rightarrow> string \<Rightarrow> ('z jvm_scheme, bool) act" where
  "ensureDirectRange buffer position len name =
     bnd (ensureDirect buffer name) (\<lambda>ok. if \<not> ok then ret False
      else if jneg position \<or> jneg len then
        seq (throwCached IllegalArgumentException ''Negative position or length'') (ret False)
      else bnd (getDirectBufferCapacity buffer) (\<lambda>cap.
        let capacity = (word_of_int cap :: jlong) in
        if sint capacity < 0 then
          seq (throwCached IllegalStateException ''Unable to query direct buffer capacity'') (ret False)
        else let endpos = (scast position + scast len :: jlong) in
          if sint endpos > sint capacity then
            seq (throwCached IllegalArgumentException ''position/length exceed buffer capacity'')
              (ret False)
          else ret True))"

section \<open>Graph ordinals\<close>

definition graphIdFromOrdinal :: "('k, 'c, 'd) zl \<Rightarrow> jint \<Rightarrow> nat" where
  "graphIdFromOrdinal L ordinal =
     (if ordinal = 1 then zl_gid L G_COMPRESS_GENERIC
      else if ordinal = 2 then zl_gid L G_NUMERIC
      else if ordinal = 3 then zl_gid L G_STORE
      else if ordinal = 4 then zl_gid L G_BITPACK
      else if ordinal = 5 then zl_gid L G_FSE
      else if ordinal = 6 then zl_gid L G_HUFFMAN
      else if ordinal = 7 then zl_gid L G_ENTROPY
      else if ordinal = 8 then zl_gid L G_CONSTANT
      else zl_gid L G_ZSTD)"

definition graphEquals :: "nat \<Rightarrow> nat \<Rightarrow> bool" where
  "graphEquals lhs rhs \<longleftrightarrow> lhs = rhs"

definition graphOrdinalFromId :: "('k, 'c, 'd) zl \<Rightarrow> nat \<Rightarrow> jint" where
  "graphOrdinalFromId L graph =
     (if graphEquals graph (zl_gid L G_ZSTD) then 0
      else if graphEquals graph (zl_gid L G_COMPRESS_GENERIC) then 1
      else if graphEquals graph (zl_gid L G_NUMERIC) then 2
      else if graphEquals graph (zl_gid L G_STORE) then 3
      else if graphEquals graph (zl_gid L G_BITPACK) then 4
      else if graphEquals graph (zl_gid L G_FSE) then 5
      else if graphEquals graph (zl_gid L G_HUFFMAN) then 6
      else if graphEquals graph (zl_gid L G_ENTROPY) then 7
      else if graphEquals graph (zl_gid L G_CONSTANT) then 8
      else -1)"

section \<open>The scratch buffer\<close>

text \<open>
  \<open>ensure\<close> allocates before it replaces the old buffer, so a failed allocation leaves the
  buffer as it was.  Fresh memory is modelled as zeros.
\<close>

definition PTRDIFF_MAX :: nat where
  "PTRDIFF_MAX = 2 ^ 63 - 1"

definition scratch_ensure :: "nat \<Rightarrow> bool \<Rightarrow> scratch \<Rightarrow> scratch option" where
  "scratch_ensure required fails b =
     (if sc_capacity b < required then
        if required = 0 then Some (b\<lparr>sc_data := None, sc_capacity := required\<rparr>)
        else if fails \<or> required > PTRDIFF_MAX then None
        else Some (b\<lparr>sc_data := Some (replicate required 0), sc_capacity := required\<rparr>)
      else Some b)"

definition scratch_reset :: "scratch \<Rightarrow> scratch" where
  "scratch_reset b = b\<lparr>sc_size := 0\<rparr>"

definition scratch_setSize :: "nat \<Rightarrow> scratch \<Rightarrow> scratch" where
  "scratch_setSize newSize b = b\<lparr>sc_size := newSize\<rparr>"

definition scratch_ptr :: "scratch \<Rightarrow> bytes option" where
  "scratch_ptr b = sc_data b"

section \<open>NativeState\<close>

type_synonym ('k, 'c, 'd, 'a) nact = "(('k, 'c, 'd) nstate, 'a) act"

definition expectSuccess :: "report \<Rightarrow> string \<Rightarrow> ('s, unit) act" where
  "expectSuccess r action = (case r of
      ZErr e \<Rightarrow> throw (RuntimeError (action @ '' failed: error code '' @ to_string e))
    | ZOk _ \<Rightarrow> ret ())"

definition with_cctx :: "('c \<Rightarrow> report \<times> 'c) \<Rightarrow> ('k, 'c, 'd, report) nact" where
  "with_cctx f = (\<lambda>s. let (r, c') = f (cctx s) in (Ret r, s\<lparr>cctx := c'\<rparr>))"

definition with_dctx :: "('d \<Rightarrow> report \<times> 'd) \<Rightarrow> ('k, 'c, 'd, report) nact" where
  "with_dctx f = (\<lambda>s. let (r, d') = f (dctx s) in (Ret r, s\<lparr>dctx := d'\<rparr>))"

definition with_compressor :: "('k \<Rightarrow> report \<times> 'k) \<Rightarrow> ('k, 'c, 'd, report) nact" where
  "with_compressor f = (\<lambda>s. let (r, k') = f (compressor s) in (Ret r, s\<lparr>compressor := k'\<rparr>))"

definition applyDefaultParameters :: "('k, 'c, 'd) zl \<Rightarrow> ('k, 'c, 'd, unit) nact" where
  "applyDefaultParameters L =
     bnd (with_cctx (zl_cctx_setParameter L StickyParameters 1)) (\<lambda>r.
     seq (expectSuccess r ''ZL_CCtx_setParameter(stickyParameters)'') (
     bnd (with_cctx (zl_cctx_setParameter L CompressionLevel (zl_level_default L))) (\<lambda>r.
     seq (expectSuccess r ''ZL_CCtx_setParameter(compressionLevel)'') (
     bnd (with_cctx (zl_cctx_setParameter L FormatVersion (zl_default_version L))) (\<lambda>r.
     seq (expectSuccess r ''ZL_CCtx_setParameter(formatVersion)'') (
     bnd (with_dctx (zl_dctx_setSticky L 1)) (\<lambda>r.
     expectSuccess r ''ZL_DCtx_setParameter(stickyParameters)'')))))))"

definition configureGraph :: "('k, 'c, 'd) zl \<Rightarrow> ('k, 'c, 'd, unit) nact" where
  "configureGraph L =
     bnd (gets startingGraph) (\<lambda>g.
     bnd (with_compressor (zl_selectStartingGraph L g)) (\<lambda>r.
     seq (expectSuccess r ''ZL_Compressor_selectStartingGraphID'') (
     bnd (gets compressor) (\<lambda>k.
     bnd (with_cctx (zl_cctx_refCompressor L k)) (\<lambda>r.
     seq (expectSuccess r ''ZL_CCtx_refCompressor'') (
     bnd (with_cctx (zl_cctx_selectStartingGraph L k g)) (\<lambda>r.
     expectSuccess r ''ZL_CCtx_selectStartingGraphID'')))))))"

definition setGraph :: "('k, 'c, 'd) zl \<Rightarrow> nat \<Rightarrow> ('k, 'c, 'd, unit) nact" where
  "setGraph L graph = seq (modify (\<lambda>s. s\<lparr>startingGraph := graph\<rparr>)) (configureGraph L)"

definition resetState :: "('k, 'c, 'd) zl \<Rightarrow> ('k, 'c, 'd, unit) nact" where
  "resetState L =
     bnd (with_cctx (zl_cctx_resetParameters L)) (\<lambda>r.
     seq (expectSuccess r ''ZL_CCtx_resetParameters'') (
     bnd (with_dctx (zl_dctx_resetParameters L)) (\<lambda>r.
     seq (expectSuccess r ''ZL_DCtx_resetParameters'') (
     seq (applyDefaultParameters L) (
     seq (configureGraph L) (
     modify (\<lambda>s. s\<lparr>outputScratch := scratch_reset (outputScratch s)\<rparr>)))))))"

text \<open>Running a method on the object at an address; a null or dangling pointer is undefined.\<close>

definition on_state :: "nat \<Rightarrow> ('k, 'c, 'd, 'a) nact \<Rightarrow> (('k, 'c, 'd) world, 'a) act" where
  "on_state h m = (\<lambda>w. case natives w h of
      None \<Rightarrow> (Undef, w)
    | Some s \<Rightarrow> (case m s of (res, s') \<Rightarrow> (res, w\<lparr>natives := (natives w)(h \<mapsto> s')\<rparr>)))"

text \<open>
  The constructor: a C++ constructor that throws does not run the destructor, so contexts
  created before the throw stay live.  \<open>create\<close> of a context that fails returns null.
\<close>

definition createCCtx :: "(('k, 'c, 'd) world, bool) act" where
  "createCCtx = bnd fault (\<lambda>f. if f then ret False
     else seq (modify (\<lambda>w. w\<lparr>live_cctx := Suc (live_cctx w)\<rparr>)) (ret True))"

definition createDCtx :: "(('k, 'c, 'd) world, bool) act" where
  "createDCtx = bnd fault (\<lambda>f. if f then ret False
     else seq (modify (\<lambda>w. w\<lparr>live_dctx := Suc (live_dctx w)\<rparr>)) (ret True))"

definition initial_state :: "('k, 'c, 'd) zl \<Rightarrow> nat \<Rightarrow> ('k, 'c, 'd) nstate" where
  "initial_state L graph = \<lparr>compressor = zl_new_compressor L, cctx = zl_new_cctx L,
     dctx = zl_new_dctx L, startingGraph = graph,
     outputScratch = \<lparr>sc_data = None, sc_capacity = 0, sc_size = 0\<rparr>\<rparr>"

definition newNativeState :: "('k, 'c, 'd) zl \<Rightarrow> nat \<Rightarrow> (('k, 'c, 'd) world, nat) act" where
  "newNativeState L graph =
     bnd fault (\<lambda>noMemory. if noMemory then throw BadAlloc else
     bnd createCCtx (\<lambda>c.
     bnd createDCtx (\<lambda>d.
     if \<not> c \<or> \<not> d then throw BadAlloc
     else (case seq (applyDefaultParameters L) (configureGraph L) (initial_state L graph) of
         (Ret _, s) \<Rightarrow> (\<lambda>w. (Ret (next_addr w),
           w\<lparr>natives := (natives w)(next_addr w \<mapsto> s), next_addr := Suc (next_addr w)\<rparr>))
       | (Throw e, s) \<Rightarrow> throw e
       | (Undef, s) \<Rightarrow> undef))))"

definition deleteNativeState :: "nat \<Rightarrow> (('k, 'c, 'd) world, unit) act" where
  "deleteNativeState h = (\<lambda>w. case natives w h of
      None \<Rightarrow> (Undef, w)
    | Some _ \<Rightarrow> (Ret (), w\<lparr>natives := (natives w)(h := None),
        live_cctx := live_cctx w - 1, live_dctx := live_dctx w - 1\<rparr>))"

section \<open>The cache of recycled states\<close>

definition acquireState :: "('k, 'c, 'd) zl \<Rightarrow> nat \<Rightarrow> (('k, 'c, 'd) world, nat) act" where
  "acquireState L graph =
     bnd (gets (\<lambda>w. tls w (cur w))) (\<lambda>t.
     if t \<noteq> 0 then
       seq (modify (\<lambda>w. w\<lparr>tls := (tls w)(cur w := 0)\<rparr>))
      (seq (on_state t (resetState L))
      (seq (on_state t (setGraph L graph)) (ret t)))
     else
       bnd (gets gcache) (\<lambda>cache.
       if cache \<noteq> [] then
         seq (modify (\<lambda>w. w\<lparr>gcache := butlast (gcache w)\<rparr>))
        (seq (on_state (last cache) (resetState L))
        (seq (on_state (last cache) (setGraph L graph)) (ret (last cache))))
       else newNativeState L graph))"

definition recycleState :: "('k, 'c, 'd) zl \<Rightarrow> nat \<Rightarrow> (('k, 'c, 'd) world, unit) act" where
  "recycleState L state =
     (if state = 0 then ret ()
      else seq (on_state state (resetState L))
       (bnd (gets (\<lambda>w. tls w (cur w))) (\<lambda>t.
        if t = 0 then modify (\<lambda>w. w\<lparr>tls := (tls w)(cur w := state)\<rparr>)
        else bnd (gets gcache) (\<lambda>cache.
          if length cache < MAX_GLOBAL_CACHE then modify (\<lambda>w. w\<lparr>gcache := gcache w @ [state]\<rparr>)
          else deleteNativeState state))))"

end
