(* ===== verification/Native_Rules.thy ===== *)
theory Native_Rules
  imports Native_Support
begin

text \<open>
  The weakest preconditions of the support functions of \<open>Native_Support\<close> and the
  arithmetic behind the range checks; the proofs about native methods rest on these rules.
\<close>

section \<open>Rules for the support functions\<close>

text \<open>The state after \<open>throwNew\<close> of a cached class.\<close>

definition thrown :: "jexn \<Rightarrow> string \<Rightarrow> 'z jvm_scheme \<Rightarrow> 'z jvm_scheme" where
  "thrown c msg w = (let w1 = touch w in
     if class_refs w1 c then w1\<lparr>pending := Some (c, msg)\<rparr>
     else if next_fault w1
       then (consume w1)\<lparr>pending := Some (NoClassDefFoundError, ''java/lang/RuntimeException'')\<rparr>
       else (consume w1)\<lparr>pending := Some (RuntimeException, msg)\<rparr>)"

lemma wp_throwCached [wp_simps]: "wp (throwCached c msg) Q E w = Q () (thrown c msg w)"
  by (simp add: throwCached_def ref_of_def throwNew_def wp_simps thrown_def Let_def touch_def)

lemma thrown_simps [simp]:
  "objs (thrown c m w) = objs w" "next_ref (thrown c m w) = next_ref w"
  "pins (thrown c m w) = pins w" "next_pin (thrown c m w) = next_pin w"
  "borrowed (thrown c m w) = borrowed w" "pin_copies (thrown c m w) = pin_copies w"
  "misuse (thrown c m w) = misuse (touch w)" "class_refs (thrown c m w) = class_refs w"
  "jvm.more (thrown c m w) = jvm.more w" "pending (thrown c m w) \<noteq> None"
  by (simp_all add: thrown_def Let_def touch_def consume_def)

lemma thrown_pending: "class_refs w c \<Longrightarrow> pending (thrown c m w) = Some (c, m)"
  by (simp add: thrown_def Let_def touch_def)

text \<open>The fields of the process behind the JVM state.\<close>

lemma world_of_more:
  assumes "jvm.more w' = jvm.more (w :: ('k, 'c, 'd) world)"
  shows "natives w' = natives w" "next_addr w' = next_addr w" "live_cctx w' = live_cctx w"
    "live_dctx w' = live_dctx w" "tls w' = tls w" "cur w' = cur w" "gcache w' = gcache w"
    "live_frames w' = live_frames w" "files w' = files w"
  using assms by (cases w; cases w'; simp)+

lemmas world_simps [simp] =
  world_of_more [OF consume_simps(12)] world_of_more [OF allocated_simps(12)]
  world_of_more [OF pinned_simps(10)] world_of_more [OF thrown_simps(9)]

lemma touch_more [simp]: "jvm.more (touch w) = jvm.more w"
  by (simp add: touch_def)

lemmas touch_world_simps [simp] = world_of_more [OF touch_more]

lemma jint_of_nat [simp]:
  assumes "n \<le> 2147483647"
  shows "sint (word_of_nat n :: jint) = int n" and "jsize (word_of_nat n) = n"
    and "\<not> jneg (word_of_nat n)"
proof -
  show "sint (word_of_nat n :: jint) = int n"
    using assms by (simp add: signed_of_nat signed_take_bit_int_eq_self)
  then show "jsize (word_of_nat n) = n" and "\<not> jneg (word_of_nat n)"
    by (simp_all add: jsize_def jneg_def)
qed

lemma jint_bounds: "- 2147483648 \<le> sint (i :: jint)" "sint (i :: jint) \<le> 2147483647"
  using sint_ge [of i] sint_lt [of i] by simp_all

text \<open>The subtraction of the array check cannot wrap once the offset is known to be in range.\<close>

lemma array_range_arith:
  assumes n: "n \<le> 2147483647" and off: "\<not> jneg off" and len: "\<not> jneg len"
  shows "(sint off > int n \<or> sint len > sint (word_of_nat n - off :: jint))
      \<longleftrightarrow> \<not> jsize off + jsize len \<le> n"
proof (cases "sint off > int n")
  case True
  then show ?thesis using n len by (auto simp: jsize_def jneg_def)
next
  case False
  have "sint (word_of_nat n - off :: jint) = int n - sint off"
    using n off False jint_bounds [of off]
    by (simp add: sint_word_ariths signed_take_bit_int_eq_self jneg_def)
  then show ?thesis using n off len False by (auto simp: jsize_def jneg_def)
qed

text \<open>The 64-bit sum of the direct-buffer check cannot wrap.\<close>

lemma direct_range_arith:
  assumes "\<not> jneg pos" and "\<not> jneg len"
  shows "sint (scast pos + scast len :: jlong) = int (jsize pos + jsize len)"
proof -
  have "sint (scast i :: jlong) = sint i" for i :: jint
    by (rule sint_up_scast) (simp add: is_up)
  then have "sint (scast pos + scast len :: jlong) = sint pos + sint len"
    using assms jint_bounds [of pos] jint_bounds [of len]
    by (simp add: sint_word_ariths signed_take_bit_int_eq_self)
  then show ?thesis using assms by (simp add: jsize_def jneg_def)
qed


section \<open>Compressor objects, ranges and state methods\<close>

text \<open>A Java compressor object whose \<open>nativeHandle\<close> field holds \<open>h\<close>.\<close>

definition compressor_obj :: "'z jvm_scheme \<Rightarrow> nat \<Rightarrow> nat \<Rightarrow> bool" where
  "compressor_obj w obj h \<longleftrightarrow> obj \<noteq> 0 \<and>
     (\<exists>fs. objs w obj = Some (JObject fs) \<and> fs ''nativeHandle'' = Some (VHandle h))"

definition field_cached :: "'z jvm_scheme \<Rightarrow> 'z jvm_scheme" where
  "field_cached w = (if handle_field w then w else (consume w)\<lparr>handle_field := True\<rparr>)"

definition field_failed :: "'z jvm_scheme \<Rightarrow> bool" where
  "field_failed w \<longleftrightarrow> \<not> handle_field w \<and> next_fault w"

lemma field_cached_simps [simp]:
  "objs (field_cached w) = objs w" "next_ref (field_cached w) = next_ref w"
  "pins (field_cached w) = pins w" "next_pin (field_cached w) = next_pin w"
  "borrowed (field_cached w) = borrowed w" "pin_copies (field_cached w) = pin_copies w"
  "misuse (field_cached w) = misuse w" "class_refs (field_cached w) = class_refs w"
  "pending (field_cached w) = pending w" "jvm.more (field_cached w) = jvm.more w"
  "handle_field (field_cached w)"
  by (simp_all add: field_cached_def consume_def)

lemmas field_cached_world [simp] = world_of_more [OF field_cached_simps(10)]

lemma wp_getState:
  assumes "compressor_obj w obj h" and "pins w = []"
  shows "wp (getState obj) Q E w =
    (if field_failed w
     then Q 0 ((consume w)\<lparr>pending := Some (NoSuchFieldError, ''nativeHandle'')\<rparr>)
     else Q h (field_cached w))"
  using assms unfolding getState_def ensureNativeHandleField_def compressor_obj_def
  by (auto simp: wp_simps field_failed_def field_cached_def)

definition in_range :: "jint \<Rightarrow> jint \<Rightarrow> nat \<Rightarrow> bool" where
  "in_range off len n \<longleftrightarrow> \<not> jneg off \<and> \<not> jneg len \<and> jsize off + jsize len \<le> n"

lemma obj_ok_length: "jvm_ok w \<Longrightarrow> objs w r = Some x \<Longrightarrow> array_length x = Some n \<Longrightarrow> n \<le> 2147483647"
  by (auto simp: jvm_ok_def obj_ok_def split: option.splits)

lemma obj_ok_direct: "jvm_ok w \<Longrightarrow> objs w r = Some (JDirect bs) \<Longrightarrow> length bs \<le> 2147483647"
  by (force simp: jvm_ok_def obj_ok_def split: option.splits)

lemma jvm_ok_null [simp]: "jvm_ok w \<Longrightarrow> objs w 0 = None"
  by (simp add: jvm_ok_def)

lemma jvm_ok_cong: "objs w' = objs w \<Longrightarrow> next_ref w' = next_ref w \<Longrightarrow> jvm_ok w' = jvm_ok w"
  by (simp add: jvm_ok_def)

lemma jvm_ok_update:
  assumes "jvm_ok w" and "objs w d = Some x" and "obj_ok y"
    and "objs w' = (objs w)(d \<mapsto> y)" and "next_ref w' = next_ref w"
  shows "jvm_ok w'"
  using assms unfolding jvm_ok_def by (metis fun_upd_apply option.distinct(1) option.inject)

lemma allocated_below: "jvm_ok w \<Longrightarrow> objs w r = Some x \<Longrightarrow> r < next_ref w"
  unfolding jvm_ok_def by (metis not_le option.distinct(1))

lemma jvm_ok_alloc:
  assumes "jvm_ok w" and "obj_ok y" and "objs w' = (objs w)(next_ref w \<mapsto> y)"
    and "next_ref w' = Suc (next_ref w)"
  shows "jvm_ok w'"
  using assms unfolding jvm_ok_def by (auto split: if_splits)

lemma compressor_obj_alloc:
  assumes "jvm_ok w" and "compressor_obj w obj h" and "objs w' = (objs w)(next_ref w \<mapsto> y)"
  shows "compressor_obj w' obj h"
  using assms allocated_below [OF assms(1)] by (fastforce simp: compressor_obj_def)

lemma compressor_obj_update:
  assumes "compressor_obj w obj h" and "objs w d = Some x" and "objs w' = (objs w)(d \<mapsto> y)"
    and "\<And>fs. x \<noteq> JObject fs"
  shows "compressor_obj w' obj h"
proof -
  obtain fs where "objs w obj = Some (JObject fs)" using assms(1) by (auto simp: compressor_obj_def)
  with assms(2) assms(4) [of fs] have "obj \<noteq> d" by auto
  then show ?thesis using assms(1,3) by (simp add: compressor_obj_def)
qed

lemma wp_checkArrayRange:
  assumes "jvm_ok w" and "pins w = []"
  shows "wp (checkArrayRange arr off len nm) Q E w =
    (if arr = 0 then Q False (thrown NullPointerException nm w)
     else if jneg off \<or> jneg len
       then Q False (thrown IllegalArgumentException ''offset or length is negative'' w)
     else (case Option.bind (objs w arr) array_length of None \<Rightarrow> False
       | Some n \<Rightarrow> if in_range off len n then Q True w
           else Q False (thrown IllegalArgumentException ''offset/length out of bounds'' w)))"
proof -
  have "n \<le> 2147483647" if "Option.bind (objs w arr) array_length = Some n" for n
    using that assms(1) obj_ok_length by (auto simp: Option.bind_eq_Some_conv)
  then show ?thesis
    using assms(2) unfolding checkArrayRange_def
    by (simp add: wp_simps array_range_arith in_range_def split: option.split) auto
qed

lemma wp_ensureDirectRange:
  assumes "jvm_ok w" and "pins w = []"
  shows "wp (ensureDirectRange buffer pos len nm) Q E w =
    (if buffer = 0 then Q False (thrown NullPointerException nm w)
     else (case objs w buffer of
         Some (JDirect bs) \<Rightarrow>
           if jneg pos \<or> jneg len
             then Q False (thrown IllegalArgumentException ''Negative position or length'' w)
           else if in_range pos len (length bs) then Q True w
           else Q False (thrown IllegalArgumentException ''position/length exceed buffer capacity'' w)
       | _ \<Rightarrow> Q False (thrown IllegalArgumentException ''ByteBuffer must be direct'' w)))"
proof (cases "\<exists>bs. objs w buffer = Some (JDirect bs)")
  case True
  then obtain bs where bs: "objs w buffer = Some (JDirect bs)" by blast
  then have "length bs \<le> 2147483647" using assms(1) obj_ok_direct by blast
  then have "sint (word_of_nat (length bs) :: jlong) = int (length bs)"
    by (simp add: signed_of_nat signed_take_bit_int_eq_self)
  then show ?thesis
    using bs assms(2) unfolding ensureDirectRange_def ensureDirect_def
    by (auto simp: wp_simps Let_def direct_range_arith in_range_def)
next
  case False
  then show ?thesis
    using assms(2) unfolding ensureDirectRange_def ensureDirect_def
    by (auto simp: wp_simps split: option.splits jobj.splits)
qed

lemma wp_on_state [wp_simps]:
  "wp (on_state h m) Q E w = (case natives w h of None \<Rightarrow> False
    | Some s \<Rightarrow> wp m (\<lambda>a s'. Q a (w\<lparr>natives := (natives w)(h \<mapsto> s')\<rparr>))
                   (\<lambda>e s'. E e (w\<lparr>natives := (natives w)(h \<mapsto> s')\<rparr>)) s)"
  by (simp add: wp_def on_state_def split: option.splits prod.splits outcome.splits)

lemma wp_expectSuccess [wp_simps]:
  "wp (expectSuccess r action) Q E s = (case r of
      ZErr e \<Rightarrow> E (RuntimeError (action @ '' failed: error code '' @ to_string e)) s
    | ZOk _ \<Rightarrow> Q () s)"
  by (simp add: expectSuccess_def wp_simps split: report.splits)

lemma wp_with_cctx [wp_simps]:
  "wp (with_cctx f) Q E s = Q (fst (f (cctx s))) (s\<lparr>cctx := snd (f (cctx s))\<rparr>)"
  by (simp add: wp_def with_cctx_def split_beta)

lemma wp_with_dctx [wp_simps]:
  "wp (with_dctx f) Q E s = Q (fst (f (dctx s))) (s\<lparr>dctx := snd (f (dctx s))\<rparr>)"
  by (simp add: wp_def with_dctx_def split_beta)

lemma wp_with_compressor [wp_simps]:
  "wp (with_compressor f) Q E s = Q (fst (f (compressor s))) (s\<lparr>compressor := snd (f (compressor s))\<rparr>)"
  by (simp add: wp_def with_compressor_def split_beta)

section \<open>Early exits\<close>

text \<open>
  Up to its first effect a native method only reads, fails or raises an exception:
  \<open>same w0 w\<close> says that \<open>w\<close> differs from \<open>w0\<close> at most in the pending exception, the
  schedule of failures and the cached field.  The rules below follow the idioms of the
  code: fetch the state or leave, check a range or leave, pin an array or leave.
\<close>

definition same :: "'z jvm_scheme \<Rightarrow> 'z jvm_scheme \<Rightarrow> bool" where
  "same w w' \<longleftrightarrow> objs w' = objs w \<and> next_ref w' = next_ref w \<and> pins w' = pins w
     \<and> next_pin w' = next_pin w \<and> pin_copies w' = pin_copies w \<and> borrowed w' = borrowed w
     \<and> misuse w' = misuse w \<and> class_refs w' = class_refs w \<and> jvm.more w' = jvm.more w"

lemma same_refl: "same w w"
  by (simp add: same_def)

lemma same_trans: "same w0 w \<Longrightarrow> same w w' \<Longrightarrow> same w0 w'"
  by (simp add: same_def)

lemma same_consume: "same w (consume w)"
  by (simp add: same_def)

lemma same_thrown: "pins w = [] \<Longrightarrow> same w (thrown c m w)"
  by (simp add: same_def)

lemma same_field_cached: "same w (field_cached w)"
  by (simp add: same_def)

lemma same_pending: "same w w' \<Longrightarrow> same w (w'\<lparr>pending := p\<rparr>)"
  by (simp add: same_def)

lemma same_facts:
  assumes "same w0 w"
  shows "pins w = pins w0" "objs w = objs w0" "jvm_ok w = jvm_ok w0"
    "compressor_obj w = compressor_obj w0" "misuse w = misuse w0" "next_pin w = next_pin w0"
  using assms by (auto simp: same_def jvm_ok_def compressor_obj_def fun_eq_iff)

lemma same_world:
  assumes "same w0 (w :: ('k, 'c, 'd) world)"
  shows "natives w = natives w0" "next_addr w = next_addr w0" "live_cctx w = live_cctx w0"
    "live_dctx w = live_dctx w0" "tls w = tls w0" "cur w = cur w0" "gcache w = gcache w0"
    "live_frames w = live_frames w0"
  using assms by (auto simp: same_def intro: world_of_more)

lemma same_eqs:
  assumes "same w0 (w :: ('k, 'c, 'd) world)"
  shows "objs w = objs w0 \<and> next_ref w = next_ref w0 \<and> pins w = pins w0 \<and> next_pin w = next_pin w0
    \<and> pin_copies w = pin_copies w0 \<and> borrowed w = borrowed w0 \<and> misuse w = misuse w0
    \<and> class_refs w = class_refs w0 \<and> natives w = natives w0 \<and> live_cctx w = live_cctx w0"
  using assms same_world(1,3) [OF assms] by (simp add: same_def)

lemma wpi_getState:
  assumes b: "same w0 w" and o: "compressor_obj w0 obj h" and p: "pins w0 = []"
    and 1: "\<And>w'. same w0 w' \<Longrightarrow> pending w' \<noteq> None \<Longrightarrow> Q 0 w'"
    and 2: "\<And>w'. same w0 w' \<Longrightarrow> pending w' = pending w \<Longrightarrow> Q h w'"
  shows "wp (getState obj) Q E w"
proof -
  have "pins w = []" "compressor_obj w obj h" using b o p by (simp_all add: same_facts)
  then show ?thesis
    by (simp add: wp_getState)
      (auto intro!: 1 2 same_pending same_trans [OF b] same_consume same_field_cached)
qed

lemma wpi_checkArrayRange:
  assumes b: "same w0 w" and ok: "jvm_ok w0" and p: "pins w0 = []"
    and arr: "arr \<noteq> 0 \<Longrightarrow> objs w0 arr = Some (JByteArr bs)"
    and 1: "\<And>w'. same w0 w' \<Longrightarrow> pending w' \<noteq> None \<Longrightarrow> Q False w'"
    and 2: "arr \<noteq> 0 \<Longrightarrow> in_range off len (length bs) \<Longrightarrow> Q True w"
  shows "wp (checkArrayRange arr off len nm) Q E w"
proof -
  have w: "pins w = []" "jvm_ok w" "arr \<noteq> 0 \<Longrightarrow> objs w arr = Some (JByteArr bs)"
    using b ok p arr by (simp_all add: same_facts)
  then have "Q False (thrown c m w)" for c m
    by (intro 1 same_trans [OF b] same_thrown thrown_simps)
  with w 2 show ?thesis by (simp add: wp_checkArrayRange)
qed

lemma wpi_ensureDirectRange:
  assumes b: "same w0 w" and ok: "jvm_ok w0" and p: "pins w0 = []"
    and 1: "\<And>w'. same w0 w' \<Longrightarrow> pending w' \<noteq> None \<Longrightarrow> Q False w'"
    and 2: "\<And>bs. buf \<noteq> 0 \<Longrightarrow> objs w0 buf = Some (JDirect bs) \<Longrightarrow>
       in_range off len (length bs) \<Longrightarrow> Q True w"
  shows "wp (ensureDirectRange buf off len nm) Q E w"
proof -
  have w: "pins w = []" "jvm_ok w" "objs w buf = objs w0 buf"
    using b ok p by (simp_all add: same_facts)
  then have "Q False (thrown c m w)" for c m
    by (intro 1 same_trans [OF b] same_thrown thrown_simps)
  with w 2 show ?thesis
    by (auto simp: wp_ensureDirectRange split: option.split jobj.split)
qed

lemma wpi_getCritical:
  assumes b: "same w0 w" and r: "objs w0 r = Some (JByteArr bs)"
    and 1: "\<And>w'. same w0 w' \<Longrightarrow> pending w' = pending w \<Longrightarrow> Q None w'"
    and 2: "\<And>w'. same (pinned r bs w0) w' \<Longrightarrow> pending w' = pending w \<Longrightarrow> Q (Some (next_pin w0)) w'"
  shows "wp (getCritical r) Q E w"
proof -
  have w: "objs w r = Some (JByteArr bs)" "next_pin w = next_pin w0"
    using r b by (simp_all add: same_def)
  have "Q None (consume w)" by (auto intro!: 1 same_trans [OF b] same_consume)
  moreover have "same (pinned r bs w0) (pinned r bs (consume w))"
    using b by (simp add: same_def)
  then have "Q (Some (next_pin w0)) (pinned r bs (consume w))"
    by (rule 2) simp
  ultimately show ?thesis using w by (simp add: wp_getCritical)
qed

lemma wpi_state:
  assumes b: "same w0 w" and o: "compressor_obj w0 obj h" and p: "pins w0 = []"
    and 1: "\<And>w'. same w0 w' \<Longrightarrow> wp k0 Q E w'"
    and 2: "\<And>w'. same w0 w' \<Longrightarrow> h \<noteq> 0 \<Longrightarrow> wp (k h) Q E w'"
  shows "wp (bnd (getState obj) (\<lambda>s. if \<not> ensureState s then k0 else k s)) Q E w"
  unfolding wp_bnd by (rule wpi_getState [OF b o p]) (auto simp: ensureState_def wp_if intro: 1 2)

lemma wpi_range:
  assumes b: "same w0 w" and ok: "jvm_ok w0" and p: "pins w0 = []"
    and arr: "arr \<noteq> 0 \<Longrightarrow> objs w0 arr = Some (JByteArr bs)"
    and 1: "\<And>w'. same w0 w' \<Longrightarrow> wp k0 Q E w'"
    and 2: "\<And>w'. same w0 w' \<Longrightarrow> arr \<noteq> 0 \<Longrightarrow> in_range off len (length bs) \<Longrightarrow> wp k Q E w'"
  shows "wp (bnd (checkArrayRange arr off len nm) (\<lambda>ok. if \<not> ok then k0 else k)) Q E w"
  unfolding wp_bnd
  by (rule wpi_checkArrayRange [OF b ok p arr]) (auto simp: wp_if intro: 1 2 b)

lemma wpi_direct:
  assumes b: "same w0 w" and ok: "jvm_ok w0" and p: "pins w0 = []"
    and 1: "\<And>w'. same w0 w' \<Longrightarrow> wp k0 Q E w'"
    and 2: "\<And>w' bs. same w0 w' \<Longrightarrow> objs w0 buf = Some (JDirect bs) \<Longrightarrow>
       in_range off len (length bs) \<Longrightarrow> wp k Q E w'"
  shows "wp (bnd (ensureDirectRange buf off len nm) (\<lambda>ok. if \<not> ok then k0 else k)) Q E w"
  unfolding wp_bnd
  by (rule wpi_ensureDirectRange [OF b ok p]) (auto simp: wp_if intro: 1 2 b)

lemma wpi_critical:
  assumes b: "same w0 w" and r: "objs w0 r = Some (JByteArr bs)"
    and 1: "\<And>w'. same w0 w' \<Longrightarrow> wp k0 Q E w'"
    and 2: "\<And>w'. same (pinned r bs w0) w' \<Longrightarrow> wp (k (next_pin w0)) Q E w'"
  shows "wp (bnd (getCritical r) (\<lambda>p. case p of None \<Rightarrow> k0 | Some x \<Rightarrow> k x)) Q E w"
  unfolding wp_bnd
  by (rule wpi_getCritical [OF b r]) (auto intro: 1 2)

section \<open>Runs without failures\<close>

text \<open>The same idioms when nothing fails: each rule has the one successful continuation.\<close>

lemma no_fault:
  assumes "faults w = []"
  shows "\<not> next_fault w" "\<not> field_failed w" "faults (field_cached w) = []"
    "faults (consume w) = []" "faults (pinned r bs w) = []" "faults (allocated x w) = []"
  using assms
  by (simp_all add: next_fault_def field_failed_def field_cached_def pinned_def allocated_def)

lemma jint_zero: "\<not> jneg 0" "jsize 0 = 0"
  by (simp_all add: jneg_def jsize_def)

lemma consume_none: "faults w = [] \<Longrightarrow> consume w = w"
  by (simp add: consume_def)

lemma run_state:
  assumes "same w0 w" and "compressor_obj w0 obj h" and "pins w0 = []" and "faults w = []"
    and "h \<noteq> 0" and "\<And>w'. same w0 w' \<Longrightarrow> faults w' = [] \<Longrightarrow> wp (k h) Q E w'"
  shows "wp (bnd (getState obj) (\<lambda>s. if \<not> ensureState s then k0 else k s)) Q E w"
proof -
  have "compressor_obj w obj h" "pins w = []" using assms(1-3) by (simp_all add: same_facts)
  then show ?thesis
    using assms(4-6) same_trans [OF assms(1) same_field_cached]
    by (simp add: wp_bnd wp_getState wp_if ensureState_def no_fault)
qed

lemma run_range:
  assumes "same w0 w" and "jvm_ok w0" and "pins w0 = []" and "arr \<noteq> 0"
    and "Option.bind (objs w0 arr) array_length = Some n" and "in_range off len n"
    and "same w0 w \<Longrightarrow> wp k Q E w"
  shows "wp (bnd (checkArrayRange arr off len nm) (\<lambda>ok. if \<not> ok then k0 else k)) Q E w"
proof -
  have "jvm_ok w" "pins w = []" "objs w = objs w0" using assms(1-3) by (simp_all add: same_facts)
  then show ?thesis
    using assms(1,4-7) by (simp add: wp_bnd wp_checkArrayRange wp_if in_range_def)
qed

lemma run_direct:
  assumes "same w0 w" and "jvm_ok w0" and "pins w0 = []" and "buf \<noteq> 0"
    and "objs w0 buf = Some (JDirect bs)" and "in_range off len (length bs)"
    and "same w0 w \<Longrightarrow> wp k Q E w"
  shows "wp (bnd (ensureDirectRange buf off len nm) (\<lambda>ok. if \<not> ok then k0 else k)) Q E w"
proof -
  have "jvm_ok w" "pins w = []" "objs w = objs w0" using assms(1-3) by (simp_all add: same_facts)
  then show ?thesis
    using assms(1,4-7) by (simp add: wp_bnd wp_ensureDirectRange wp_if in_range_def)
qed

lemma run_critical:
  assumes "same w0 w" and "objs w0 r = Some (JByteArr bs)" and "faults w = []"
    and "\<And>w'. same (pinned r bs w0) w' \<Longrightarrow> faults w' = [] \<Longrightarrow> wp (k (next_pin w0)) Q E w'"
  shows "wp (bnd (getCritical r) (\<lambda>p. case p of None \<Rightarrow> k0 | Some x \<Rightarrow> k x)) Q E w"
proof -
  have w: "objs w r = Some (JByteArr bs)" "next_pin w = next_pin w0"
    using assms(1,2) by (simp_all add: same_def)
  have "same (pinned r bs w0) (pinned r bs (consume w))" using assms(1) by (simp add: same_def)
  then show ?thesis using w assms(3,4) by (simp add: wp_bnd wp_getCritical no_fault)
qed

lemma run_length:
  assumes "same w0 w" and "pins w0 = []" and "objs w0 r = Some x" and "array_length x = Some n"
    and "same w0 w \<Longrightarrow> wp (k (word_of_nat n)) Q E w"
  shows "wp (bnd (getArrayLength r) k) Q E w"
  using assms by (simp add: wp_bnd wp_getArrayLength same_facts)

lemma run_readPin:
  assumes "pins w = pins (pinned r bs w0)" and "objs w r = Some (JByteArr bs)"
    and "off + n \<le> length bs" and "wp (k (slice bs off n)) Q E w"
  shows "wp (bnd (readPin (next_pin w0) off n) k) Q E w"
  using assms by (simp add: wp_bnd wp_readPin find_pin_def pin_bytes_def heap_bytes_def)

section \<open>Methods that read one array and write another\<close>

text \<open>
  \<open>settled w f w'\<close>: the method is through with the JVM; apart from the objects, the pending
  exception, the schedule of failures and the state objects, \<open>w'\<close> is as \<open>w\<close>, and nothing
  is pinned.
\<close>

definition settled :: "('k, 'c, 'd) world \<Rightarrow> (nat \<Rightarrow> ('k, 'c, 'd) nstate option)
    \<Rightarrow> ('k, 'c, 'd) world \<Rightarrow> bool" where
  "settled w f w' \<longleftrightarrow> pins w' = [] \<and> misuse w' = misuse w \<and> next_ref w' = next_ref w
     \<and> pin_copies w' = pin_copies w \<and> class_refs w' = class_refs w \<and> borrowed w' = borrowed w
     \<and> jvm.more w' = jvm.more (w\<lparr>natives := f\<rparr>)"

lemma settled_world:
  assumes "settled w f w'"
  shows "natives w' = f" "next_addr w' = next_addr w" "live_cctx w' = live_cctx w"
    "live_dctx w' = live_dctx w" "tls w' = tls w" "cur w' = cur w" "gcache w' = gcache w"
    "live_frames w' = live_frames w"
  using world_of_more [of w' "w\<lparr>natives := f\<rparr>"] assms by (simp_all add: settled_def)

text \<open>
  The part of \<open>compressInto\<close> and \<open>decompressInto\<close> after both arrays are pinned, for any
  library call \<open>m\<close> that only changes the state objects.
\<close>

lemma into_tail:
  fixes w :: "('k, 'c, 'd) world"
  assumes s: "same (pinned dst db (pinned src sb w)) w1"
    and o: "objs w src = Some (JByteArr sb)" "objs w dst = Some (JByteArr db)" and p: "pins w = []"
    and r: "in_range so sl (length sb)" "in_range dof dl (length db)"
    and m: "m (slice sb (jsize so) (jsize sl)) w1 = (Ret (rep, out), w1\<lparr>natives := f\<rparr>)"
      "length out \<le> jsize dl"
    and Q: "\<And>w'. zl_isError rep \<Longrightarrow> settled w f w' \<Longrightarrow> faults w' = faults w1 \<Longrightarrow>
         objs w' = (if pin_copies w then objs w
           else (objs w)(dst \<mapsto> JByteArr (overwrite db (jsize dof) out))) \<Longrightarrow> Q (-1) w'"
      "\<And>w'. \<not> zl_isError rep \<Longrightarrow> settled w f w' \<Longrightarrow> faults w' = faults w1 \<Longrightarrow>
         objs w' = (objs w)(dst \<mapsto> JByteArr (overwrite db (jsize dof) out))
         \<Longrightarrow> Q (word_of_nat (zl_value rep)) w'"
  shows "wp (bnd (readPin (next_pin w) (jsize so) (jsize sl)) (\<lambda>srcBytes.
     bnd (m srcBytes) (\<lambda>(result, out).
     seq (writePin (Suc (next_pin w)) (jsize dof) out) (
     seq (releaseCritical src (next_pin w) JNI_ABORT) (
     if zl_isError result then seq (releaseCritical dst (Suc (next_pin w)) JNI_ABORT) (ret (-1))
     else seq (releaseCritical dst (Suc (next_pin w)) ReleaseCommit)
       (ret (word_of_nat (zl_value result)))))))) Q E w1"
proof -
  have w1: "objs w1 = objs w" "misuse w1 = misuse w"
    "pins w1 = pins (pinned dst db (pinned src sb w))" "next_ref w1 = next_ref w"
    "pin_copies w1 = pin_copies w" "class_refs w1 = class_refs w" "borrowed w1 = borrowed w"
    "jvm.more w1 = jvm.more w"
    using s by (simp_all add: same_def)
  have m': "wp (m (slice sb (jsize so) (jsize sl))) Q' E w1 = Q' (rep, out) (w1\<lparr>natives := f\<rparr>)" for Q'
    by (simp add: wp_def m)
  have more: "jvm.more (w1\<lparr>natives := f\<rparr>) = jvm.more (w\<lparr>natives := f\<rparr>)"
    using w1(8) by (cases w; cases w1) simp
  note rules = in_range_def w1 wp_simps m' find_pin_def pin_bytes_def heap_bytes_def set_pin_bytes_def
  show ?thesis
  proof (cases "pin_copies w")
    case True
    with r o p m(2) show ?thesis
      by (simp add: rules) (auto intro!: Q simp: settled_def w1 more)
  next
    case False
    with r o p m(2) show ?thesis
      by (simp add: rules) (auto intro!: Q simp: settled_def w1 more)
  qed
qed

lemma same_settled:
  fixes w :: "('k, 'c, 'd) world"
  assumes "same w w'" and "pins w = []"
  shows "settled w (natives w) w'"
  using assms by (simp add: settled_def same_def)

lemma second_pin_failed:
  fixes w :: "('k, 'c, 'd) world"
  assumes s: "same (pinned src sb w) w'" and p: "pins w = []"
    and Q: "\<And>w'. settled w (natives w) w' \<Longrightarrow> objs w' = objs w \<Longrightarrow> Q r w'"
  shows "wp (seq (releaseCritical src (next_pin w) JNI_ABORT) (seq (throwCached c msg) (ret r))) Q E w'"
proof -
  have "filter (\<lambda>y. pin_id y \<noteq> next_pin w) (pins w') = []"
    "find_pin (next_pin w) w' = Some (hd (pins w'))" "pin_arr (hd (pins w')) = src"
    using s p by (simp_all add: same_def find_pin_def)
  with s show ?thesis
    by (simp add: wp_simps split: option.split) (auto intro!: Q simp: settled_def same_def)
qed

end
