(* ===== verification/Library_Contract.thy ===== *)
theory Library_Contract
  imports Native_Rules
begin

text \<open>
  What the native layer relies on of the OpenZL library, as predicates on the record of its
  functions, and a concrete library that meets them: it stores the bytes as they are.  The
  store library and the sample process below are the inputs of the witnesses.
\<close>

section \<open>Contracts\<close>

text \<open>
  A call writes at most the capacity it is given and reports the number of bytes written; a
  typed decompression writes the elements it announces.
\<close>

definition zl_bounded :: "('k, 'c, 'd) zl \<Rightarrow> bool" where
  "zl_bounded L \<longleftrightarrow>
     (\<forall>k c cap src r out c'. zl_compress L k c cap src = (r, out, c') \<longrightarrow>
        length out \<le> cap \<and> (\<forall>n. r = ZOk n \<longrightarrow> n = length out)) \<and>
     (\<forall>d cap src r out d'. zl_decompress L d cap src = (r, out, d') \<longrightarrow>
        length out \<le> cap \<and> (\<forall>n. r = ZOk n \<longrightarrow> n = length out)) \<and>
     (\<forall>k c cap n w src r out c'. zl_compressTyped L k c cap n w src = (r, out, c') \<longrightarrow>
        length out \<le> cap \<and> (\<forall>n. r = ZOk n \<longrightarrow> n = length out)) \<and>
     (\<forall>d cap src r i out d'. zl_decompressTyped L d cap src = (r, i, out, d') \<longrightarrow>
        length out \<le> cap \<and> (\<not> zl_isError r \<longrightarrow> oi_width i * oi_numElts i \<le> length out))"

text \<open>
  A frame produced by a successful compression decompresses, with any context and any
  sufficient capacity, to the bytes that were compressed, and states their number.
\<close>

definition zl_lossless :: "('k, 'c, 'd) zl \<Rightarrow> bool" where
  "zl_lossless L \<longleftrightarrow>
     (\<forall>k c cap src n out c'. zl_compress L k c cap src = (ZOk n, out, c') \<longrightarrow>
        zl_getDecompressedSize L out = ZOk (length src) \<and>
        (\<forall>d cap'. length src \<le> cap' \<longrightarrow>
           (\<exists>d'. zl_decompress L d cap' out = (ZOk (length src), src, d'))))"

text \<open>The same for a frame of \<open>n\<close> numbers of \<open>width\<close> bytes.\<close>

definition zl_lossless_numeric :: "('k, 'c, 'd) zl \<Rightarrow> bool" where
  "zl_lossless_numeric L \<longleftrightarrow>
     (\<forall>k c cap width n src r out c'.
        zl_compressTyped L k c cap width n src = (ZOk r, out, c') \<longrightarrow> length src = width * n \<longrightarrow> 0 < width \<longrightarrow>
        zl_getDecompressedSize L out = ZOk (length src) \<and>
        (\<forall>d cap'. length src \<le> cap' \<longrightarrow>
           (\<exists>d'. zl_decompressTyped L d cap' out =
              (ZOk (length src), \<lparr>oi_type = ZL_numeric, oi_width = width, oi_numElts = n\<rparr>, src, d'))))"

lemma zl_boundedD:
  assumes "zl_bounded L"
  shows "zl_compress L k c cap src = (r, out, c') \<Longrightarrow> length out \<le> cap"
    "zl_compress L k c cap src = (ZOk n, out, c') \<Longrightarrow> n = length out"
    "zl_decompress L d cap src = (r, out, d') \<Longrightarrow> length out \<le> cap"
    "zl_decompress L d cap src = (ZOk n, out, d') \<Longrightarrow> n = length out"
    "zl_compressTyped L k c cap m w src = (r, out, c') \<Longrightarrow> length out \<le> cap"
    "zl_compressTyped L k c cap m w src = (ZOk n, out, c') \<Longrightarrow> n = length out"
    "zl_decompressTyped L d cap src = (r, i, out, d') \<Longrightarrow> length out \<le> cap"
    "zl_decompressTyped L d cap src = (ZOk n, i, out, d') \<Longrightarrow> oi_width i * oi_numElts i \<le> length out"
proof -
  note c = assms [unfolded zl_bounded_def]
  note c1 = c [THEN conjunct1] c [THEN conjunct2, THEN conjunct1]
    c [THEN conjunct2, THEN conjunct2, THEN conjunct1] c [THEN conjunct2, THEN conjunct2, THEN conjunct2]
  show "zl_compress L k c cap src = (r, out, c') \<Longrightarrow> length out \<le> cap" using c1(1) by blast
  show "zl_compress L k c cap src = (ZOk n, out, c') \<Longrightarrow> n = length out" using c1(1) by blast
  show "zl_decompress L d cap src = (r, out, d') \<Longrightarrow> length out \<le> cap" using c1(2) by blast
  show "zl_decompress L d cap src = (ZOk n, out, d') \<Longrightarrow> n = length out" using c1(2) by blast
  show "zl_compressTyped L k c cap m w src = (r, out, c') \<Longrightarrow> length out \<le> cap" using c1(3) by blast
  show "zl_compressTyped L k c cap m w src = (ZOk n, out, c') \<Longrightarrow> n = length out" using c1(3) by blast
  show "zl_decompressTyped L d cap src = (r, i, out, d') \<Longrightarrow> length out \<le> cap" using c1(4) by blast
  show "zl_decompressTyped L d cap src = (ZOk n, i, out, d') \<Longrightarrow> oi_width i * oi_numElts i \<le> length out"
    using c1(4) zl_report_simps(2) by blast
qed

lemma zl_losslessD:
  assumes "zl_lossless L" and "zl_compress L k c cap src = (ZOk n, out, c')"
  shows "zl_getDecompressedSize L out = ZOk (length src)"
    "length src \<le> cap' \<Longrightarrow> \<exists>d'. zl_decompress L d cap' out = (ZOk (length src), src, d')"
  using assms unfolding zl_lossless_def by blast+

lemma zl_lossless_numericD:
  assumes "zl_lossless_numeric L"
    and "zl_compressTyped L k c cap width n src = (ZOk r, out, c')"
    and "length src = width * n" and "0 < width"
  shows "zl_getDecompressedSize L out = ZOk (length src)"
    "length src \<le> cap' \<Longrightarrow> \<exists>d'. zl_decompressTyped L d cap' out =
       (ZOk (length src), \<lparr>oi_type = ZL_numeric, oi_width = width, oi_numElts = n\<rparr>, src, d')"
  using assms unfolding zl_lossless_numeric_def by blast+

section \<open>A concrete library\<close>

text \<open>
  A frame is a width byte, 0 for a frame of bytes, and the bytes; an empty frame is
  corrupted.  The standard graphs are numbered apart.
\<close>

definition store_library :: "(unit, unit, unit) zl" where
  "store_library = \<lparr>
     zl_gid = (\<lambda>g. case g of G_ZSTD \<Rightarrow> 10 | G_COMPRESS_GENERIC \<Rightarrow> 11 | G_NUMERIC \<Rightarrow> 12
       | G_STORE \<Rightarrow> 13 | G_BITPACK \<Rightarrow> 14 | G_FSE \<Rightarrow> 15 | G_HUFFMAN \<Rightarrow> 16 | G_ENTROPY \<Rightarrow> 17
       | G_CONSTANT \<Rightarrow> 18),
     zl_level_default = 6, zl_default_version = 21,
     zl_new_compressor = (), zl_new_cctx = (), zl_new_dctx = (),
     zl_cctx_setParameter = (\<lambda>_ _ c. (ZOk 0, c)),
     zl_dctx_setSticky = (\<lambda>_ d. (ZOk 0, d)),
     zl_cctx_resetParameters = (\<lambda>c. (ZOk 0, c)),
     zl_dctx_resetParameters = (\<lambda>d. (ZOk 0, d)),
     zl_selectStartingGraph = (\<lambda>_ k. (ZOk 0, k)),
     zl_cctx_refCompressor = (\<lambda>_ c. (ZOk 0, c)),
     zl_cctx_selectStartingGraph = (\<lambda>_ _ c. (ZOk 0, c)),
     zl_cctx_setDataArena = (\<lambda>_ c. (ZOk 0, c)),
     zl_cctx_errorContext = (\<lambda>_ _. None),
     zl_compressBound = (\<lambda>n. n + 1),
     zl_compress = (\<lambda>k c cap src. if Suc (length src) \<le> cap
       then (ZOk (Suc (length src)), 0 # src, c) else (ZErr 1, [], c)),
     zl_compressTyped = (\<lambda>k c cap width n src. if Suc (length src) \<le> cap \<and> width < 256
       then (ZOk (Suc (length src)), word_of_nat width # src, c) else (ZErr 1, [], c)),
     zl_getDecompressedSize = (\<lambda>f. if f = [] then ZErr 2 else ZOk (length f - 1)),
     zl_decompress = (\<lambda>d cap f. if f = [] \<or> hd f \<noteq> 0 \<or> cap < length f - 1 then (ZErr 2, [], d)
       else (ZOk (length (tl f)), tl f, d)),
     zl_decompressTyped = (\<lambda>d cap f.
       if f = [] \<or> cap < length f - 1 then
         (ZErr 2, \<lparr>oi_type = ZL_serial, oi_width = 0, oi_numElts = 0\<rparr>, [], d)
       else (ZOk (length (tl f)),
         if hd f = 0 then \<lparr>oi_type = ZL_serial, oi_width = 1, oi_numElts = length (tl f)\<rparr>
         else \<lparr>oi_type = ZL_numeric, oi_width = unat (hd f),
                oi_numElts = length (tl f) div unat (hd f)\<rparr>, tl f, d))\<rparr>"

lemma store_library_bounded: "zl_bounded store_library"
  unfolding zl_bounded_def store_library_def by (auto split: if_splits)

lemma store_library_lossless_numeric: "zl_lossless_numeric store_library"
proof -
  have "unat (word_of_nat n :: u8) = n" if "n < 256" for n
    using that by (simp add: unat_of_nat)
  moreover have "(word_of_nat n :: u8) \<noteq> 0" if "n < 256" "0 < n" for n
    using that calculation [of n] by auto
  ultimately show ?thesis
    unfolding zl_lossless_numeric_def store_library_def by (auto split: if_splits)
qed

lemma store_library_lossless: "zl_lossless store_library"
  unfolding zl_lossless_def store_library_def by (auto split: if_splits)

section \<open>A sample process\<close>

text \<open>
  A compressor object at 1 whose handle is the state at address 5, byte arrays at 2, 3 and 4,
  a direct buffer at 6 and at 7, an int array at 8; exceptions are cached and nothing fails.
\<close>

definition sample_world :: "(unit, unit, unit) world" where
  "sample_world = \<lparr>
     objs = [1 \<mapsto> JObject [''nativeHandle'' \<mapsto> VHandle 5],
       2 \<mapsto> JByteArr [1, 2, 3, 4], 3 \<mapsto> JByteArr (replicate 8 0), 4 \<mapsto> JByteArr (replicate 6 9),
       6 \<mapsto> JDirect [1, 2, 3, 4], 7 \<mapsto> JDirect (replicate 8 0),
       8 \<mapsto> JIntArr [5, 4294967295]],
     next_ref = 10, pending = None, pins = [], next_pin = 1, pin_copies = True, borrowed = [],
     faults = [], misuse = False, class_refs = (\<lambda>_. True), global_refs = [], handle_field = True,
     natives = [5 \<mapsto> initial_state store_library 10], next_addr = 6,
     live_cctx = 1, live_dctx = 1, live_frames = 0, tls = (\<lambda>_. 0), cur = 0, gcache = [], files = []\<rparr>"

lemma sample_world_ok: "jvm_ok sample_world"
  by (auto simp: jvm_ok_def sample_world_def obj_ok_def split: if_splits)

lemma sample_compressor: "compressor_obj sample_world 1 5"
  by (simp add: compressor_obj_def sample_world_def)

lemma sample_world_simps:
  "pins sample_world = []" "faults sample_world = []"
  "natives sample_world 5 = Some (initial_state store_library 10)"
  "objs sample_world 2 = Some (JByteArr [1, 2, 3, 4])"
  "objs sample_world 3 = Some (JByteArr (replicate 8 0))"
  "objs sample_world 4 = Some (JByteArr (replicate 6 9))"
  "objs sample_world 6 = Some (JDirect [1, 2, 3, 4])"
  "objs sample_world 7 = Some (JDirect (replicate 8 0))"
  "objs sample_world 8 = Some (JIntArr [5, 4294967295])"
  by (simp_all add: sample_world_def)

end
