(* ===== verification/Compressor_Arrays.thy ===== *)
theory Compressor_Arrays
  imports Library_Contract
begin

text \<open>
  \<open>JNI/compressor/OpenZLCompressorArrays.cpp\<close>: compression and decompression of Java byte
  arrays.  A native method returning an object returns its reference, 0 for null.
\<close>

section \<open>Native code on the state behind a handle\<close>

definition deref :: "nat \<Rightarrow> (('k, 'c, 'd) world, ('k, 'c, 'd) nstate) act" where
  "deref h = (\<lambda>w. case natives w h of None \<Rightarrow> (Undef, w) | Some s \<Rightarrow> (Ret s, w))"

definition putScratch :: "nat \<Rightarrow> scratch \<Rightarrow> (('k, 'c, 'd) world, unit) act" where
  "putScratch h b = on_state h (modify (\<lambda>s. s\<lparr>outputScratch := b\<rparr>))"

definition ensureScratch :: "nat \<Rightarrow> nat \<Rightarrow> (('k, 'c, 'd) world, unit) act" where
  "ensureScratch h required = bnd (deref h) (\<lambda>s.
     if sc_capacity (outputScratch s) < required then
       bnd fault (\<lambda>f. case scratch_ensure required f (outputScratch s) of
           None \<Rightarrow> throw BadAlloc
         | Some b \<Rightarrow> putScratch h b)
     else ret ())"

text \<open>The library writes \<open>out\<close> at the start of the scratch buffer.\<close>

definition writeScratch :: "nat \<Rightarrow> bytes \<Rightarrow> (('k, 'c, 'd) world, unit) act" where
  "writeScratch h out = bnd (deref h) (\<lambda>s. case sc_data (outputScratch s) of
      None \<Rightarrow> if out = [] then ret () else undef
    | Some buf \<Rightarrow> if length out \<le> length buf
        then putScratch h ((outputScratch s)\<lparr>sc_data := Some (overwrite buf 0 out)\<rparr>) else undef)"

definition readScratch :: "nat \<Rightarrow> nat \<Rightarrow> (('k, 'c, 'd) world, bytes) act" where
  "readScratch h n = bnd (deref h) (\<lambda>s. case sc_data (outputScratch s) of
      None \<Rightarrow> undef
    | Some buf \<Rightarrow> if n \<le> length buf then ret (take n buf) else undef)"

definition setScratchSize :: "nat \<Rightarrow> nat \<Rightarrow> (('k, 'c, 'd) world, unit) act" where
  "setScratchSize h n = on_state h (modify (\<lambda>s. s\<lparr>outputScratch := scratch_setSize n (outputScratch s)\<rparr>))"

definition zlCompress :: "('k, 'c, 'd) zl \<Rightarrow> nat \<Rightarrow> nat \<Rightarrow> bytes
    \<Rightarrow> (('k, 'c, 'd) world, report \<times> bytes) act" where
  "zlCompress L h cap src = on_state h (\<lambda>s.
     case zl_compress L (compressor s) (cctx s) cap src of
       (r, out, c') \<Rightarrow> (Ret (r, out), s\<lparr>cctx := c'\<rparr>))"

definition zlDecompress :: "('k, 'c, 'd) zl \<Rightarrow> nat \<Rightarrow> nat \<Rightarrow> bytes
    \<Rightarrow> (('k, 'c, 'd) world, report \<times> bytes) act" where
  "zlDecompress L h cap src = on_state h (\<lambda>s.
     case zl_decompress L (dctx s) cap src of
       (r, out, d') \<Rightarrow> (Ret (r, out), s\<lparr>dctx := d'\<rparr>))"

text \<open>
  The common tail of \<open>compress\<close> and \<open>decompress\<close>: record the size, allocate the result and
  copy it out of the scratch buffer.  The new array is not checked for null.
\<close>

definition returnScratch :: "nat \<Rightarrow> nat \<Rightarrow> (('k, 'c, 'd) world, nat) act" where
  "returnScratch state n =
     seq (setScratchSize state n)
    (bnd (newByteArray (word_of_nat n)) (\<lambda>jresult.
     bnd (deref state) (\<lambda>s.
     if n > 0 \<and> scratch_ptr (outputScratch s) \<noteq> None then
       bnd (readScratch state (jsize (word_of_nat n))) (\<lambda>bs.
       seq (setArrayRegion jresult (JByteArr bs)) (ret jresult))
     else ret jresult)))"

section \<open>Native methods\<close>

definition compressIntoNative :: "('k, 'c, 'd) zl \<Rightarrow> nat \<Rightarrow> nat \<Rightarrow> jint \<Rightarrow> jint \<Rightarrow> nat \<Rightarrow> jint \<Rightarrow> jint
    \<Rightarrow> (('k, 'c, 'd) world, jint) act" where
  "compressIntoNative L obj src srcOff srcLen dst dstOff dstLen =
     bnd (getState obj) (\<lambda>state.
     if \<not> ensureState state then ret (-1) else
     bnd (checkArrayRange src srcOff srcLen ''src'') (\<lambda>ok. if \<not> ok then ret (-1) else
     bnd (checkArrayRange dst dstOff dstLen ''dst'') (\<lambda>ok. if \<not> ok then ret (-1) else
     bnd (getCritical src) (\<lambda>srcPtr. case srcPtr of
       None \<Rightarrow> seq (throwCached OutOfMemoryError ''Failed to access source array'') (ret (-1))
     | Some sp \<Rightarrow>
     bnd (getCritical dst) (\<lambda>dstPtr. case dstPtr of
       None \<Rightarrow> seq (releaseCritical src sp JNI_ABORT)
         (seq (throwCached OutOfMemoryError ''Failed to access destination array'') (ret (-1)))
     | Some dp \<Rightarrow>
     bnd (readPin sp (jsize srcOff) (jsize srcLen)) (\<lambda>srcBytes.
     bnd (zlCompress L state (jsize dstLen) srcBytes) (\<lambda>(result, out).
     seq (writePin dp (jsize dstOff) out) (
     seq (releaseCritical src sp JNI_ABORT) (
     if zl_isError result then seq (releaseCritical dst dp JNI_ABORT) (ret (-1))
     else seq (releaseCritical dst dp ReleaseCommit)
       (ret (word_of_nat (zl_value result))))))))))))"

definition compress :: "('k, 'c, 'd) zl \<Rightarrow> nat \<Rightarrow> nat \<Rightarrow> (('k, 'c, 'd) world, nat) act" where
  "compress L obj input =
     bnd (getState obj) (\<lambda>state.
     if \<not> ensureState state then ret 0 else
     if input = 0 then seq (throwCached NullPointerException ''input is null'') (ret 0) else
     bnd (getArrayLength input) (\<lambda>len.
     bnd (getCritical input) (\<lambda>srcPtr. case srcPtr of
       None \<Rightarrow> seq (throwCached OutOfMemoryError ''GetPrimitiveArrayCritical returned null'') (ret 0)
     | Some sp \<Rightarrow>
     let bound = zl_compressBound L (jsize len) in
     seq (ensureScratch state bound) (
     bnd (readPin sp 0 (jsize len)) (\<lambda>src.
     bnd (zlCompress L state bound src) (\<lambda>(result, out).
     seq (writeScratch state out) (
     seq (releaseCritical input sp JNI_ABORT) (
     if zl_isError result then ret 0 else returnScratch state (zl_value result)))))))))"

definition decompress :: "('k, 'c, 'd) zl \<Rightarrow> nat \<Rightarrow> nat \<Rightarrow> (('k, 'c, 'd) world, nat) act" where
  "decompress L obj input =
     bnd (getState obj) (\<lambda>state.
     if \<not> ensureState state then ret 0 else
     if input = 0 then seq (throwCached NullPointerException ''input is null'') (ret 0) else
     bnd (getArrayLength input) (\<lambda>len.
     bnd (getCritical input) (\<lambda>srcPtr. case srcPtr of
       None \<Rightarrow> seq (throwCached OutOfMemoryError ''GetPrimitiveArrayCritical returned null'') (ret 0)
     | Some sp \<Rightarrow>
     bnd (readPin sp 0 (jsize len)) (\<lambda>src.
     let sizeReport = zl_getDecompressedSize L src in
     if zl_isError sizeReport then seq (releaseCritical input sp JNI_ABORT) (ret 0) else
     let outCap = zl_value sizeReport in
     seq (ensureScratch state outCap) (
     bnd (zlDecompress L state outCap src) (\<lambda>(result, out).
     seq (writeScratch state out) (
     seq (releaseCritical input sp JNI_ABORT) (
     if zl_isError result then ret 0 else returnScratch state (zl_value result)))))))))"

definition decompressIntoNative :: "('k, 'c, 'd) zl \<Rightarrow> nat \<Rightarrow> nat \<Rightarrow> jint \<Rightarrow> jint \<Rightarrow> nat \<Rightarrow> jint \<Rightarrow> jint
    \<Rightarrow> (('k, 'c, 'd) world, jint) act" where
  "decompressIntoNative L obj src srcOff srcLen dst dstOff dstLen =
     bnd (getState obj) (\<lambda>state.
     if \<not> ensureState state then ret (-1) else
     bnd (checkArrayRange src srcOff srcLen ''src'') (\<lambda>ok. if \<not> ok then ret (-1) else
     bnd (checkArrayRange dst dstOff dstLen ''dst'') (\<lambda>ok. if \<not> ok then ret (-1) else
     bnd (getCritical src) (\<lambda>srcPtr. case srcPtr of
       None \<Rightarrow> seq (throwCached OutOfMemoryError ''Failed to access source array'') (ret (-1))
     | Some sp \<Rightarrow>
     bnd (getCritical dst) (\<lambda>dstPtr. case dstPtr of
       None \<Rightarrow> seq (releaseCritical src sp JNI_ABORT)
         (seq (throwCached OutOfMemoryError ''Failed to access destination array'') (ret (-1)))
     | Some dp \<Rightarrow>
     bnd (readPin sp (jsize srcOff) (jsize srcLen)) (\<lambda>srcBytes.
     bnd (zlDecompress L state (jsize dstLen) srcBytes) (\<lambda>(result, out).
     seq (writePin dp (jsize dstOff) out) (
     seq (releaseCritical src sp JNI_ABORT) (
     if zl_isError result then seq (releaseCritical dst dp JNI_ABORT) (ret (-1))
     else seq (releaseCritical dst dp ReleaseCommit)
       (ret (word_of_nat (zl_value result))))))))))))"

definition getDecompressedSizeNative :: "('k, 'c, 'd) zl \<Rightarrow> nat \<Rightarrow> nat \<Rightarrow> (('k, 'c, 'd) world, jlong) act" where
  "getDecompressedSizeNative L obj input =
     bnd (getState obj) (\<lambda>state.
     if \<not> ensureState state then ret (-1) else
     if input = 0 then seq (throwCached NullPointerException ''input is null'') (ret (-1)) else
     bnd (getArrayLength input) (\<lambda>len.
     bnd (getCritical input) (\<lambda>ptr. case ptr of
       None \<Rightarrow> seq (throwCached OutOfMemoryError ''GetPrimitiveArrayCritical returned null'') (ret (-1))
     | Some p \<Rightarrow>
     bnd (readPin p 0 (jsize len)) (\<lambda>src.
     let sizeReport = zl_getDecompressedSize L src in
     seq (releaseCritical input p JNI_ABORT) (
     if zl_isError sizeReport then ret (-1)
     else ret (word_of_nat (zl_value sizeReport)))))))"

section \<open>Library calls on a state\<close>

text \<open>
  What the methods need of a library call on the state behind a handle: it touches nothing
  but that state, and what it returns is a function of the state, the capacity and the input.
\<close>

definition compress_effect :: "('k, 'c, 'd) zl \<Rightarrow> ('k, 'c, 'd) nstate \<Rightarrow> nat \<Rightarrow> bytes
    \<Rightarrow> report \<times> bytes \<times> ('k, 'c, 'd) nstate" where
  "compress_effect L s cap src = (case zl_compress L (compressor s) (cctx s) cap src of
     (r, out, c') \<Rightarrow> (r, out, s\<lparr>cctx := c'\<rparr>))"

definition decompress_effect :: "('k, 'c, 'd) zl \<Rightarrow> ('k, 'c, 'd) nstate \<Rightarrow> nat \<Rightarrow> bytes
    \<Rightarrow> report \<times> bytes \<times> ('k, 'c, 'd) nstate" where
  "decompress_effect L s cap src = (case zl_decompress L (dctx s) cap src of
     (r, out, d') \<Rightarrow> (r, out, s\<lparr>dctx := d'\<rparr>))"

locale library_call =
  fixes call :: "nat \<Rightarrow> nat \<Rightarrow> bytes \<Rightarrow> (('k, 'c, 'd) world, report \<times> bytes) act"
    and eff :: "('k, 'c, 'd) nstate \<Rightarrow> nat \<Rightarrow> bytes \<Rightarrow> report \<times> bytes \<times> ('k, 'c, 'd) nstate"
  assumes call_eff: "natives w h = Some s \<Longrightarrow> eff s cap src = (r, out, s') \<Longrightarrow>
    call h cap src w = (Ret (r, out), w\<lparr>natives := (natives w)(h \<mapsto> s')\<rparr>)"

interpretation compress_call: library_call "zlCompress L" "compress_effect L" for L
  by unfold_locales (auto simp: zlCompress_def on_state_def compress_effect_def split: prod.splits)

interpretation decompress_call: library_call "zlDecompress L" "decompress_effect L" for L
  by unfold_locales (auto simp: zlDecompress_def on_state_def decompress_effect_def split: prod.splits)

lemma wp_deref [wp_simps]:
  "wp (deref h) Q E w = (case natives w h of None \<Rightarrow> False | Some s \<Rightarrow> Q s w)"
  by (simp add: wp_def deref_def split: option.splits)

text \<open>The scratch buffer: its capacity is the size of its allocation.\<close>

definition scratch_ok :: "scratch \<Rightarrow> bool" where
  "scratch_ok b \<longleftrightarrow> (case sc_data b of None \<Rightarrow> sc_capacity b = 0 | Some buf \<Rightarrow> length buf = sc_capacity b)"

lemma scratch_ensure_ok:
  assumes "scratch_ok b" "scratch_ensure n f b = Some b'"
  shows "scratch_ok b'" "n \<le> sc_capacity b'"
  using assms by (auto simp: scratch_ensure_def scratch_ok_def split: if_splits)

lemma wp_ensureScratch:
  assumes "natives w h = Some s" "scratch_ok (outputScratch s)" "faults w = []" "n \<le> PTRDIFF_MAX"
   and Q: "\<And>b w'. scratch_ok b \<Longrightarrow> n \<le> sc_capacity b \<Longrightarrow> faults w' = [] \<Longrightarrow> same (w\<lparr>natives := (natives w)(h \<mapsto> s\<lparr>outputScratch := b\<rparr>)\<rparr>) w' \<Longrightarrow> Q () w'"
  shows "wp (ensureScratch h n) Q E w"
proof (cases "sc_capacity (outputScratch s) < n")
  case True
  then obtain b where b: "scratch_ensure n False (outputScratch s) = Some b" using assms(4) by (simp add: scratch_ensure_def)
  show ?thesis using True b no_fault[OF assms(3)] assms(1)
     Q[OF scratch_ensure_ok [OF assms(2) b], of "w\<lparr>natives := (natives w)(h \<mapsto> s\<lparr>outputScratch := b\<rparr>)\<rparr>"]
    by (simp add: ensureScratch_def wp_simps putScratch_def same_refl consume_none assms(3))
next
  case False
  have "w\<lparr>natives := (natives w)(h \<mapsto> s\<lparr>outputScratch := outputScratch s\<rparr>)\<rparr> = w"
    using assms(1) by (cases w) (auto simp: fun_eq_iff)
  then show ?thesis using False assms(1-3) Q[of "outputScratch s" w] by (simp add: ensureScratch_def wp_simps same_refl)
qed

lemma wp_writeScratch:
  assumes "natives w h = Some s" "scratch_ok (outputScratch s)" "length out \<le> sc_capacity (outputScratch s)"
   and Q: "\<And>b. scratch_ok b \<Longrightarrow> sc_capacity b = sc_capacity (outputScratch s) \<Longrightarrow> (out \<noteq> [] \<longrightarrow> (\<exists>buf. sc_data b = Some buf \<and> take (length out) buf = out)) \<Longrightarrow> 
     Q () (w\<lparr>natives := (natives w)(h \<mapsto> s\<lparr>outputScratch := b\<rparr>)\<rparr>)"
  shows "wp (writeScratch h out) Q E w"
proof (cases "sc_data (outputScratch s)")
  case None
  have "w\<lparr>natives := (natives w)(h \<mapsto> s\<lparr>outputScratch := outputScratch s\<rparr>)\<rparr> = w"
    using assms(1) by (cases w) (auto simp: fun_eq_iff)
  then show ?thesis using None assms(1-3) Q[of "outputScratch s"] by (simp add: writeScratch_def wp_simps scratch_ok_def)
next
  case (Some buf)
  then show ?thesis using assms(1-3) Q[of "(outputScratch s)\<lparr>sc_data := Some (overwrite buf 0 out)\<rparr>"]
    by (simp add: writeScratch_def wp_simps scratch_ok_def putScratch_def overwrite_def)
qed

lemma wp_returnScratch:
  assumes "natives w h = Some s" "scratch_ok (outputScratch s)" "length out \<le> sc_capacity (outputScratch s)" "length out \<le> 2147483647"
   and "out \<noteq> [] \<longrightarrow> (\<exists>buf. sc_data (outputScratch s) = Some buf \<and> take (length out) buf = out)"
   and "pins w = []" "faults w = []"
   and Q: "Q (next_ref w) (allocated (JByteArr out) (w\<lparr>natives := (natives w)(h \<mapsto> s\<lparr>outputScratch := scratch_setSize (length out) (outputScratch s)\<rparr>)\<rparr>))"
  shows "wp (returnScratch h (length out)) Q E w"
proof -
  note f = no_fault [OF assms(7)]
  show ?thesis
  proof (cases "out = []")
    case True
    then show ?thesis using assms
    by (simp add: returnScratch_def setScratchSize_def newByteArray_def wp_simps f jint_zero next_fault_def allocated_def consume_none)
next case False
  then obtain buf where b: "sc_data (outputScratch s) = Some buf" "take (length out) buf = out" using assms(5) by auto
  then have l: "length out \<le> length buf" by (metis length_take min.cobounded1)
  have comm: "v\<lparr>next_ref := i, objs := m\<rparr> = v\<lparr>objs := m, next_ref := i\<rparr>" for v :: "('a, 'b, 'c) world" and i m
    by (cases v) simp
  show ?thesis using assms(1-4,6-8) False b l
    by (simp add: returnScratch_def setScratchSize_def newByteArray_def wp_simps f  scratch_ptr_def scratch_setSize_def
      readScratch_def overwrite_obj_def overwrite_full next_fault_def allocated_def consume_none comm)
qed
qed
text \<open>
  \<open>compressInto\<close> and \<open>decompressInto\<close> are one method up to the library call.
\<close>

definition into_shape :: "(nat \<Rightarrow> nat \<Rightarrow> bytes \<Rightarrow> (('k, 'c, 'd) world, report \<times> bytes) act)
    \<Rightarrow> nat \<Rightarrow> nat \<Rightarrow> jint \<Rightarrow> jint \<Rightarrow> nat \<Rightarrow> jint \<Rightarrow> jint \<Rightarrow> (('k, 'c, 'd) world, jint) act" where
  "into_shape call obj src srcOff srcLen dst dstOff dstLen =
     bnd (getState obj) (\<lambda>state. if \<not> ensureState state then ret (-1) else
     bnd (checkArrayRange src srcOff srcLen ''src'') (\<lambda>ok. if \<not> ok then ret (-1) else
     bnd (checkArrayRange dst dstOff dstLen ''dst'') (\<lambda>ok. if \<not> ok then ret (-1) else
     bnd (getCritical src) (\<lambda>srcPtr. case srcPtr of
       None \<Rightarrow> seq (throwCached OutOfMemoryError ''Failed to access source array'') (ret (-1))
     | Some sp \<Rightarrow>
     bnd (getCritical dst) (\<lambda>dstPtr. case dstPtr of
       None \<Rightarrow> seq (releaseCritical src sp JNI_ABORT)
         (seq (throwCached OutOfMemoryError ''Failed to access destination array'') (ret (-1)))
     | Some dp \<Rightarrow>
     bnd (readPin sp (jsize srcOff) (jsize srcLen)) (\<lambda>srcBytes.
     bnd (call state (jsize dstLen) srcBytes) (\<lambda>(result, out).
     seq (writePin dp (jsize dstOff) out) (
     seq (releaseCritical src sp JNI_ABORT) (
     if zl_isError result then seq (releaseCritical dst dp JNI_ABORT) (ret (-1))
     else seq (releaseCritical dst dp ReleaseCommit)
       (ret (word_of_nat (zl_value result))))))))))))"

lemma into_shapes:
  "compressIntoNative L = into_shape (zlCompress L)"
  "decompressIntoNative L = into_shape (zlDecompress L)"
  by (simp_all add: fun_eq_iff compressIntoNative_def decompressIntoNative_def into_shape_def)

text \<open>What the call with the result \<open>(rep, out)\<close> does to the objects and returns.\<close>

definition into_objs where
  "into_objs dst db off rep out w =
     (if zl_isError rep \<and> pin_copies w then objs w
      else (objs w)(dst \<mapsto> JByteArr (overwrite db off out)))"

definition into_value :: "report \<Rightarrow> jint" where
  "into_value rep = (if zl_isError rep then -1 else word_of_nat (zl_value rep))"

text \<open>At most the bytes of \<open>dst\<close> in the range the caller named have changed.\<close>

definition only_range :: "'z jvm_scheme \<Rightarrow> nat \<Rightarrow> jint \<Rightarrow> jint \<Rightarrow> 'z jvm_scheme \<Rightarrow> bool" where
  "only_range w dst off len w' \<longleftrightarrow> (objs w' = objs w \<or>
     (\<exists>db out. objs w dst = Some (JByteArr db) \<and> in_range off len (length db) \<and>
       length out \<le> jsize len \<and> objs w' = (objs w)(dst \<mapsto> JByteArr (overwrite db (jsize off) out))))"

lemma only_range_eq: "objs w' = objs w \<Longrightarrow> only_range w dst off len w'"
  by (simp add: only_range_def)

lemma only_range_into:
  "objs w dst = Some (JByteArr db) \<Longrightarrow> in_range off len (length db) \<Longrightarrow> length out \<le> jsize len \<Longrightarrow>
     objs w' = into_objs dst db (jsize off) rep out w \<Longrightarrow> only_range w dst off len w'"
  by (auto simp: only_range_def into_objs_def split: if_splits)

context library_call
begin

lemma wp_into:
  fixes w :: "('k, 'c, 'd) world"
  assumes ok: "jvm_ok w" "pins w = []"
    and obj: "compressor_obj w obj h" and h: "h \<noteq> 0 \<Longrightarrow> natives w h \<noteq> None"
    and src: "src \<noteq> 0 \<Longrightarrow> objs w src = Some (JByteArr sb)"
    and dst: "dst \<noteq> 0 \<Longrightarrow> objs w dst = Some (JByteArr db)"
    and bounded: "\<And>s cap bs r out s'. eff s cap bs = (r, out, s') \<Longrightarrow> length out \<le> cap"
    and early: "\<And>w'. settled w (natives w) w' \<Longrightarrow> objs w' = objs w \<Longrightarrow> Q (-1) w'"
    and main: "\<And>s rep out s' w'. natives w h = Some s \<Longrightarrow> in_range so sl (length sb) \<Longrightarrow>
       objs w dst = Some (JByteArr db) \<Longrightarrow> in_range dof dl (length db) \<Longrightarrow>
       eff s (jsize dl) (slice sb (jsize so) (jsize sl)) = (rep, out, s') \<Longrightarrow>
       settled w ((natives w)(h \<mapsto> s')) w' \<Longrightarrow>
       objs w' = into_objs dst db (jsize dof) rep out w \<Longrightarrow> Q (into_value rep) w'"
  shows "wp (into_shape call obj src so sl dst dof dl) Q E w"
proof -
  have early': "wp (ret (-1)) Q E w'" if "same w w'" for w'
    using that early [OF same_settled] ok(2) by (simp add: wp_ret same_facts)
  have oom: "wp (seq (throwCached c m) (ret (-1))) Q E w'" if "same w w'" for w' c m
    using early' [OF same_trans [OF that same_thrown]] that ok(2) by (simp add: wp_simps same_facts)
  show ?thesis
    unfolding into_shape_def
    apply (rule wpi_state [OF same_refl obj ok(2)])
     apply (erule early')
    apply (erule wpi_range [OF _ ok src], assumption)
     apply (erule early')
    apply (erule wpi_range [OF _ ok dst], assumption)
     apply (erule early')
    apply (erule wpi_critical [OF _ src], assumption)
     apply (erule oom)
    apply (erule wpi_critical)
      apply (simp add: dst)
     apply (erule second_pin_failed [OF _ ok(2)])
     apply (erule (1) early)
    subgoal for w1 w2 w3 w4 w5
    proof (cases "eff (the (natives w h)) (jsize dl) (slice sb (jsize so) (jsize sl))")
      case (fields rep out s')
      assume a: "h \<noteq> 0" "src \<noteq> 0" "in_range so sl (length sb)" "dst \<noteq> 0"
         "in_range dof dl (length db)" "same (pinned dst db (pinned src sb w)) w5"
      then have n: "natives w h = Some (the (natives w h))" using h by simp
      have "natives w5 = natives w" using same_world(1) [OF a(6)] by simp
      then have call: "call h (jsize dl) (slice sb (jsize so) (jsize sl)) w5
          = (Ret (rep, out), w5\<lparr>natives := (natives w)(h \<mapsto> s')\<rparr>)"
        using call_eff [of w5 h] n fields by simp
      show ?thesis
        unfolding pinned_simps
        by (rule into_tail [where m = "call h (jsize dl)", OF a(6) src dst ok(2) a(3,5) call
              bounded [OF fields]])
          (use main [OF n a(3) dst [OF a(4)] a(5) fields] in \<open>simp_all add: a into_objs_def into_value_def\<close>)
    qed
    done
qed

lemma into_returns:
  fixes w :: "('k, 'c, 'd) world"
  assumes ok: "jvm_ok w" "pins w = []" "faults w = []"
    and obj: "compressor_obj w obj h" and h: "h \<noteq> 0" "natives w h = Some s"
    and src: "objs w src = Some (JByteArr sb)" "in_range so sl (length sb)"
    and dst: "objs w dst = Some (JByteArr db)" "in_range dof dl (length db)"
    and call: "eff s (jsize dl) (slice sb (jsize so) (jsize sl)) = (rep, out, s')"
    and bounded: "length out \<le> jsize dl"
  shows "wp (into_shape call obj src so sl dst dof dl)
     (\<lambda>r w'. r = into_value rep \<and> settled w ((natives w)(h \<mapsto> s')) w' \<and> faults w' = []
        \<and> objs w' = into_objs dst db (jsize dof) rep out w) E w"
proof -
  have nz: "src \<noteq> 0" "dst \<noteq> 0" using ok(1) src(1) dst(1) by (auto intro: gr0I)
  have len: "Option.bind (objs w src) array_length = Some (length sb)"
    "Option.bind (objs w dst) array_length = Some (length db)" using src(1) dst(1) by simp_all
  have call': "call h (jsize dl) (slice sb (jsize so) (jsize sl)) w'
      = (Ret (rep, out), w'\<lparr>natives := (natives w)(h \<mapsto> s')\<rparr>)"
    if "same (pinned dst db (pinned src sb w)) w'" for w'
    using call_eff [of w' h] h call same_world(1) [OF that] by simp
  show ?thesis
    unfolding into_shape_def
    apply (rule run_state [OF same_refl obj ok(2,3) h(1)])
    apply (erule run_range [OF _ ok(1,2) nz(1) len(1) src(2)])
    apply (erule run_range [OF _ ok(1,2) nz(2) len(2) dst(2)])
    apply (erule run_critical [OF _ src(1)], assumption)
    apply (erule run_critical)
      apply (simp add: dst)
     apply assumption
    unfolding pinned_simps
    apply (rule into_tail [where m = "call h (jsize dl)", OF _ src(1) dst(1) ok(2) src(2) dst(2)
          call' bounded])
       apply (simp_all add: into_objs_def into_value_def)
    done
qed

end

text \<open>The method hands out a new array with the bytes \<open>xs\<close>.\<close>

definition handed :: "nat \<Rightarrow> bytes \<Rightarrow> ('k, 'c, 'd) world \<Rightarrow> ('k, 'c, 'd) world \<Rightarrow> bool" where
  "handed h xs w w' \<longleftrightarrow> pins w' = [] \<and> misuse w' = misuse w \<and> faults w' = []
     \<and> next_ref w' = Suc (next_ref w) \<and> objs w' = (objs w)(next_ref w \<mapsto> JByteArr xs)
     \<and> (\<exists>s'. natives w' = (natives w)(h \<mapsto> s') \<and> scratch_ok (outputScratch s'))"

context library_call
begin

lemma scratch_tail:
  assumes w1: "pins w1 = pins (pinned input ib w)" "objs w1 = objs w" "next_ref w1 = next_ref w"
      "faults w1 = []" "misuse w1 = misuse w" "natives w1 = (natives w)(h \<mapsto> s)"
    and p: "pins w = []" 
    and s: "scratch_ok (outputScratch s)" "cap \<le> sc_capacity (outputScratch s)"
    and call: "eff s cap src = (ZOk (length out), out, s')" "outputScratch s' = outputScratch s"
    and out: "length out \<le> cap" "length out \<le> 2147483647"
  shows "wp (bnd (call h cap src) (\<lambda>(result, out).
     seq (writeScratch h out) (
     seq (releaseCritical input (next_pin w) JNI_ABORT) (
     if zl_isError result then ret 0 else returnScratch h (zl_value result)))))
     (\<lambda>r w'. r = next_ref w \<and> handed h out w w') E w1"
proof -
  let ?w2 = "w1\<lparr>natives := (natives w)(h \<mapsto> s')\<rparr>"
  have c: "wp (call h cap src) Q E w1 = Q (ZOk (length out), out) ?w2" for Q
    using call_eff [of w1 h s cap src _ out s'] call w1(6) by (simp add: wp_def)
  have pin: "find_pin (next_pin w) w1 = Some (hd (pins w1))" "pin_arr (hd (pins w1)) = input"
    "filter (\<lambda>y. pin_id y \<noteq> next_pin w) (pins w1) = []"
    using w1(1) p by (simp_all add: find_pin_def)
  have f: "find_pin p (v\<lparr>natives := n\<rparr>) = find_pin p v" for p n and v :: "('k, 'c, 'd) world"
    by (simp add: find_pin_def)
  show ?thesis
    unfolding wp_bnd c
    apply simp
    unfolding wp_seq
    apply (rule wp_writeScratch [where s = s'])
       apply (simp_all add: call s out)
     using out s apply simp
    apply (subst wp_releaseCritical)
    apply (simp add: f pin cong: option.case_cong)
    apply (rule wp_returnScratch, simp)
    using out s w1
           apply (simp_all add: handed_def scratch_setSize_def allocated_def)
    apply (rule exI, rule conjI [OF refl])
    apply (simp add: scratch_ok_def split: option.splits)
   done

qed
end

lemma compress_returns:
  fixes w :: "('k, 'c, 'd) world"
  assumes ok: "jvm_ok w" "pins w = []" "faults w = []"
    and obj: "compressor_obj w obj h" and h: "h \<noteq> 0" "natives w h = Some s" "scratch_ok (outputScratch s)"
    and input: "objs w input = Some (JByteArr ib)"
    and call: "zl_compress L (compressor s) (cctx s) (zl_compressBound L (length ib)) ib = (ZOk (length out), out, c')"
    and out: "length out \<le> zl_compressBound L (length ib)" "length out \<le> 2147483647" "zl_compressBound L (length ib) \<le> PTRDIFF_MAX"
  shows "wp (compress L obj input) (\<lambda>r w'. r = next_ref w \<and> handed h out w w') E w"
proof -
  have nz: "input \<noteq> 0" using ok(1) input by (auto intro: gr0I)
  have len: "length ib \<le> 2147483647" using obj_ok_length [OF ok(1) input] by simp
  show ?thesis
    unfolding compress_def
    apply (rule run_state [OF same_refl obj ok(2,3) h(1)])
    apply (simp add: nz)
    apply (erule run_length [OF _ ok(2) input array_length.simps(1)])
    apply (erule run_critical [OF _ input], assumption)
    unfolding Let_def jint_of_nat(2) [OF len] wp_seq
    subgoal for w1 w2
    apply (rule wp_ensureScratch [where s = s])
    apply (simp_all add: same_world [of _ w2] h out)
    subgoal for b w3
    apply (rule run_readPin [where r = input and bs = ib])
    apply (simp_all add: same_facts [of _ w2] same_facts [of _ w3] input slice_def)
    apply (rule compress_call.scratch_tail [where ib = ib and s = "s\<lparr>outputScratch := b\<rparr>" and s' = "s\<lparr>outputScratch := b, cctx := c'\<rparr>"])
    apply (simp_all add: same_facts [of _ w2] same_facts [of _ w3] same_world [of _ w3] same_world [of _ w2] compress_effect_def call out ok)
    apply (simp_all add: same_def)
    done
    done
    done
qed

lemma decompress_returns:
  fixes w :: "('k, 'c, 'd) world"
  assumes ok: "jvm_ok w" "pins w = []" "faults w = []"
    and obj: "compressor_obj w obj h" and h: "h \<noteq> 0" "natives w h = Some s" "scratch_ok (outputScratch s)"
    and input: "objs w input = Some (JByteArr ib)"
    and size: "zl_getDecompressedSize L ib = ZOk cap"
    and call: "zl_decompress L (dctx s) cap ib = (ZOk (length out), out, d')"
    and out: "length out \<le> cap" "length out \<le> 2147483647" "cap \<le> PTRDIFF_MAX"
  shows "wp (decompress L obj input) (\<lambda>r w'. r = next_ref w \<and> handed h out w w') E w"
proof -
  have nz: "input \<noteq> 0" using ok(1) input by (auto intro: gr0I)
  have len: "length ib \<le> 2147483647" using obj_ok_length [OF ok(1) input] by simp
  show ?thesis
    unfolding decompress_def
    apply (rule run_state [OF same_refl obj ok(2,3) h(1)])
    apply (simp add: nz)
    apply (erule run_length [OF _ ok(2) input array_length.simps(1)])
    apply (erule run_critical [OF _ input], assumption)
    unfolding Let_def jint_of_nat(2) [OF len]
    subgoal for w1 w2
    apply (rule run_readPin [where r = input and bs = ib])
    apply (simp_all add: same_facts [of _ w2] input slice_def size)
    unfolding wp_seq
    apply (rule wp_ensureScratch [where s = s])
    apply (simp_all add: same_world [of _ w2] h out)
    subgoal for b w3
    apply (rule decompress_call.scratch_tail [where ib = ib and s = "s\<lparr>outputScratch := b\<rparr>" and s' = "s\<lparr>outputScratch := b, dctx := d'\<rparr>"])
    apply (simp_all add: same_facts [of _ w2] same_facts [of _ w3] same_world [of _ w3] same_world [of _ w2] decompress_effect_def call out ok)
    apply (simp_all add: same_def)
    done
    done
    done
qed

section \<open>Properties\<close>

text \<open>C1. For every \<open>jint\<close> offset and length, any arrays or nulls, every schedule of JVM
  failures, with or without pin copies: \<open>compressInto\<close> shows no undefined behaviour and throws
  no C++ exception; it releases every array it pinned, makes no JNI call inside the critical
  region, and changes at most the bytes of \<open>dst\<close> inside the range named.\<close>

lemma compressInto_safe:
  assumes "zl_bounded L" and "jvm_ok w" and "pins w = []" and "compressor_obj w obj h"
    and "h \<noteq> 0 \<Longrightarrow> natives w h \<noteq> None"
    and "src \<noteq> 0 \<Longrightarrow> objs w src = Some (JByteArr sb)"
    and "dst \<noteq> 0 \<Longrightarrow> objs w dst = Some (JByteArr db)"
  shows "wp (compressIntoNative L obj src so sl dst dof dl)
     (\<lambda>r w'. pins w' = [] \<and> misuse w' = misuse w \<and> only_range w dst dof dl w') (\<lambda>_ _. False) w"
  unfolding into_shapes
  by (rule compress_call.wp_into [OF assms(2-7)])
    (auto simp: compress_effect_def settled_def only_range_eq only_range_into
      dest!: zl_boundedD [OF assms(1)] split: prod.splits)

text \<open>C2. The same for \<open>decompressInto\<close>, whatever bytes the frame holds.\<close>

lemma decompressInto_safe:
  assumes "zl_bounded L" and "jvm_ok w" and "pins w = []" and "compressor_obj w obj h"
    and "h \<noteq> 0 \<Longrightarrow> natives w h \<noteq> None"
    and "src \<noteq> 0 \<Longrightarrow> objs w src = Some (JByteArr sb)"
    and "dst \<noteq> 0 \<Longrightarrow> objs w dst = Some (JByteArr db)"
  shows "wp (decompressIntoNative L obj src so sl dst dof dl)
     (\<lambda>r w'. pins w' = [] \<and> misuse w' = misuse w \<and> only_range w dst dof dl w') (\<lambda>_ _. False) w"
  unfolding into_shapes
  by (rule decompress_call.wp_into [OF assms(2-7)])
    (auto simp: decompress_effect_def settled_def only_range_eq only_range_into
      dest!: zl_boundedD [OF assms(1)] split: prod.splits)

text \<open>C3. With no failures, \<open>compressInto\<close> followed by \<open>decompressInto\<close> of the bytes it reports
  returns the length of the input range and restores exactly its bytes in the target range.\<close>

lemma compressInto_roundtrip:
  assumes "zl_bounded L" and "zl_lossless L" and "jvm_ok w" and "pins w = []" and "faults w = []"
    and "compressor_obj w obj h" and "h \<noteq> 0" and "natives w h = Some s"
    and "objs w src = Some (JByteArr sb)" and "in_range so sl (length sb)"
    and "objs w dst = Some (JByteArr db)" and "in_range dof dl (length db)"
    and "objs w tgt = Some (JByteArr tb)" and "in_range tof tlen (length tb)"
    and "tgt \<noteq> dst" and "jsize sl \<le> jsize tlen"
    and "zl_compress L (compressor s) (cctx s) (jsize dl) (slice sb (jsize so) (jsize sl)) = (ZOk n, frame, c')"
  shows "wp (bnd (compressIntoNative L obj src so sl dst dof dl) (\<lambda>r.
        decompressIntoNative L obj dst dof r tgt tof tlen))
     (\<lambda>r w'. r = sl \<and> pins w' = [] \<and>
        objs w' tgt = Some (JByteArr (overwrite tb (jsize tof) (slice sb (jsize so) (jsize sl))))) (\<lambda>_ _. False) w"
proof -
  let ?src = "slice sb (jsize so) (jsize sl)"
  have n: "n = length frame" "length frame \<le> jsize dl" "length ?src = jsize sl"
    using zl_boundedD(1,2) [OF assms(1) assms(17)] assms(10) by (auto simp: in_range_def)
  have "jsize dl \<le> 2147483647" using jint_bounds [of dl] by (simp add: jsize_def)
  then have r: "jsize (word_of_nat n) = n" "\<not> jneg (word_of_nat n)" using n by auto
  show ?thesis
    unfolding wp_bnd into_shapes
  proof (rule wp_mono [OF compress_call.into_returns [OF assms(3-12)]])
    show "compress_effect L s (jsize dl) ?src = (ZOk n, frame, s\<lparr>cctx := c'\<rparr>)"
      using assms(17) by (simp add: compress_effect_def)
    show "length frame \<le> jsize dl" by (rule n)
    fix r w1
    assume a: "r = into_value (ZOk n) \<and> settled w ((natives w)(h \<mapsto> s\<lparr>cctx := c'\<rparr>)) w1 \<and> faults w1 = []
      \<and> objs w1 = into_objs dst db (jsize dof) (ZOk n) frame w"
    let ?db = "overwrite db (jsize dof) frame"
    have o: "objs w1 = (objs w)(dst \<mapsto> JByteArr ?db)" "r = word_of_nat n"
      using a by (simp_all add: into_objs_def into_value_def)
    have dl: "length ?db = length db" "in_range dof r (length ?db)"
      using assms(12) n r o(2) by (auto simp: in_range_def)
    have "slice ?db (jsize dof) n = frame" using assms(12) n by (simp add: in_range_def)
    moreover obtain d' where "zl_decompress L (dctx s) (jsize tlen) frame = (ZOk (jsize sl), ?src, d')"
      using zl_losslessD(2) [OF assms(2,17)] assms(16) n(3) by metis
    ultimately have call: "decompress_effect L (s\<lparr>cctx := c'\<rparr>) (jsize tlen) (slice ?db (jsize dof) (jsize r))
        = (ZOk (jsize sl), ?src, s\<lparr>cctx := c', dctx := d'\<rparr>)"
      using r o(2) by (simp add: decompress_effect_def)
    have "obj_ok (JByteArr ?db)"
      using obj_ok_length [OF assms(3,11)] dl(1) by (simp add: obj_ok_def)
    then have ok: "jvm_ok w1" "compressor_obj w1 obj h"
      using jvm_ok_update [OF assms(3,11) _ o(1)] compressor_obj_update [OF assms(6,11) o(1)] a
      by (simp_all add: settled_def)
    have "word_of_nat (jsize sl) = sl"
      using assms(10) by (simp add: jsize_def in_range_def jneg_def)
    then show "wp (into_shape (zlDecompress L) obj dst dof r tgt tof tlen)
      (\<lambda>r w'. r = sl \<and> pins w' = [] \<and> objs w' tgt = Some (JByteArr (overwrite tb (jsize tof) ?src)))
      (\<lambda>_ _. False) w1"
      using a o assms(7,13-16) n(3)
      by (intro wp_mono [OF decompress_call.into_returns [OF ok(1) _ _ ok(2) _ _ _ dl(2) _ _ call]])
        (auto simp: settled_def settled_world into_objs_def into_value_def)
  qed
qed

lemma compressInto_safe_witness:
  "wp (compressIntoNative store_library 1 2 1 2 3 (-1) 5)
     (\<lambda>r w'. pins w' = [] \<and> misuse w' = misuse sample_world \<and> only_range sample_world 3 (-1) 5 w')
     (\<lambda>_ _. False) sample_world"
  by (rule compressInto_safe [OF store_library_bounded sample_world_ok _ sample_compressor])
    (simp_all add: sample_world_simps)

lemma decompressInto_safe_witness:
  "wp (decompressIntoNative store_library 1 2 0 4 3 2 5)
     (\<lambda>r w'. pins w' = [] \<and> misuse w' = misuse sample_world \<and> only_range sample_world 3 2 5 w')
     (\<lambda>_ _. False) sample_world"
  by (rule decompressInto_safe [OF store_library_bounded sample_world_ok _ sample_compressor])
    (simp_all add: sample_world_simps)

lemma compressInto_roundtrip_witness:
  "wp (bnd (compressIntoNative store_library 1 2 1 3 3 2 6) (\<lambda>r.
        decompressIntoNative store_library 1 3 2 r 4 1 4))
     (\<lambda>r w'. r = 3 \<and> pins w' = [] \<and>
        objs w' 4 = Some (JByteArr (overwrite (replicate 6 9) (jsize 1) (slice [1, 2, 3, 4] (jsize 1) (jsize 3)))))
     (\<lambda>_ _. False) sample_world"
  by (rule compressInto_roundtrip [OF store_library_bounded store_library_lossless sample_world_ok
        _ _ sample_compressor, where sb = "[1, 2, 3, 4]" and db = "replicate 8 0"
        and s = "initial_state store_library 10" and n = 4 and frame = "[0, 2, 3, 4]" and c' = "()"])
    (simp_all add: sample_world_simps in_range_def jneg_def jsize_def slice_def store_library_def)

text \<open>C4. With no failures, \<open>compress\<close> and then \<open>decompress\<close> of the array it returns hands out
  a new array equal to the input, leaves the input array as it was and nothing pinned.\<close>

lemma compress_roundtrip:
  assumes "zl_bounded L" and "zl_lossless L" and "jvm_ok w" and "pins w = []" and "faults w = []"
    and "compressor_obj w obj h" and "h \<noteq> 0" and "natives w h = Some s"
    and "scratch_ok (outputScratch s)" and "objs w input = Some (JByteArr ib)"
    and "zl_compressBound L (length ib) \<le> 2147483647"
    and "zl_compress L (compressor s) (cctx s) (zl_compressBound L (length ib)) ib = (ZOk n, frame, c')"
  shows "wp (bnd (compress L obj input) (decompress L obj))
     (\<lambda>r w'. objs w' r = Some (JByteArr ib) \<and> objs w' input = Some (JByteArr ib) \<and> r \<noteq> input
        \<and> pins w' = [] \<and> misuse w' = misuse w) (\<lambda>_ _. False) w"
proof -
  have n: "n = length frame" "length frame \<le> zl_compressBound L (length ib)"
    using zl_boundedD(1,2) [OF assms(1) assms(12)] by simp_all
  have len: "length ib \<le> 2147483647" using obj_ok_length [OF assms(3,10)] by simp
  have max: "2147483647 \<le> PTRDIFF_MAX" by (simp add: PTRDIFF_MAX_def)
  have input: "input < next_ref w" using allocated_below [OF assms(3,10)] .
  show ?thesis
    unfolding wp_bnd
  proof (rule wp_mono [OF compress_returns [OF assms(3-10)]])
    fix r w1
    assume a: "r = next_ref w \<and> handed h frame w w1"
    then obtain s' where s': "natives w1 h = Some s'" "scratch_ok (outputScratch s')"
      by (auto simp: handed_def)
    obtain d' where "zl_decompress L (dctx s') (length ib) frame = (ZOk (length ib), ib, d')"
      using zl_losslessD(2) [OF assms(2,12) le_refl] by metis
    moreover have "objs w1 = (objs w)(next_ref w \<mapsto> JByteArr frame)" "next_ref w1 = Suc (next_ref w)"
      using a by (simp_all add: handed_def)
    then have "jvm_ok w1" "compressor_obj w1 obj h"
      using n assms(11) jvm_ok_alloc [OF assms(3), of "JByteArr frame" w1]
        compressor_obj_alloc [OF assms(3,6), of w1] by (simp_all add: obj_ok_def)
    ultimately show "wp (decompress L obj r) (\<lambda>r w'. objs w' r = Some (JByteArr ib)
        \<and> objs w' input = Some (JByteArr ib) \<and> r \<noteq> input \<and> pins w' = [] \<and> misuse w' = misuse w) (\<lambda>_ _. False) w1"
      using a s' assms(7,10) len max input
      by (intro wp_mono [OF decompress_returns [where h = h and s = s' and cap = "length ib" and ib = frame
            and out = ib and d' = d']]) (auto simp: handed_def zl_losslessD(1) [OF assms(2,12)])
  qed (use assms n max in auto)
qed

lemma compress_roundtrip_witness:
  "wp (bnd (compress store_library 1 2) (decompress store_library 1))
     (\<lambda>r w'. objs w' r = Some (JByteArr [1, 2, 3, 4]) \<and> objs w' 2 = Some (JByteArr [1, 2, 3, 4]) \<and> r \<noteq> 2
        \<and> pins w' = [] \<and> misuse w' = misuse sample_world) (\<lambda>_ _. False) sample_world"
  by (rule compress_roundtrip [OF store_library_bounded store_library_lossless sample_world_ok
        _ _ sample_compressor, where s = "initial_state store_library 10" and n = 5
        and frame = "[0, 1, 2, 3, 4]" and c' = "()"])
    (simp_all add: sample_world_simps initial_state_def scratch_ok_def store_library_def)

text \<open>C5. When the scratch buffer must grow and its allocation fails, \<open>compress\<close> lets
  \<open>std::bad_alloc\<close> escape with the input array still pinned.\<close>

lemma compress_bad_alloc_keeps_pin:
  assumes "jvm_ok w" and "pins w = []" and "handle_field w" and "faults w = [False, True]"
    and "compressor_obj w obj h" and "h \<noteq> 0" and "natives w h = Some s"
    and "objs w input = Some (JByteArr ib)"
    and "sc_capacity (outputScratch s) < zl_compressBound L (length ib)"
  shows "fst (compress L obj input w) = Throw BadAlloc \<and> pins (snd (compress L obj input w)) \<noteq> []"
proof -
  have nz: "input \<noteq> 0" using assms(1,8) by (auto intro: gr0I)
  have len: "length ib \<le> 2147483647" using obj_ok_length [OF assms(1,8)] by simp
  have "wp (compress L obj input) (\<lambda>_ _. False) (\<lambda>e w'. e = BadAlloc \<and> pins w' \<noteq> []) w"
    using assms
    by (simp add: compress_def wp_bnd wp_getState field_failed_def field_cached_def wp_if ensureState_def nz)
      (simp add: wp_simps len next_fault_def Let_def ensureScratch_def scratch_ensure_def consume_def pinned_def)
  then show ?thesis by (auto simp: wp_run)
       (cases "fst (compress L obj input w)"; auto)+
qed

lemma compress_bad_alloc_keeps_pin_witness:
  "fst (compress store_library 1 2 (sample_world\<lparr>faults := [False, True]\<rparr>)) = Throw BadAlloc
     \<and> pins (snd (compress store_library 1 2 (sample_world\<lparr>faults := [False, True]\<rparr>))) \<noteq> []"
proof (rule compress_bad_alloc_keeps_pin [where h = 5 and s = "initial_state store_library 10"
      and ib = "[1, 2, 3, 4]"])
  show "jvm_ok (sample_world\<lparr>faults := [False, True]\<rparr>)"
    using sample_world_ok by (simp add: jvm_ok_def)
  show "compressor_obj (sample_world\<lparr>faults := [False, True]\<rparr>) 1 5"
    using sample_compressor by (simp add: compressor_obj_def)
qed (simp_all add: sample_world_def initial_state_def store_library_def)

end
