(* ===== verification/Compressor_Direct.thy ===== *)
theory Compressor_Direct
  imports Compressor_Arrays
begin

text \<open>
  \<open>JNI/compressor/OpenZLCompressorDirect.cpp\<close>: compression and decompression between direct
  byte buffers.  The address of a direct buffer is its reference; \<open>srcPtr + srcPos\<close> is kept as
  the pair of the address and the position.
\<close>

section \<open>Native methods\<close>

definition compressDirect :: "('k, 'c, 'd) zl \<Rightarrow> nat \<Rightarrow> nat \<Rightarrow> jint \<Rightarrow> jint \<Rightarrow> nat \<Rightarrow> jint \<Rightarrow> jint
    \<Rightarrow> (('k, 'c, 'd) world, jint) act" where
  "compressDirect L obj src srcPos srcLen dst dstPos dstLen =
     bnd (getState obj) (\<lambda>state. if \<not> ensureState state then ret (-1) else
     bnd (ensureDirectRange src srcPos srcLen ''src'') (\<lambda>ok. if \<not> ok then ret (-1) else
     bnd (ensureDirectRange dst dstPos dstLen ''dst'') (\<lambda>ok. if \<not> ok then ret (-1) else
     bnd (getDirectBufferAddress src) (\<lambda>srcPtr.
     bnd (getDirectBufferAddress dst) (\<lambda>dstPtr.
     case (srcPtr, dstPtr) of
       (Some sp, Some dp) \<Rightarrow>
         bnd (readDirect sp (jsize srcPos) (jsize srcLen)) (\<lambda>srcBytes.
         bnd (zlCompress L state (jsize dstLen) srcBytes) (\<lambda>(result, out).
         seq (writeDirect dp (jsize dstPos) out) (
         if zl_isError result then ret (-1) else ret (word_of_nat (zl_value result)))))
     | _ \<Rightarrow> ret (-1))))))"

definition decompressDirect :: "('k, 'c, 'd) zl \<Rightarrow> nat \<Rightarrow> nat \<Rightarrow> jint \<Rightarrow> jint \<Rightarrow> nat \<Rightarrow> jint \<Rightarrow> jint
    \<Rightarrow> (('k, 'c, 'd) world, jint) act" where
  "decompressDirect L obj src srcPos srcLen dst dstPos dstLen =
     bnd (getState obj) (\<lambda>state. if \<not> ensureState state then ret (-1) else
     bnd (ensureDirectRange src srcPos srcLen ''src'') (\<lambda>ok. if \<not> ok then ret (-1) else
     bnd (ensureDirectRange dst dstPos dstLen ''dst'') (\<lambda>ok. if \<not> ok then ret (-1) else
     bnd (getDirectBufferAddress src) (\<lambda>srcPtr.
     bnd (getDirectBufferAddress dst) (\<lambda>dstPtr.
     case (srcPtr, dstPtr) of
       (Some sp, Some dp) \<Rightarrow>
         bnd (readDirect sp (jsize srcPos) (jsize srcLen)) (\<lambda>srcBytes.
         bnd (zlDecompress L state (jsize dstLen) srcBytes) (\<lambda>(result, out).
         seq (writeDirect dp (jsize dstPos) out) (
         if zl_isError result then ret (-1) else ret (word_of_nat (zl_value result)))))
     | _ \<Rightarrow> ret (-1))))))"

definition getDecompressedSizeDirect :: "('k, 'c, 'd) zl \<Rightarrow> nat \<Rightarrow> nat \<Rightarrow> jint \<Rightarrow> jint
    \<Rightarrow> (('k, 'c, 'd) world, jlong) act" where
  "getDecompressedSizeDirect L obj src srcPos srcLen =
     bnd (getState obj) (\<lambda>state. if \<not> ensureState state then ret (-1) else
     bnd (ensureDirectRange src srcPos srcLen ''src'') (\<lambda>ok. if \<not> ok then ret (-1) else
     bnd (getDirectBufferAddress src) (\<lambda>srcPtr. case srcPtr of
       None \<Rightarrow> ret (-1)
     | Some sp \<Rightarrow>
         bnd (readDirect sp (jsize srcPos) (jsize srcLen)) (\<lambda>srcBytes.
         let sizeReport = zl_getDecompressedSize L srcBytes in
         if zl_isError sizeReport then ret (-1)
         else ret (word_of_nat (zl_value sizeReport))))))"

section \<open>Rules\<close>

definition direct_shape :: "(nat \<Rightarrow> nat \<Rightarrow> bytes \<Rightarrow> (('k, 'c, 'd) world, report \<times> bytes) act)
    \<Rightarrow> nat \<Rightarrow> nat \<Rightarrow> jint \<Rightarrow> jint \<Rightarrow> nat \<Rightarrow> jint \<Rightarrow> jint \<Rightarrow> (('k, 'c, 'd) world, jint) act" where
  "direct_shape call obj src srcPos srcLen dst dstPos dstLen =
     bnd (getState obj) (\<lambda>state. if \<not> ensureState state then ret (-1) else
     bnd (ensureDirectRange src srcPos srcLen ''src'') (\<lambda>ok. if \<not> ok then ret (-1) else
     bnd (ensureDirectRange dst dstPos dstLen ''dst'') (\<lambda>ok. if \<not> ok then ret (-1) else
     bnd (getDirectBufferAddress src) (\<lambda>srcPtr.
     bnd (getDirectBufferAddress dst) (\<lambda>dstPtr.
     case (srcPtr, dstPtr) of
       (Some sp, Some dp) \<Rightarrow>
         bnd (readDirect sp (jsize srcPos) (jsize srcLen)) (\<lambda>srcBytes.
         bnd (call state (jsize dstLen) srcBytes) (\<lambda>(result, out).
         seq (writeDirect dp (jsize dstPos) out) (
         if zl_isError result then ret (-1) else ret (word_of_nat (zl_value result)))))
     | _ \<Rightarrow> ret (-1))))))"

lemma direct_shapes:
  "compressDirect L = direct_shape (zlCompress L)"
  "decompressDirect L = direct_shape (zlDecompress L)"
  by (simp_all add: fun_eq_iff compressDirect_def decompressDirect_def direct_shape_def)

definition direct_objs where
  "direct_objs dst db off out w = (objs w)(dst \<mapsto> JDirect (overwrite db off out))"

lemma same_pinless_settled:
  fixes w :: "('k, 'c, 'd) world"
  assumes "same w w'" and "pins w = []"
  shows "settled w f (w'\<lparr>natives := f, objs := x\<rparr>)" and "faults (w'\<lparr>natives := f, objs := x\<rparr>) = faults w'"
proof -
  have "jvm.more (w'\<lparr>natives := f\<rparr>) = jvm.more (w\<lparr>natives := f\<rparr>)"
    using assms(1) by (cases w; cases w') (simp add: same_def)
  then show "settled w f (w'\<lparr>natives := f, objs := x\<rparr>)"
    using assms by (simp add: settled_def same_def)
qed simp

context library_call
begin

lemma direct_tail:
  fixes w :: "('k, 'c, 'd) world"
  assumes s: "same w w1" and p: "pins w = []"
    and o: "objs w src = Some (JDirect sb)" "objs w dst = Some (JDirect db)"
    and r: "in_range so sl (length sb)" "in_range dof dl (length db)"
    and h: "natives w h = Some s"
    and c: "eff s (jsize dl) (slice sb (jsize so) (jsize sl)) = (rep, out, s')" "length out \<le> jsize dl"
    and Q: "\<And>w'. settled w ((natives w)(h \<mapsto> s')) w' \<Longrightarrow> faults w' = faults w1 \<Longrightarrow>
       objs w' = direct_objs dst db (jsize dof) out w \<Longrightarrow> Q (into_value rep) w'"
  shows "wp (bnd (getDirectBufferAddress src) (\<lambda>srcPtr.
     bnd (getDirectBufferAddress dst) (\<lambda>dstPtr.
     case (srcPtr, dstPtr) of
       (Some sp, Some dp) \<Rightarrow>
         bnd (readDirect sp (jsize so) (jsize sl)) (\<lambda>srcBytes.
         bnd (call h (jsize dl) srcBytes) (\<lambda>(result, out).
         seq (writeDirect dp (jsize dof) out) (
         if zl_isError result then ret (-1) else ret (word_of_nat (zl_value result)))))
     | _ \<Rightarrow> ret (-1)))) Q E w1"
proof -
  have w1: "objs w1 = objs w" "pins w1 = []" "natives w1 = natives w"
    using s p by (simp_all add: same_facts same_world)
  have call: "wp (call h (jsize dl) (slice sb (jsize so) (jsize sl))) Q' E w1
      = Q' (rep, out) (w1\<lparr>natives := (natives w)(h \<mapsto> s')\<rparr>)" for Q'
    using call_eff [of w1 h s] c(1) h w1(3) by (simp add: wp_def)
  show ?thesis
    using r o c(2) Q [OF same_pinless_settled [OF s p]]
    by (simp add: wp_simps w1 in_range_def call direct_objs_def into_value_def split: if_splits)
qed

lemma wp_direct:
  fixes w :: "('k, 'c, 'd) world"
  assumes ok: "jvm_ok w" "pins w = []"
    and obj: "compressor_obj w obj h" and h: "h \<noteq> 0 \<Longrightarrow> natives w h \<noteq> None"
    and bounded: "\<And>s cap bs r out s'. eff s cap bs = (r, out, s') \<Longrightarrow> length out \<le> cap"
    and early: "\<And>w'. settled w (natives w) w' \<Longrightarrow> objs w' = objs w \<Longrightarrow> Q (-1) w'"
    and main: "\<And>s rep out s' w' sb db. natives w h = Some s \<Longrightarrow>
       objs w src = Some (JDirect sb) \<Longrightarrow> in_range so sl (length sb) \<Longrightarrow>
       objs w dst = Some (JDirect db) \<Longrightarrow> in_range dof dl (length db) \<Longrightarrow>
       eff s (jsize dl) (slice sb (jsize so) (jsize sl)) = (rep, out, s') \<Longrightarrow>
       settled w ((natives w)(h \<mapsto> s')) w' \<Longrightarrow>
       objs w' = direct_objs dst db (jsize dof) out w \<Longrightarrow> Q (into_value rep) w'"
  shows "wp (direct_shape call obj src so sl dst dof dl) Q E w"
proof -
  have early': "wp (ret (-1)) Q E w'" if "same w w'" for w'
    using that early [OF same_settled] ok(2) by (simp add: wp_ret same_facts)
  show ?thesis
    unfolding direct_shape_def
    apply (rule wpi_state [OF same_refl obj ok(2)])
     apply (erule early')
    apply (erule wpi_direct [OF _ ok])
     apply (erule early')
    apply (erule wpi_direct [OF _ ok])
     apply (erule early')
    subgoal for w1 w2 sb w3 db
    proof (cases "eff (the (natives w h)) (jsize dl) (slice sb (jsize so) (jsize sl))")
      case (fields rep out s')
      assume a: "h \<noteq> 0" "objs w src = Some (JDirect sb)" "in_range so sl (length sb)" "same w w3"
        "objs w dst = Some (JDirect db)" "in_range dof dl (length db)"
      then have n: "natives w h = Some (the (natives w h))" using h by simp
      show ?thesis
        by (rule direct_tail [OF a(4) ok(2) a(2,5,3,6) n fields bounded [OF fields]])
          (rule main [OF n a(2,3,5,6) fields])
    qed
    done
qed

lemma direct_returns:
  fixes w :: "('k, 'c, 'd) world"
  assumes ok: "jvm_ok w" "pins w = []" "faults w = []"
    and obj: "compressor_obj w obj h" and h: "h \<noteq> 0" "natives w h = Some s"
    and src: "objs w src = Some (JDirect sb)" "in_range so sl (length sb)"
    and dst: "objs w dst = Some (JDirect db)" "in_range dof dl (length db)"
    and call: "eff s (jsize dl) (slice sb (jsize so) (jsize sl)) = (rep, out, s')"
    and bounded: "length out \<le> jsize dl"
  shows "wp (direct_shape call obj src so sl dst dof dl)
     (\<lambda>r w'. r = into_value rep \<and> settled w ((natives w)(h \<mapsto> s')) w' \<and> faults w' = []
        \<and> objs w' = direct_objs dst db (jsize dof) out w) E w"
proof -
  have nz: "src \<noteq> 0" "dst \<noteq> 0" using ok(1) src(1) dst(1) by (auto intro: gr0I)
  show ?thesis
    unfolding direct_shape_def
    apply (rule run_state [OF same_refl obj ok(2,3) h(1)])
    apply (erule run_direct [OF _ ok(1,2) nz(1) src])
    apply (erule run_direct [OF _ ok(1,2) nz(2) dst])
    apply (erule direct_tail [OF _ ok(2) src(1) dst(1) src(2) dst(2) h(2) call bounded])
    apply simp
    done
qed

end

section \<open>Properties\<close>

text \<open>At most the bytes of the buffer \<open>dst\<close> in the range the caller named have changed.\<close>

definition only_direct :: "'z jvm_scheme \<Rightarrow> nat \<Rightarrow> jint \<Rightarrow> jint \<Rightarrow> 'z jvm_scheme \<Rightarrow> bool" where
  "only_direct w dst off len w' \<longleftrightarrow> (objs w' = objs w \<or>
     (\<exists>db out. objs w dst = Some (JDirect db) \<and> in_range off len (length db) \<and>
       length out \<le> jsize len \<and> objs w' = (objs w)(dst \<mapsto> JDirect (overwrite db (jsize off) out))))"

lemma only_directI:
  "objs w dst = Some (JDirect db) \<Longrightarrow> in_range off len (length db) \<Longrightarrow> length out \<le> jsize len \<Longrightarrow>
     objs w' = direct_objs dst db (jsize off) out w \<Longrightarrow> only_direct w dst off len w'"
  by (auto simp: only_direct_def direct_objs_def)

text \<open>C6. Whatever objects are passed as buffers, for every \<open>jint\<close> position and length:
  \<open>compressDirect\<close> and \<open>decompressDirect\<close> show no undefined behaviour, throw no C++ exception,
  and change at most the bytes of \<open>dst\<close> inside the range named.\<close>

lemma direct_safe:
  assumes "zl_bounded L" and "jvm_ok w" and "pins w = []" and "compressor_obj w obj h"
    and "h \<noteq> 0 \<Longrightarrow> natives w h \<noteq> None"
  shows "wp (compressDirect L obj src so sl dst dof dl)
       (\<lambda>r w'. pins w' = [] \<and> misuse w' = misuse w \<and> only_direct w dst dof dl w') (\<lambda>_ _. False) w
     \<and> wp (decompressDirect L obj src so sl dst dof dl)
       (\<lambda>r w'. pins w' = [] \<and> misuse w' = misuse w \<and> only_direct w dst dof dl w') (\<lambda>_ _. False) w"
  unfolding direct_shapes
  by (intro conjI compress_call.wp_direct [OF assms(2-5)] decompress_call.wp_direct [OF assms(2-5)])
    (auto simp: compress_effect_def decompress_effect_def settled_def only_direct_def direct_objs_def
      dest!: zl_boundedD(1,3) [OF assms(1)] split: prod.splits)

lemma direct_safe_witness:
  "wp (compressDirect store_library 1 6 1 2 7 3 2147483647)
       (\<lambda>r w'. pins w' = [] \<and> misuse w' = misuse sample_world
          \<and> only_direct sample_world 7 3 2147483647 w') (\<lambda>_ _. False) sample_world
     \<and> wp (decompressDirect store_library 1 6 1 2 7 3 2147483647)
       (\<lambda>r w'. pins w' = [] \<and> misuse w' = misuse sample_world
          \<and> only_direct sample_world 7 3 2147483647 w') (\<lambda>_ _. False) sample_world"
  by (rule direct_safe [OF store_library_bounded sample_world_ok _ sample_compressor])
    (simp_all add: sample_world_simps)

text \<open>C7. With no failures, \<open>compressDirect\<close> followed by \<open>decompressDirect\<close> of the bytes it
  reports returns the length of the input range and restores its bytes in the target buffer.\<close>

lemma direct_roundtrip:
  assumes "zl_bounded L" and "zl_lossless L" and "jvm_ok w" and "pins w = []" and "faults w = []"
    and "compressor_obj w obj h" and "h \<noteq> 0" and "natives w h = Some s"
    and "objs w src = Some (JDirect sb)" and "in_range so sl (length sb)"
    and "objs w dst = Some (JDirect db)" and "in_range dof dl (length db)"
    and "objs w tgt = Some (JDirect tb)" and "in_range tof tlen (length tb)"
    and "tgt \<noteq> dst" and "jsize sl \<le> jsize tlen"
    and "zl_compress L (compressor s) (cctx s) (jsize dl) (slice sb (jsize so) (jsize sl)) = (ZOk n, frame, c')"
  shows "wp (bnd (compressDirect L obj src so sl dst dof dl) (\<lambda>r.
        decompressDirect L obj dst dof r tgt tof tlen))
     (\<lambda>r w'. r = sl \<and> objs w' tgt = Some (JDirect (overwrite tb (jsize tof) (slice sb (jsize so) (jsize sl)))))
     (\<lambda>_ _. False) w"
proof -
  let ?src = "slice sb (jsize so) (jsize sl)"
  have n: "n = length frame" "length frame \<le> jsize dl" "length ?src = jsize sl"
    using zl_boundedD(1,2) [OF assms(1) assms(17)] assms(10) by (auto simp: in_range_def)
  have "jsize dl \<le> 2147483647" using jint_bounds [of dl] by (simp add: jsize_def)
  then have r: "jsize (word_of_nat n) = n" "\<not> jneg (word_of_nat n)" using n by auto
  show ?thesis
    unfolding wp_bnd direct_shapes
  proof (rule wp_mono [OF compress_call.direct_returns [OF assms(3-12)]])
    show "compress_effect L s (jsize dl) ?src = (ZOk n, frame, s\<lparr>cctx := c'\<rparr>)"
      using assms(17) by (simp add: compress_effect_def)
    show "length frame \<le> jsize dl" by (rule n)
    fix r w1
    assume a: "r = into_value (ZOk n) \<and> settled w ((natives w)(h \<mapsto> s\<lparr>cctx := c'\<rparr>)) w1 \<and> faults w1 = []
      \<and> objs w1 = direct_objs dst db (jsize dof) frame w"
    let ?db = "overwrite db (jsize dof) frame"
    have o: "objs w1 = (objs w)(dst \<mapsto> JDirect ?db)" "r = word_of_nat n"
      using a by (simp_all add: direct_objs_def into_value_def)
    have dl: "length ?db = length db" "in_range dof r (length ?db)"
      using assms(12) n r o(2) by (auto simp: in_range_def)
    have "slice ?db (jsize dof) n = frame" using assms(12) n by (simp add: in_range_def)
    moreover obtain d' where "zl_decompress L (dctx s) (jsize tlen) frame = (ZOk (jsize sl), ?src, d')"
      using zl_losslessD(2) [OF assms(2,17)] assms(16) n(3) by metis
    ultimately have call: "decompress_effect L (s\<lparr>cctx := c'\<rparr>) (jsize tlen) (slice ?db (jsize dof) (jsize r))
        = (ZOk (jsize sl), ?src, s\<lparr>cctx := c', dctx := d'\<rparr>)"
      using r o(2) by (simp add: decompress_effect_def)
    have "obj_ok (JDirect ?db)"
      using obj_ok_direct [OF assms(3,11)] dl(1) by (simp add: obj_ok_def)
    then have ok: "jvm_ok w1" "compressor_obj w1 obj h"
      using jvm_ok_update [OF assms(3,11) _ o(1)] compressor_obj_update [OF assms(6,11) o(1)] a
      by (simp_all add: settled_def)
    have "word_of_nat (jsize sl) = sl"
      using assms(10) by (simp add: jsize_def in_range_def jneg_def)
    then show "wp (direct_shape (zlDecompress L) obj dst dof r tgt tof tlen)
      (\<lambda>r w'. r = sl \<and> objs w' tgt = Some (JDirect (overwrite tb (jsize tof) ?src))) (\<lambda>_ _. False) w1"
      using a o assms(7,13-16) n(3)
      by (intro wp_mono [OF decompress_call.direct_returns [OF ok(1) _ _ ok(2) _ _ _ dl(2) _ _ call]])
        (auto simp: settled_def settled_world direct_objs_def into_value_def)
  qed
qed

lemma direct_roundtrip_witness:
  "wp (bnd (compressDirect store_library 1 6 1 3 7 2 6) (\<lambda>r.
        decompressDirect store_library 1 7 2 r 6 0 4))
     (\<lambda>r w'. r = 3 \<and>
        objs w' 6 = Some (JDirect (overwrite [1, 2, 3, 4] (jsize 0) (slice [1, 2, 3, 4] (jsize 1) (jsize 3)))))
     (\<lambda>_ _. False) sample_world"
  by (rule direct_roundtrip [OF store_library_bounded store_library_lossless sample_world_ok
        _ _ sample_compressor, where sb = "[1, 2, 3, 4]" and db = "replicate 8 0"
        and s = "initial_state store_library 10" and n = 4 and frame = "[0, 2, 3, 4]" and c' = "()"])
    (simp_all add: sample_world_simps in_range_def jneg_def jsize_def slice_def store_library_def)

end
