(* ===== verification/Frame_Metadata.thy ===== *)
theory Frame_Metadata
  imports Compressor_Direct
begin

text \<open>
  \<open>JNI/compressor/OpenZLCompressorMetadata.cpp\<close>: the description of a frame as six
  \<open>jlong\<close> values.  The values of reports are \<open>size_t\<close>; they are cast to the widths the code
  casts them to, with a \<open>long\<close> of 64 bits.  The reader of frame headers is a parameter: \<open>fi\<close> gives, for the bytes of a
  frame, the reports of the \<open>ZL_FrameInfo\<close> queries or no frame info at all, and \<open>tcode\<close> the
  numbers of the \<open>ZL_Type\<close> enumerators.
\<close>

record frame_info =
  fi_formatVersion :: report
  fi_numOutputs :: report
  fi_decompressedSize :: report
  fi_outputType :: report
  fi_numElts :: report

section \<open>Definitions\<close>

text \<open>The type of the output is an \<open>int\<close> cast to the enumeration.\<close>

definition inferGraphOrdinal :: "(zl_type \<Rightarrow> nat) \<Rightarrow> jint \<Rightarrow> nat \<Rightarrow> nat \<Rightarrow> jint" where
  "inferGraphOrdinal tcode outputType compressedSize decompressedSize =
     (if compressedSize = decompressedSize \<and> decompressedSize > 0 then 3
      else if outputType = word_of_nat (tcode ZL_numeric) then 2
      else if outputType = word_of_nat (tcode ZL_struct) then 1
      else if outputType = word_of_nat (tcode ZL_string) then 7
      else 0)"

definition frameInfoCreate :: "(bytes \<Rightarrow> frame_info option) \<Rightarrow> bytes
    \<Rightarrow> (('k, 'c, 'd) world, frame_info option) act" where
  "frameInfoCreate fi bs = (case fi bs of
      None \<Rightarrow> ret None
    | Some i \<Rightarrow> seq (modify (\<lambda>w. w\<lparr>live_frames := Suc (live_frames w)\<rparr>)) (ret (Some i)))"

definition frameInfoFree :: "(('k, 'c, 'd) world, unit) act" where
  "frameInfoFree = modify (\<lambda>w. w\<lparr>live_frames := live_frames w - 1\<rparr>)"

definition describeFrameInternal :: "(zl_type \<Rightarrow> nat) \<Rightarrow> (bytes \<Rightarrow> frame_info option) \<Rightarrow> bytes
    \<Rightarrow> (('k, 'c, 'd) world, nat) act" where
  "describeFrameInternal tcode fi bs =
     bnd (frameInfoCreate fi bs) (\<lambda>frameInfo. case frameInfo of
       None \<Rightarrow> seq (throwCached IllegalStateException ''Failed to create frame info'') (ret 0)
     | Some i \<Rightarrow>
     if zl_isError (fi_formatVersion i) then seq frameInfoFree (seq
       (throwCached IllegalStateException ''Unable to read frame format version'') (ret 0)) else
     if zl_isError (fi_numOutputs i) then seq frameInfoFree (seq
       (throwCached IllegalStateException ''Unable to read frame outputs'') (ret 0)) else
     if zl_value (fi_numOutputs i) = 0 then seq frameInfoFree (seq
       (throwCached IllegalStateException ''Frame does not expose outputs'') (ret 0)) else
     if zl_isError (fi_decompressedSize i) then seq frameInfoFree (seq
       (throwCached IllegalStateException ''Unable to determine decompressed size'') (ret 0)) else
     let decompressedSize = zl_value (fi_decompressedSize i) in
     if zl_isError (fi_outputType i) then seq frameInfoFree (seq
       (throwCached IllegalStateException ''Unable to determine output type'') (ret 0)) else
     let outputType = word_of_nat (zl_value (fi_outputType i)) :: jint;
         elementCount = (if zl_isError (fi_numElts i) then -1
           else word_of_nat (zl_value (fi_numElts i))) :: jlong;
         graphOrdinal = inferGraphOrdinal tcode outputType (length bs) decompressedSize;
         meta = [word_of_nat decompressedSize, word_of_nat (length bs), scast outputType,
           scast graphOrdinal, elementCount, word_of_nat (zl_value (fi_formatVersion i))] :: u64 list in
     seq frameInfoFree (
     bnd (newLongArray 6) (\<lambda>result.
     if result \<noteq> 0 then seq (setArrayRegion result (JLongArr meta)) (ret result) else ret result)))"

definition describeFrameNative :: "(zl_type \<Rightarrow> nat) \<Rightarrow> (bytes \<Rightarrow> frame_info option) \<Rightarrow> nat
    \<Rightarrow> (('k, 'c, 'd) world, nat) act" where
  "describeFrameNative tcode fi src =
     (if src = 0 then seq (throwCached NullPointerException ''compressed'') (ret 0) else
      bnd (getArrayLength src) (\<lambda>len.
      bnd (getCritical src) (\<lambda>srcPtr. case srcPtr of
        None \<Rightarrow> seq (throwCached OutOfMemoryError ''Unable to access compressed payload'') (ret 0)
      | Some p \<Rightarrow>
      bnd (readPin p 0 (jsize len)) (\<lambda>bs.
      bnd (describeFrameInternal tcode fi bs) (\<lambda>result.
      seq (releaseCritical src p JNI_ABORT) (ret result))))))"

definition describeFrameDirectNative :: "(zl_type \<Rightarrow> nat) \<Rightarrow> (bytes \<Rightarrow> frame_info option) \<Rightarrow> nat
    \<Rightarrow> jint \<Rightarrow> jint \<Rightarrow> (('k, 'c, 'd) world, nat) act" where
  "describeFrameDirectNative tcode fi buffer position len =
     bnd (ensureDirectRange buffer position len ''compressed'') (\<lambda>ok. if \<not> ok then ret 0 else
     bnd (getDirectBufferAddress buffer) (\<lambda>base. case base of
       None \<Rightarrow> ret 0
     | Some b \<Rightarrow>
       bnd (readDirect b (jsize position) (jsize len)) (\<lambda>bs.
       describeFrameInternal tcode fi bs)))"

section \<open>Properties\<close>

text \<open>What a frame description promises: the six values, or the message of the failure.\<close>

definition frame_meta :: "(zl_type \<Rightarrow> nat) \<Rightarrow> frame_info option \<Rightarrow> nat \<Rightarrow> string + u64 list" where
  "frame_meta tcode info csize = (case info of
      None \<Rightarrow> Inl ''Failed to create frame info''
    | Some i \<Rightarrow> (case (fi_formatVersion i, fi_numOutputs i, fi_decompressedSize i, fi_outputType i) of
        (ZErr _, _, _, _) \<Rightarrow> Inl ''Unable to read frame format version''
      | (_, ZErr _, _, _) \<Rightarrow> Inl ''Unable to read frame outputs''
      | (_, ZOk 0, _, _) \<Rightarrow> Inl ''Frame does not expose outputs''
      | (_, _, ZErr _, _) \<Rightarrow> Inl ''Unable to determine decompressed size''
      | (_, _, _, ZErr _) \<Rightarrow> Inl ''Unable to determine output type''
      | (ZOk v, _, ZOk n, ZOk t) \<Rightarrow>
          Inr [word_of_nat n, word_of_nat csize, scast (word_of_nat t :: jint),
            scast (inferGraphOrdinal tcode (word_of_nat t) csize n),
            (case fi_numElts i of ZOk e \<Rightarrow> word_of_nat e | ZErr _ \<Rightarrow> -1), word_of_nat v]))"

lemma zl_report_cases: "zl_isError r \<longleftrightarrow> (\<exists>e. r = ZErr e)"
  by (cases r) simp_all

lemma jsize_six: "jsize 6 = 6" "\<not> jneg 6"
  by (simp_all add: jsize_def jneg_def)

lemma wp_describeFrameInternal:
  fixes w :: "('k, 'c, 'd) world"
  assumes inl: "\<And>m. frame_meta tcode (fi bs) (length bs) = Inl m \<Longrightarrow> Q 0 (thrown IllegalStateException m w)"
    and inr: "\<And>xs. frame_meta tcode (fi bs) (length bs) = Inr xs \<Longrightarrow> length xs = 6 \<Longrightarrow>
      wp (bnd (newLongArray 6) (\<lambda>result.
        if result \<noteq> 0 then seq (setArrayRegion result (JLongArr xs)) (ret result) else ret result)) Q E w"
  shows "wp (describeFrameInternal tcode fi bs) Q E w"
proof (cases "fi bs")
  case None
  then show ?thesis using inl
    by (simp add: describeFrameInternal_def frameInfoCreate_def wp_bnd wp_ret wp_seq wp_throwCached
        frame_meta_def)
next
  case (Some i)
  have freed: "w\<lparr>live_frames := live_frames w\<rparr> = w" by (cases w) simp
  show ?thesis
    using inl inr
    by (cases "fi_formatVersion i"; cases "fi_numOutputs i"; cases "fi_decompressedSize i";
        cases "fi_outputType i"; cases "fi_numElts i"; cases "zl_value (fi_numOutputs i)")
     (simp_all add: describeFrameInternal_def frameInfoCreate_def frameInfoFree_def wp_bnd wp_ret wp_seq
        wp_throwCached wp_modify Let_def frame_meta_def Some freed)
qed

lemma wp_newMeta:
  assumes "length xs = 6" and "pins w = []" and "jvm_ok w"
    and fail: "\<And>w'. same w w' \<Longrightarrow> pending w' \<noteq> None \<Longrightarrow> Q 0 w'"
    and new: "\<And>w'. next_ref w \<noteq> 0 \<Longrightarrow> jvm.more w' = jvm.more w \<Longrightarrow> pins w' = [] \<Longrightarrow>
      misuse w' = misuse w \<Longrightarrow> objs w' = (objs w)(next_ref w \<mapsto> JLongArr xs) \<Longrightarrow> Q (next_ref w) w'"
  shows "wp (bnd (newLongArray 6) (\<lambda>result.
    if result \<noteq> 0 then seq (setArrayRegion result (JLongArr xs)) (ret result) else ret result)) Q E w"
proof -
  have "next_ref w \<noteq> 0" using assms(3) by (simp add: jvm_ok_def)
  moreover have "same w ((consume w)\<lparr>pending := p\<rparr>)" for p
    by (rule same_pending) (rule same_consume)
  ultimately show ?thesis
    using assms
    by (simp add: newLongArray_def wp_simps jsize_six overwrite_obj_def overwrite_full)
qed

text \<open>C8. With the exception classes cached, \<open>describeFrameDirectNative\<close> answers a range inside a
  direct buffer with the six values of the frame, or with null and an \<open>IllegalStateException\<close>
  naming the query that failed (or the failed allocation), refuses any other argument with null
  and an exception, frees the frame info on every path and makes no forbidden JNI call.\<close>

lemma describeDirect_spec:
  assumes "jvm_ok w" and "pins w = []" and "class_refs w IllegalStateException"
  shows "wp (describeFrameDirectNative tcode fi buf pos len)
     (\<lambda>r w'. live_frames w' = live_frames w \<and> misuse w' = misuse w \<and>
        (case objs w buf of Some (JDirect bs) \<Rightarrow>
           if in_range pos len (length bs) then
             (case frame_meta tcode (fi (slice bs (jsize pos) (jsize len))) (jsize len) of
                Inr xs \<Rightarrow> objs w' r = Some (JLongArr xs) \<or> r = 0 \<and> pending w' \<noteq> None
              | Inl m \<Rightarrow> r = 0 \<and> pending w' = Some (IllegalStateException, m))
           else r = 0 \<and> pending w' \<noteq> None
         | _ \<Rightarrow> r = 0 \<and> pending w' \<noteq> None))
     (\<lambda>_ _. False) w"
proof (cases "\<exists>bs. objs w buf = Some (JDirect bs) \<and> in_range pos len (length bs)")
  case True
  then obtain bs where bs: "objs w buf = Some (JDirect bs)" "in_range pos len (length bs)" by blast
  have nz: "buf \<noteq> 0" using assms(1) bs(1) by (auto intro: gr0I)
  have len: "length (slice bs (jsize pos) (jsize len)) = jsize len"
    and neg: "\<not> jneg pos" "\<not> jneg len" "jsize pos + jsize len \<le> length bs"
    using bs(2) by (simp_all add: in_range_def)
  show ?thesis
    unfolding describeFrameDirectNative_def
    apply (simp add: wp_bnd wp_ensureDirectRange [OF assms(1,2)] bs nz neg wp_if
        wp_getDirectBufferAddress assms(2) wp_readDirect)
    apply (rule wp_describeFrameInternal)
     apply (simp add: len thrown_pending assms)
    apply (rule wp_newMeta)
        apply (simp_all add: assms len same_world same_facts)
    apply (drule world_of_more(8), simp)
    done
next
  case False
  have m: "misuse (thrown e t w) = misuse w" "live_frames (thrown e t w) = live_frames w" for e t
    using assms(2) by simp_all
  have e: "\<exists>a b. pending (thrown e t w) = Some (a, b)" for e t
    using thrown_simps(10) [of e t w] by (cases "pending (thrown e t w)") (simp_all del: thrown_simps)
  show ?thesis
    unfolding describeFrameDirectNative_def wp_bnd wp_ensureDirectRange [OF assms(1,2)]
    using False assms(1)
    by (cases "objs w buf"; cases "the (objs w buf)") (simp_all add: wp_if wp_ret m e touch_idle [OF assms(2)] in_range_def, auto)
qed

text \<open>A numeric frame of 400 bytes whose type is reported with bits beyond the \<open>int\<close> it is cast to.\<close>

definition sample_info :: frame_info where
  "sample_info = \<lparr>fi_formatVersion = ZOk 21, fi_numOutputs = ZOk 1, fi_decompressedSize = ZOk 400,
     fi_outputType = ZOk 4294967300, fi_numElts = ZOk 100\<rparr>"

definition sample_codes :: "zl_type \<Rightarrow> nat" where
  "sample_codes t = (case t of ZL_serial \<Rightarrow> 1 | ZL_struct \<Rightarrow> 2 | ZL_numeric \<Rightarrow> 4 | ZL_string \<Rightarrow> 8)"

lemma sample_meta: "frame_meta sample_codes (Some sample_info) 2 = Inr [400, 2, 4, 2, 100, 21]"
  by (simp add: frame_meta_def sample_info_def sample_codes_def inferGraphOrdinal_def)

lemma describeDirect_spec_witness:
  "wp (describeFrameDirectNative sample_codes (\<lambda>_. Some sample_info) 6 1 2)
     (\<lambda>r w'. live_frames w' = live_frames sample_world \<and> misuse w' = misuse sample_world \<and>
        (objs w' r = Some (JLongArr [400, 2, 4, 2, 100, 21]) \<or> r = 0 \<and> pending w' \<noteq> None))
     (\<lambda>_ _. False) sample_world"
proof -
  have "objs sample_world 6 = Some (JDirect [1, 2, 3, 4])" "class_refs sample_world IllegalStateException"
    "pins sample_world = []" by (simp_all add: sample_world_def)
  moreover have "in_range 1 2 (length [1, 2, 3, 4 :: u8])" "jsize (2 :: jint) = 2"
    by (simp_all add: in_range_def jneg_def jsize_def)
  ultimately show ?thesis
    using describeDirect_spec [OF sample_world_ok, of sample_codes "\<lambda>_. Some sample_info" 6 1 2]
    by (simp add: sample_meta)
qed

text \<open>C9. Once \<open>describeFrameNative\<close> has pinned its argument, it makes a JNI call inside the
  critical region on every path, whether it answers or raises an exception.\<close>

lemma describeNative_misuse:
  assumes "jvm_ok w" and "pins w = []" and "objs w src = Some (JByteArr bs)" and "\<not> next_fault w"
  shows "wp (describeFrameNative tcode fi src) (\<lambda>_ w'. misuse w' \<and> pins w' = []) (\<lambda>_ _. False) w"
proof -
  have nz: "src \<noteq> 0" using assms(1,3) by (auto intro: gr0I)
  have len: "length bs \<le> 2147483647" using obj_ok_length [OF assms(1,3)] by simp
  have p: "find_pin p (v\<lparr>misuse := m\<rparr>) = find_pin p v" "find_pin p (v\<lparr>pending := q\<rparr>) = find_pin p v"
      "find_pin p (v\<lparr>objs := b\<rparr>) = find_pin p v" "find_pin p (consume v) = find_pin p v"
      "find_pin p (allocated x v) = find_pin p v" "find_pin p (thrown e t v) = find_pin p v"
    for v :: "('a, 'b, 'c) world" and p m q b x e t
    by (simp_all add: find_pin_def)
  have f: "find_pin (next_pin w) (pinned src bs (consume w)) = Some (hd (pins (pinned src bs (consume w))))"
    by (simp add: find_pin_def)
  have n: "next_ref w \<noteq> 0" using assms(1) by (simp add: jvm_ok_def)
  show ?thesis
    unfolding describeFrameNative_def
    apply (simp add: nz wp_bnd wp_getArrayLength assms len wp_getCritical wp_readPin f pin_bytes_def heap_bytes_def)
    apply (rule wp_describeFrameInternal)
     apply (simp add: wp_simps p f assms(2) touch_def slice_def)
    apply (simp add: wp_simps newLongArray_def jsize_six p f touch_def n overwrite_obj_def overwrite_full assms(2))
    done
qed

lemma describeNative_misuse_witness:
  "wp (describeFrameNative (\<lambda>_. 0) (\<lambda>_. None) 2) (\<lambda>_ w'. misuse w' \<and> pins w' = []) (\<lambda>_ _. False) sample_world"
  by (rule describeNative_misuse [OF sample_world_ok])
    (simp_all add: sample_world_simps next_fault_def)

end
