(* ===== verification/Compressor_Numeric.thy ===== *)
theory Compressor_Numeric
  imports Compressor_Arrays
begin

text \<open>
  \<open>JNI/compressor/OpenZLCompressorNumeric.cpp\<close>: compression of \<open>int\<close>, \<open>long\<close>, \<open>float\<close> and
  \<open>double\<close> arrays as numeric streams.  The four methods of a direction differ in the element
  width, the array type and the messages, which are arguments of one definition; an element
  array in memory is its little-endian bytes.
\<close>

section \<open>Elements in memory\<close>

definition jint_bytes :: "jobj \<Rightarrow> bytes option" where
  "jint_bytes x = (case x of JIntArr xs \<Rightarrow> Some (concat (map bytes32 xs)) | _ \<Rightarrow> None)"

definition jlong_bytes :: "jobj \<Rightarrow> bytes option" where
  "jlong_bytes x = (case x of JLongArr xs \<Rightarrow> Some (concat (map bytes64 xs)) | _ \<Rightarrow> None)"

definition jfloat_bytes :: "jobj \<Rightarrow> bytes option" where
  "jfloat_bytes x = (case x of JFloatArr xs \<Rightarrow> Some (concat (map bytes32 xs)) | _ \<Rightarrow> None)"

definition jdouble_bytes :: "jobj \<Rightarrow> bytes option" where
  "jdouble_bytes x = (case x of JDoubleArr xs \<Rightarrow> Some (concat (map bytes64 xs)) | _ \<Rightarrow> None)"

section \<open>Compression\<close>

definition zlCompressTyped :: "('k, 'c, 'd) zl \<Rightarrow> nat \<Rightarrow> nat \<Rightarrow> nat \<Rightarrow> nat \<Rightarrow> bytes
    \<Rightarrow> (('k, 'c, 'd) world, report \<times> bytes) act" where
  "zlCompressTyped L h cap width n src = on_state h (\<lambda>s.
     case zl_compressTyped L (compressor s) (cctx s) cap width n src of
       (r, out, c') \<Rightarrow> (Ret (r, out), s\<lparr>cctx := c'\<rparr>))"

definition compressNumericCommon :: "('k, 'c, 'd) zl \<Rightarrow> nat \<Rightarrow> bytes \<Rightarrow> nat \<Rightarrow> nat
    \<Rightarrow> (('k, 'c, 'd) world, nat) act" where
  "compressNumericCommon L state data elementSize elementCount =
     (let totalSize = elementSize * elementCount;
          bound = zl_compressBound L totalSize in
     seq (ensureScratch state bound) (
     bnd fault (\<lambda>noRef. if noRef then
       seq (throwCached OutOfMemoryError ''Failed to allocate numeric typed reference'') (ret 0)
     else
     bnd (zlCompressTyped L state bound elementSize elementCount data) (\<lambda>(report, out).
     seq (writeScratch state out) (
     if zl_isError report then ret 0 else
     let produced = zl_value report in
     seq (setScratchSize state produced) (
     bnd (newByteArray (word_of_nat produced)) (\<lambda>result.
     if result \<noteq> 0 \<and> produced > 0 then
       bnd (readScratch state (jsize (word_of_nat produced))) (\<lambda>bs.
       seq (setArrayRegion result (JByteArr bs)) (ret result))
     else ret result)))))))"

definition compressNumericNative :: "(jobj \<Rightarrow> bytes option) \<Rightarrow> nat \<Rightarrow> string \<Rightarrow> ('k, 'c, 'd) zl
    \<Rightarrow> nat \<Rightarrow> nat \<Rightarrow> (('k, 'c, 'd) world, nat) act" where
  "compressNumericNative mem width noAccess L obj data =
     bnd (getState obj) (\<lambda>state. if \<not> ensureState state then ret 0 else
     bnd (getArrayLength data) (\<lambda>len.
     bnd (getElements data) (\<lambda>elements. case elements of
       None \<Rightarrow> seq (throwCached OutOfMemoryError noAccess) (ret 0)
     | Some x \<Rightarrow> (case mem x of
         None \<Rightarrow> undef
       | Some bs \<Rightarrow>
         bnd (compressNumericCommon L state bs width (jsize len)) (\<lambda>result.
         seq (releaseElements data) (ret result))))))"

definition compressIntsNative :: "('k, 'c, 'd) zl \<Rightarrow> nat \<Rightarrow> nat \<Rightarrow> (('k, 'c, 'd) world, nat) act" where
  "compressIntsNative = compressNumericNative jint_bytes 4 ''Unable to access int array''"

definition compressLongsNative :: "('k, 'c, 'd) zl \<Rightarrow> nat \<Rightarrow> nat \<Rightarrow> (('k, 'c, 'd) world, nat) act" where
  "compressLongsNative = compressNumericNative jlong_bytes 8 ''Unable to access long array''"

definition compressFloatsNative :: "('k, 'c, 'd) zl \<Rightarrow> nat \<Rightarrow> nat \<Rightarrow> (('k, 'c, 'd) world, nat) act" where
  "compressFloatsNative = compressNumericNative jfloat_bytes 4 ''Unable to access float array''"

definition compressDoublesNative :: "('k, 'c, 'd) zl \<Rightarrow> nat \<Rightarrow> nat \<Rightarrow> (('k, 'c, 'd) world, nat) act" where
  "compressDoublesNative = compressNumericNative jdouble_bytes 8 ''Unable to access double array''"

section \<open>Decompression\<close>

text \<open>\<open>std::vector::resize\<close> of an empty vector of elements of \<open>width\<close> bytes.\<close>

definition vector_resize :: "nat \<Rightarrow> nat \<Rightarrow> ('z jvm_scheme, bytes) act" where
  "vector_resize width n =
     (if n > PTRDIFF_MAX div width then throw LengthError
      else bnd fault (\<lambda>f. if f then throw BadAlloc else ret (replicate (n * width) 0)))"

definition zlDecompressTyped :: "('k, 'c, 'd) zl \<Rightarrow> nat \<Rightarrow> bytes \<Rightarrow> bytes
    \<Rightarrow> (('k, 'c, 'd) world, report \<times> outinfo \<times> bytes) act" where
  "zlDecompressTyped L h buffer src = on_state h (\<lambda>s.
     case zl_decompressTyped L (dctx s) (length buffer) src of
       (r, i, out, d') \<Rightarrow>
         (if length out \<le> length buffer then Ret (r, i, overwrite buffer 0 out) else Undef,
          s\<lparr>dctx := d'\<rparr>))"

text \<open>The elements are read from the buffer: more than it holds is undefined.\<close>

definition returnElements :: "(bytes \<Rightarrow> jobj) \<Rightarrow> nat \<Rightarrow> nat \<Rightarrow> bytes \<Rightarrow> ('z jvm_scheme, nat) act" where
  "returnElements mk width elementCount buffer =
     bnd (newArray (\<lambda>n. mk (replicate (n * width) 0)) (word_of_nat elementCount)) (\<lambda>result.
     if result \<noteq> 0 \<and> elementCount > 0 then
       if width * elementCount \<le> length buffer then
         seq (setArrayRegion result (mk (take (width * elementCount) buffer))) (ret result)
       else undef
     else ret result)"

definition decompressNumericNative :: "bool \<Rightarrow> (bytes \<Rightarrow> jobj) \<Rightarrow> nat \<Rightarrow> string \<Rightarrow> ('k, 'c, 'd) zl
    \<Rightarrow> nat \<Rightarrow> nat \<Rightarrow> (('k, 'c, 'd) world, nat) act" where
  "decompressNumericNative nullChecked mk width notArray L obj src =
     bnd (getState obj) (\<lambda>state. if \<not> ensureState state then ret 0 else
     if nullChecked \<and> src = 0 then
       seq (throwCached NullPointerException ''compressed'') (ret 0) else
     bnd (getArrayLength src) (\<lambda>len.
     bnd (getCritical src) (\<lambda>srcPtr. case srcPtr of
       None \<Rightarrow> seq (throwCached OutOfMemoryError ''Unable to access compressed payload'') (ret 0)
     | Some sp \<Rightarrow>
     bnd (readPin sp 0 (jsize len)) (\<lambda>bytes.
     let sizeReport = zl_getDecompressedSize L bytes in
     if zl_isError sizeReport then seq (releaseCritical src sp JNI_ABORT) (ret 0) else
     let elementCapacity = max 1 (zl_value sizeReport div width) in
     bnd (try_catch
        (bnd (vector_resize width elementCapacity) (\<lambda>buffer.
         bnd (zlDecompressTyped L state buffer bytes) (\<lambda>r. ret (Some r))))
        (\<lambda>e. if e = BadAlloc then
             seq (releaseCritical src sp JNI_ABORT)
            (seq (throwCached OutOfMemoryError ''Failed to allocate decompression buffer'') (ret None))
          else throw e)) (\<lambda>outcome. case outcome of
       None \<Rightarrow> ret 0
     | Some (report, info, buffer) \<Rightarrow>
     seq (releaseCritical src sp JNI_ABORT) (
     if zl_isError report then ret 0 else
     if oi_type info \<noteq> ZL_numeric \<or> oi_width info \<noteq> width then
       seq (throwCached IllegalStateException notArray) (ret 0) else
     let elementCount = oi_numElts info in
     if elementCount > 2147483647 then
       seq (throwCached IllegalStateException ''Decompressed array is too large'') (ret 0)
     else returnElements mk width elementCount buffer))))))"

definition decompressIntsNative :: "('k, 'c, 'd) zl \<Rightarrow> nat \<Rightarrow> nat \<Rightarrow> (('k, 'c, 'd) world, nat) act" where
  "decompressIntsNative = decompressNumericNative False (\<lambda>bs. JIntArr (words32 bs)) 4
     ''Compressed stream is not an int array''"

definition decompressLongsNative :: "('k, 'c, 'd) zl \<Rightarrow> nat \<Rightarrow> nat \<Rightarrow> (('k, 'c, 'd) world, nat) act" where
  "decompressLongsNative = decompressNumericNative True (\<lambda>bs. JLongArr (words64 bs)) 8
     ''Compressed stream is not a long array''"

definition decompressFloatsNative :: "('k, 'c, 'd) zl \<Rightarrow> nat \<Rightarrow> nat \<Rightarrow> (('k, 'c, 'd) world, nat) act" where
  "decompressFloatsNative = decompressNumericNative True (\<lambda>bs. JFloatArr (words32 bs)) 4
     ''Compressed stream is not a float array''"

definition decompressDoublesNative :: "('k, 'c, 'd) zl \<Rightarrow> nat \<Rightarrow> nat \<Rightarrow> (('k, 'c, 'd) world, nat) act" where
  "decompressDoublesNative = decompressNumericNative True (\<lambda>bs. JDoubleArr (words64 bs)) 8
     ''Compressed stream is not a double array''"

section \<open>Runs without failures\<close>

lemma wp_numericResult:
  assumes "natives w h = Some s" "scratch_ok (outputScratch s)" "length out \<le> sc_capacity (outputScratch s)"
    "length out \<le> 2147483647" "next_ref w \<noteq> 0"
    and "out \<noteq> [] \<longrightarrow> (\<exists>buf. sc_data (outputScratch s) = Some buf \<and> take (length out) buf = out)"
    and "pins w = []" "faults w = []"
  shows "wp (seq (setScratchSize h (length out)) (
     bnd (newByteArray (word_of_nat (length out))) (\<lambda>result.
     if 0 < result \<and> out \<noteq> [] then
       bnd (readScratch h (jsize (word_of_nat (length out)))) (\<lambda>bs.
       seq (setArrayRegion result (JByteArr bs)) (ret result))
     else ret result))) (\<lambda>r w'. r = next_ref w \<and> handed h out w w' \<and> borrowed w' = borrowed w) E w"
proof -
  note f = no_fault [OF assms(8)]
  have ok: "scratch_ok (outputScratch s\<lparr>sc_size := n\<rparr>)" for n
    using assms(2) by (simp add: scratch_ok_def split: option.splits)
  show ?thesis
  proof (cases "out = []")
    case True
    then show ?thesis using assms ok
      by (simp add: setScratchSize_def newByteArray_def wp_simps f jint_zero next_fault_def consume_none
         handed_def scratch_setSize_def) (auto simp: allocated_def) 
  next
    case False
    then obtain buf where b: "sc_data (outputScratch s) = Some buf" "take (length out) buf = out"
      using assms(6) by auto
    then have l: "length out \<le> length buf" by (metis length_take min.cobounded1)
    show ?thesis using assms(1-5,7,8) False b l ok
      by (simp add: setScratchSize_def newByteArray_def wp_simps f scratch_setSize_def
          readScratch_def overwrite_obj_def overwrite_full next_fault_def consume_none handed_def) (auto simp: allocated_def)
  qed
qed

lemma wp_zlCompressTyped:
  "wp (zlCompressTyped L h cap width n src) Q E w = (case natives w h of None \<Rightarrow> False
    | Some s \<Rightarrow> (case zl_compressTyped L (compressor s) (cctx s) cap width n src of
        (r, out, c') \<Rightarrow> Q (r, out) (w\<lparr>natives := (natives w)(h \<mapsto> s\<lparr>cctx := c'\<rparr>)\<rparr>)))"
  by (simp add: zlCompressTyped_def wp_simps) (simp add: wp_def split: option.splits prod.splits)

lemma common_returns:
  fixes w :: "('k, 'c, 'd) world"
  assumes h: "natives w h = Some s" "scratch_ok (outputScratch s)" and f: "faults w = []" and p: "pins w = []" and n0: "next_ref w \<noteq> 0"
    and call: "zl_compressTyped L (compressor s) (cctx s) (zl_compressBound L (width * n)) width n data = (ZOk (length out), out, c')"
    and out: "length out \<le> zl_compressBound L (width * n)" "length out \<le> 2147483647"
      "zl_compressBound L (width * n) \<le> PTRDIFF_MAX"
  shows "wp (compressNumericCommon L h data width n)
    (\<lambda>r w'. r = next_ref w \<and> handed h out w w' \<and> borrowed w' = borrowed w) E w"
  unfolding compressNumericCommon_def Let_def wp_seq
  apply (rule wp_ensureScratch [where s = s])
      apply (simp_all add: h f out)
  subgoal for b w1
    apply (simp add: wp_bnd wp_fault no_fault wp_if consume_none)
    apply (simp add: wp_zlCompressTyped same_world [of _ w1] call wp_seq)
    apply (rule wp_writeScratch [where s = "s\<lparr>outputScratch := b, cctx := c'\<rparr>"])
       apply (simp_all add: wp_if cong: if_cong)
    using out apply simp
    unfolding wp_seq [symmetric]
    apply (rule wp_mono [OF wp_numericResult [where h = h]])
    apply simp_all
    using out n0 p f
    apply (simp_all add: same_facts [of _ w1] handed_def)
    apply (auto simp: same_def)
    done
  done

text \<open>What the methods need of an element type and its bytes in memory.\<close>

locale element_codec =
  fixes mem :: "jobj \<Rightarrow> bytes option" and mk :: "bytes \<Rightarrow> jobj" and width :: nat
  assumes width_pos: "0 < width"
    and mem_mk: "mem x = Some bs \<Longrightarrow> mk bs = x"
    and mem_length: "mem x = Some bs \<Longrightarrow> \<exists>n. array_length x = Some n \<and> length bs = width * n"
    and mk_overwrite: "length bs = length cs \<Longrightarrow> overwrite_obj (mk bs) (mk cs) = Some (mk cs)"

lemma length_words64: "length (words64 bs) = length bs div 8"
  by (induction bs rule: words64.induct) auto

interpretation int_codec: element_codec jint_bytes "\<lambda>bs. JIntArr (words32 bs)" 4
  by unfold_locales
    (auto simp: jint_bytes_def overwrite_obj_def overwrite_full length_words32 split: jobj.splits)

interpretation long_codec: element_codec jlong_bytes "\<lambda>bs. JLongArr (words64 bs)" 8
  by unfold_locales
    (auto simp: jlong_bytes_def overwrite_obj_def overwrite_full length_words64 split: jobj.splits)

interpretation float_codec: element_codec jfloat_bytes "\<lambda>bs. JFloatArr (words32 bs)" 4
  by unfold_locales
    (auto simp: jfloat_bytes_def overwrite_obj_def overwrite_full length_words32 split: jobj.splits)

interpretation double_codec: element_codec jdouble_bytes "\<lambda>bs. JDoubleArr (words64 bs)" 8
  by unfold_locales
    (auto simp: jdouble_bytes_def overwrite_obj_def overwrite_full length_words64 split: jobj.splits)

context element_codec
begin

lemma elements_compressed:
  fixes w :: "('k, 'c, 'd) world"
  assumes ok: "jvm_ok w" "pins w = []" "faults w = []"
    and obj: "compressor_obj w obj h" and h: "h \<noteq> 0" "natives w h = Some s" "scratch_ok (outputScratch s)"
    and data: "objs w data = Some x" "mem x = Some bs" "array_length x = Some n"
    and call: "zl_compressTyped L (compressor s) (cctx s) (zl_compressBound L (width * n)) width n bs
      = (ZOk (length out), out, c')"
    and out: "length out \<le> zl_compressBound L (width * n)" "length out \<le> 2147483647"
      "zl_compressBound L (width * n) \<le> PTRDIFF_MAX"
  shows "wp (compressNumericNative mem width msg L obj data)
    (\<lambda>r w'. r = next_ref w \<and> handed h out w w' \<and> borrowed w' = borrowed w) E w"
proof -
  have n: "n \<le> 2147483647" by (rule obj_ok_length [OF ok(1) data(1,3)])
  have n0: "next_ref w \<noteq> 0" using ok(1) by (simp add: jvm_ok_def)
  show ?thesis
    unfolding compressNumericNative_def
    apply (rule run_state [OF same_refl obj ok(2,3) h(1)])
    apply (erule run_length [OF _ ok(2) data(1,3)])
    subgoal for w1
      apply (drule same_eqs, elim conjE)
      apply (simp add: wp_bnd wp_getElements data ok no_fault consume_none jint_of_nat n)
      apply (rule wp_mono [OF common_returns [OF _ h(3) _ _ _ call out]])
          apply (simp_all add: h ok wp_seq wp_releaseElements wp_ret n0 [simplified])
      apply (auto simp: handed_def)
      done
    done
qed

lemma wp_returnElements:
  assumes "mem x = Some bs" and "length bs = width * n" and "n \<le> 2147483647" and "pins w = []"
    and "faults w = []" and "next_ref w \<noteq> 0" and "length buffer \<ge> width * n" and "take (width * n) buffer = bs"
  shows "wp (returnElements mk width n buffer)
    (\<lambda>r w'. r = next_ref w \<and> objs w' = (objs w)(next_ref w \<mapsto> x) \<and> pins w' = [] \<and> misuse w' = misuse w
       \<and> next_ref w' = Suc (next_ref w) \<and> faults w' = []) E w"
proof (cases "n = 0")
  case True
  with assms(1,2) mem_mk [OF assms(1)] have "mk [] = x" by simp
  with True assms(3-6) show ?thesis
    by (simp add: returnElements_def wp_simps jint_zero no_fault consume_none)
next
  case False
  have "overwrite_obj (mk (replicate (n * width) 0)) (mk bs) = Some x"
    using mk_overwrite [of "replicate (n * width) 0" bs] assms(2) mem_mk [OF assms(1)]
    by (simp add: mult.commute)
  with False assms(3-8) show ?thesis
    by (simp add: returnElements_def wp_simps no_fault consume_none)
qed

lemma wp_zlDecompressTyped:
  "wp (zlDecompressTyped L h buffer src) Q E w = (case natives w h of None \<Rightarrow> False
    | Some s \<Rightarrow> (case zl_decompressTyped L (dctx s) (length buffer) src of
        (r, i, out, d') \<Rightarrow> length out \<le> length buffer \<and>
          Q (r, i, overwrite buffer 0 out) (w\<lparr>natives := (natives w)(h \<mapsto> s\<lparr>dctx := d'\<rparr>)\<rparr>)))"
  by (simp add: zlDecompressTyped_def wp_simps) (simp add: wp_def split: option.splits prod.splits)

lemma elements_decompressed:
  fixes w :: "('k, 'c, 'd) world"
  assumes ok: "jvm_ok w" "pins w = []" "faults w = []"
    and obj: "compressor_obj w obj h" and h: "h \<noteq> 0" "natives w h = Some s"
    and src: "objs w src = Some (JByteArr fb)"
    and x: "mem x = Some bs" "array_length x = Some n" "n \<le> 2147483647" "length bs = width * n"
    and size: "zl_getDecompressedSize L fb = ZOk (length bs)" "max 1 n * width \<le> PTRDIFF_MAX"
    and call: "\<And>cap. length bs \<le> cap \<Longrightarrow> \<exists>d'. zl_decompressTyped L (dctx s) cap fb
      = (ZOk (length bs), \<lparr>oi_type = ZL_numeric, oi_width = width, oi_numElts = n\<rparr>, bs, d')"
  shows "wp (decompressNumericNative chk mk width msg L obj src)
    (\<lambda>r w'. r = next_ref w \<and> objs w' = (objs w)(next_ref w \<mapsto> x) \<and> pins w' = [] \<and> misuse w' = misuse w) E w"
proof -
  have nz: "src \<noteq> 0" using ok(1) src by (auto intro: gr0I)
  have len: "length fb \<le> 2147483647" using obj_ok_length [OF ok(1) src] by simp
  have n0: "next_ref w \<noteq> 0" using ok(1) by (simp add: jvm_ok_def)
  define N where "N = max 1 n"
  have cap: "max (Suc 0) (length bs div width) = N" using x(4) width_pos by (simp add: N_def)
  have le: "length bs \<le> N * width" using x(4) by (simp add: mult.commute N_def)
  have fit: "N \<le> PTRDIFF_MAX div width"
    using div_le_mono [OF size(2) [folded N_def], of width] width_pos by simp
  obtain d' where d': "zl_decompressTyped L (dctx s) (N * width) fb
      = (ZOk (length bs), \<lparr>oi_type = ZL_numeric, oi_width = width, oi_numElts = n\<rparr>, bs, d')"
    using call [OF le] by blast
  let ?buf = "overwrite (replicate (N * width) 0) 0 bs"
  have buf: "width * n \<le> length ?buf" "take (width * n) ?buf = bs"
    using le x(4) by (simp_all add: overwrite_def)
  show ?thesis
    unfolding decompressNumericNative_def
    apply (rule run_state [OF same_refl obj ok(2,3) h(1)])
    apply (simp add: nz)
    apply (erule run_length [OF _ ok(2) src array_length.simps(1)])
    apply (erule run_critical [OF _ src], assumption)
    subgoal for w1 w2
      apply (drule same_eqs [of _ w2], elim conjE)
      apply (rule run_readPin [where r = src and bs = fb])
         apply (simp_all add: src len size slice_def Let_def)
      apply (simp add: cap wp_bnd wp_try_catch vector_resize_def wp_if not_less [THEN iffD2, OF fit]
          wp_fault no_fault wp_ret consume_none wp_zlDecompressTyped h d' le wp_seq)
      apply (simp add: not_less [THEN iffD2, OF x(3)] wp_releaseCritical find_pin_def ok
          split: option.split)
      apply (rule wp_mono [OF wp_returnElements [OF x(1,4,3) _ _ _ buf]])
           apply (simp_all add: n0 [simplified] ok)
      done
    done
qed

end

section \<open>Properties\<close>

text \<open>The four element types, their methods and their representation in memory.\<close>

datatype elem_kind = Int_kind | Long_kind | Float_kind | Double_kind

fun kind_compress :: "elem_kind \<Rightarrow> ('k, 'c, 'd) zl \<Rightarrow> nat \<Rightarrow> nat \<Rightarrow> (('k, 'c, 'd) world, nat) act" where
  "kind_compress Int_kind = compressIntsNative"
| "kind_compress Long_kind = compressLongsNative"
| "kind_compress Float_kind = compressFloatsNative"
| "kind_compress Double_kind = compressDoublesNative"

fun kind_decompress :: "elem_kind \<Rightarrow> ('k, 'c, 'd) zl \<Rightarrow> nat \<Rightarrow> nat \<Rightarrow> (('k, 'c, 'd) world, nat) act" where
  "kind_decompress Int_kind = decompressIntsNative"
| "kind_decompress Long_kind = decompressLongsNative"
| "kind_decompress Float_kind = decompressFloatsNative"
| "kind_decompress Double_kind = decompressDoublesNative"

fun kind_bytes :: "elem_kind \<Rightarrow> jobj \<Rightarrow> bytes option" where
  "kind_bytes Int_kind = jint_bytes"
| "kind_bytes Long_kind = jlong_bytes"
| "kind_bytes Float_kind = jfloat_bytes"
| "kind_bytes Double_kind = jdouble_bytes"

fun kind_width :: "elem_kind \<Rightarrow> nat" where
  "kind_width Int_kind = 4"
| "kind_width Long_kind = 8"
| "kind_width Float_kind = 4"
| "kind_width Double_kind = 8"

lemmas kind_compress_returns =
  int_codec.elements_compressed long_codec.elements_compressed
  float_codec.elements_compressed double_codec.elements_compressed

lemmas kind_decompress_returns =
  int_codec.elements_decompressed long_codec.elements_decompressed
  float_codec.elements_decompressed double_codec.elements_decompressed

lemma kind_length:
  assumes "kind_bytes k x = Some bs" and "array_length x = Some n"
  shows "length bs = kind_width k * n"
  using assms int_codec.mem_length [of x bs] long_codec.mem_length [of x bs]
    float_codec.mem_length [of x bs] double_codec.mem_length [of x bs]
  by (cases k) auto

lemma kind_compress_run:
  fixes w :: "('k, 'c, 'd) world"
  assumes "jvm_ok w" "pins w = []" "faults w = []" "compressor_obj w obj h" "h \<noteq> 0"
    "natives w h = Some s" "scratch_ok (outputScratch s)" "objs w data = Some x"
    "kind_bytes k x = Some bs" "array_length x = Some n"
    "zl_compressTyped L (compressor s) (cctx s) (zl_compressBound L (kind_width k * n)) (kind_width k) n bs
      = (ZOk (length out), out, c')" "length out \<le> zl_compressBound L (kind_width k * n)"
    "length out \<le> 2147483647" "zl_compressBound L (kind_width k * n) \<le> PTRDIFF_MAX"
  shows "wp (kind_compress k L obj data)
    (\<lambda>r w'. r = next_ref w \<and> handed h out w w' \<and> borrowed w' = borrowed w) E w"
  using assms
  by (cases k) (simp_all add: compressIntsNative_def compressLongsNative_def
      compressFloatsNative_def compressDoublesNative_def kind_compress_returns)

lemma kind_decompress_run:
  fixes w :: "('k, 'c, 'd) world"
  assumes "jvm_ok w" "pins w = []" "faults w = []" "compressor_obj w obj h" "h \<noteq> 0"
    "natives w h = Some s" "objs w src = Some (JByteArr fb)"
    "kind_bytes k x = Some bs" "array_length x = Some n" "n \<le> 2147483647"
    "length bs = kind_width k * n" "zl_getDecompressedSize L fb = ZOk (length bs)"
    "max 1 n * kind_width k \<le> PTRDIFF_MAX"
    "\<And>cap. length bs \<le> cap \<Longrightarrow> \<exists>d'. zl_decompressTyped L (dctx s) cap fb
      = (ZOk (length bs), \<lparr>oi_type = ZL_numeric, oi_width = kind_width k, oi_numElts = n\<rparr>, bs, d')"
  shows "wp (kind_decompress k L obj src)
    (\<lambda>r w'. r = next_ref w \<and> objs w' = (objs w)(next_ref w \<mapsto> x) \<and> pins w' = [] \<and> misuse w' = misuse w) E w"
proof (cases k)
  case Int_kind
  note run = int_codec.elements_decompressed [OF assms(1-7)]
  show ?thesis unfolding Int_kind kind_decompress.simps decompressIntsNative_def
    by (rule run [OF assms(8-14) [unfolded Int_kind kind_bytes.simps kind_width.simps]])
next
  case Long_kind
  note run = long_codec.elements_decompressed [OF assms(1-7)]
  show ?thesis unfolding Long_kind kind_decompress.simps decompressLongsNative_def
    by (rule run [OF assms(8-14) [unfolded Long_kind kind_bytes.simps kind_width.simps]])
next
  case Float_kind
  note run = float_codec.elements_decompressed [OF assms(1-7)]
  show ?thesis unfolding Float_kind kind_decompress.simps decompressFloatsNative_def
    by (rule run [OF assms(8-14) [unfolded Float_kind kind_bytes.simps kind_width.simps]])
next
  case Double_kind
  note run = double_codec.elements_decompressed [OF assms(1-7)]
  show ?thesis unfolding Double_kind kind_decompress.simps decompressDoublesNative_def
    by (rule run [OF assms(8-14) [unfolded Double_kind kind_bytes.simps kind_width.simps]])
qed

text \<open>C10. For each element type: with no failures, decompressing what the compression method
  returned for an array hands out a new array of the same type and the same elements, and
  leaves nothing pinned or borrowed by the compression.\<close>

lemma numeric_roundtrip:
  assumes "zl_bounded L" and "zl_lossless_numeric L" and "jvm_ok w" and "pins w = []" and "faults w = []"
    and "compressor_obj w obj h" and "h \<noteq> 0" and "natives w h = Some s"
    and "scratch_ok (outputScratch s)" and "objs w data = Some x"
    and "kind_bytes k x = Some bs" and "array_length x = Some n"
    and "zl_compressBound L (kind_width k * n) \<le> 2147483647"
    and "zl_compressTyped L (compressor s) (cctx s) (zl_compressBound L (kind_width k * n)) (kind_width k) n bs
      = (ZOk m, frame, c')"
  shows "wp (bnd (kind_compress k L obj data) (kind_decompress k L obj))
     (\<lambda>r w'. objs w' r = Some x \<and> objs w' data = Some x \<and> r \<noteq> data
        \<and> pins w' = [] \<and> misuse w' = misuse w) (\<lambda>_ _. False) w"
proof -
  have m: "m = length frame" "length frame \<le> zl_compressBound L (kind_width k * n)"
    using zl_boundedD(5,6) [OF assms(1) assms(14)] by simp_all
  have n: "n \<le> 2147483647" by (rule obj_ok_length [OF assms(3,10,12)])
  have bs: "length bs = kind_width k * n" by (rule kind_length [OF assms(11,12)])
  have w: "0 < kind_width k" "max 1 n * kind_width k \<le> PTRDIFF_MAX"
    using n by (cases k; simp add: PTRDIFF_MAX_def)+
  have max: "2147483647 \<le> PTRDIFF_MAX" by (simp add: PTRDIFF_MAX_def)
  have data: "data < next_ref w" by (rule allocated_below [OF assms(3,10)])
  note lossless = zl_lossless_numericD [OF assms(2,14) bs w(1)]
  show ?thesis
    unfolding wp_bnd
  proof (rule wp_mono [OF kind_compress_run [OF assms(3-12)]])
    fix r w1
    assume a: "r = next_ref w \<and> handed h frame w w1 \<and> borrowed w1 = borrowed w"
    then obtain s' where s': "natives w1 h = Some s'" by (auto simp: handed_def)
    have o: "objs w1 = (objs w)(next_ref w \<mapsto> JByteArr frame)" "next_ref w1 = Suc (next_ref w)"
      using a by (simp_all add: handed_def)
    then have "jvm_ok w1" "compressor_obj w1 obj h"
      using m assms(13) jvm_ok_alloc [OF assms(3), of "JByteArr frame" w1]
        compressor_obj_alloc [OF assms(3,6), of w1] by (simp_all add: obj_ok_def)
    then show "wp (kind_decompress k L obj r) (\<lambda>r w'. objs w' r = Some x \<and> objs w' data = Some x
        \<and> r \<noteq> data \<and> pins w' = [] \<and> misuse w' = misuse w) (\<lambda>_ _. False) w1"
      using a o s' assms(7,10) data
      by (intro wp_mono [OF kind_decompress_run [OF _ _ _ _ _ _ _ assms(11,12) n bs lossless(1) w(2) lossless(2)]])
        (auto simp: handed_def)
  qed (use assms m max in auto)
qed

section \<open>Runs with failures\<close>

text \<open>
  The method refuses with null, or its result is a new array of the elements of a numeric
  stream of the right width.
\<close>

definition refused_or_typed :: "(bytes \<Rightarrow> jobj) \<Rightarrow> nat \<Rightarrow> ('k, 'c, 'd) zl \<Rightarrow> ('k, 'c, 'd) world \<Rightarrow> nat \<Rightarrow> bytes \<Rightarrow> nat \<Rightarrow> ('k, 'c, 'd) world \<Rightarrow> bool" where
  "refused_or_typed mk width L w h fb r w' \<longleftrightarrow> pins w' = [] \<and> misuse w' = misuse w \<and>
     (r = 0 \<or> (\<exists>s cap n i out d'. natives w h = Some s \<and>
        zl_decompressTyped L (dctx s) cap fb = (ZOk n, i, out, d') \<and> oi_type i = ZL_numeric \<and>
        oi_width i = width \<and> objs w' = (objs w)(r \<mapsto> mk (take (width * oi_numElts i) out))))"

context element_codec
begin

lemma returnElements_typed:
  fixes w w1 :: "('k, 'c, 'd) world"
  assumes "jvm_ok w" and "pins w1 = []" and "objs w1 = objs w" and "next_ref w1 = next_ref w" and "misuse w1 = misuse w"
    and "natives w h = Some s" "zl_decompressTyped L (dctx s) cap fb = (ZOk n, i, out, d')" "oi_type i = ZL_numeric"
    "oi_width i = width" "width * oi_numElts i \<le> length out" "length out \<le> cap" "oi_numElts i \<le> 2147483647"
  shows "wp (returnElements mk width (oi_numElts i) (overwrite (replicate cap 0) 0 out)) (refused_or_typed mk width L w h fb) E w1"
proof -
  let ?n = "oi_numElts i"
  have n0: "0 < next_ref w" using assms(1) by (simp add: jvm_ok_def)
  have t: "take (width * ?n) (overwrite (replicate cap 0) 0 out) = take (width * ?n) out"
    "width * ?n \<le> length (overwrite (replicate cap 0) 0 out)"
    using assms(10,11) by (simp_all add: overwrite_def)
  have "overwrite_obj (mk (replicate (?n * width) 0)) (mk (take (width * ?n) out)) = Some (mk (take (width * ?n) out))"
    using mk_overwrite assms(10) by (simp add: mult.commute)
  moreover have "refused_or_typed mk width L w h fb (next_ref w) v" if "pins v = []" "misuse v = misuse w"
      "objs v = (objs w)(next_ref w \<mapsto> mk (take (width * ?n) out))" for v :: "('k, 'c, 'd) world"
    using that assms(6-9) unfolding refused_or_typed_def by blast
  moreover have "refused_or_typed mk width L w h fb 0 v" if "pins v = []" "misuse v = misuse w" for v :: "('k, 'c, 'd) world"
    using that by (simp add: refused_or_typed_def)
  ultimately show ?thesis
    using assms(2-5,12) n0 t
    by (cases "?n = 0") (simp_all add: returnElements_def wp_simps jint_zero)
qed

lemma decompress_typed:
  fixes w :: "('k, 'c, 'd) world"
  assumes L: "zl_bounded L" and ok: "jvm_ok w" "pins w = []"
    and obj: "compressor_obj w obj h" and h: "h \<noteq> 0 \<Longrightarrow> natives w h \<noteq> None"
    and src: "src \<noteq> 0 \<Longrightarrow> objs w src = Some (JByteArr fb)" and chk: "src = 0 \<Longrightarrow> chk"
  shows "wp (decompressNumericNative chk mk width msg L obj src) (refused_or_typed mk width L w h fb)
     (\<lambda>e _. e = LengthError) w"
proof -
  have early: "wp (ret 0) (refused_or_typed mk width L w h fb) E w'" if "same w w'" for w' E
    using that ok(2) by (simp add: wp_ret refused_or_typed_def same_facts)
  have exn: "wp (seq (throwCached c m) (ret 0)) (refused_or_typed mk width L w h fb) E w'" if "same w w'" for w' E c m
    using early [OF same_trans [OF that same_thrown]] that ok(2) by (simp add: wp_simps same_facts)
  show ?thesis
    unfolding decompressNumericNative_def
    apply (rule wpi_state [OF same_refl obj ok(2)])
     apply (erule early)
    apply (cases "src = 0")
     apply (simp add: chk exn)
    subgoal premises p for w1
    proof -
      have o: "objs w src = Some (JByteArr fb)" using src p by simp
      have len: "length fb \<le> 2147483647" using obj_ok_length [OF ok(1) o] by simp
      obtain s where s: "natives w h = Some s" using h p by blast
      define N where "N = max (Suc 0) (zl_value (zl_getDecompressedSize L fb) div width)"
      obtain rep i out d' where d': "zl_decompressTyped L (dctx s) (N * width) fb = (rep, i, out, d')"
        by (metis prod_cases4)
      have out: "length out \<le> N * width" "\<not> zl_isError rep \<Longrightarrow> oi_width i * oi_numElts i \<le> length out"
        using zl_boundedD(7,8) [OF L] d' by (auto simp: zl_isError_def split: report.splits)
      show ?thesis
        apply (simp add: p(3))
        apply (rule run_length [OF p(1) ok(2) o array_length.simps(1)])
        apply (erule wpi_critical [OF _ o])
         apply (erule exn)
        subgoal for w2
          apply (drule same_eqs, elim conjE)
          apply (rule run_readPin [where r = src and bs = fb])
             apply (simp_all add: o len slice_def Let_def wp_if)
          apply (intro conjI impI)
           apply (simp add: wp_simps find_pin_def ok refused_or_typed_def)
          apply (simp add: N_def [symmetric] wp_bnd wp_try_catch vector_resize_def wp_if wp_fault wp_ret wp_throw
             wp_zlDecompressTyped s wp_seq d' out)
          apply (intro conjI impI)
            apply (simp add: wp_simps find_pin_def ok refused_or_typed_def)
           apply (simp_all add: wp_simps find_pin_def ok refused_or_typed_def split: option.split)
          apply (simp add: Let_def)
          apply (cases rep)
           apply (intro impI)
           apply (rule returnElements_typed [OF ok(1) _ _ _ _ s])
           using d' out apply (simp_all add: mult.commute ok)
          done
        done
    qed
    done
qed
end

fun kind_mk :: "elem_kind \<Rightarrow> bytes \<Rightarrow> jobj" where
  "kind_mk Int_kind = (\<lambda>bs. JIntArr (words32 bs))"
| "kind_mk Long_kind = (\<lambda>bs. JLongArr (words64 bs))"
| "kind_mk Float_kind = (\<lambda>bs. JFloatArr (words32 bs))"
| "kind_mk Double_kind = (\<lambda>bs. JDoubleArr (words64 bs))"

text \<open>C11. For each element type, any frame and every schedule of failures: the decompression
  shows no undefined behaviour, releases its pin and returns null unless the frame decodes to
  a numeric stream of exactly the element width, whose elements it then hands out; the only
  C++ exception that escapes is \<open>std::length_error\<close>.\<close>

lemma numeric_decompress_safe:
  assumes "zl_bounded L" and "jvm_ok w" and "pins w = []" and "compressor_obj w obj h"
    and "h \<noteq> 0 \<Longrightarrow> natives w h \<noteq> None"
    and "src \<noteq> 0 \<Longrightarrow> objs w src = Some (JByteArr fb)" and "src = 0 \<Longrightarrow> k \<noteq> Int_kind"
  shows "wp (kind_decompress k L obj src) (refused_or_typed (kind_mk k) (kind_width k) L w h fb)
     (\<lambda>e _. e = LengthError) w"
proof (cases k)
  case Int_kind
  then have null: "src = 0 \<Longrightarrow> False" using assms(7) by simp
  show ?thesis unfolding Int_kind kind_decompress.simps decompressIntsNative_def kind_mk.simps kind_width.simps
    by (rule int_codec.decompress_typed [OF assms(1-6) null])
next
  case Long_kind
  show ?thesis unfolding Long_kind kind_decompress.simps decompressLongsNative_def kind_mk.simps kind_width.simps
    by (rule long_codec.decompress_typed [OF assms(1-6) TrueI])
next
  case Float_kind
  show ?thesis unfolding Float_kind kind_decompress.simps decompressFloatsNative_def kind_mk.simps kind_width.simps
    by (rule float_codec.decompress_typed [OF assms(1-6) TrueI])
next
  case Double_kind
  show ?thesis unfolding Double_kind kind_decompress.simps decompressDoublesNative_def kind_mk.simps kind_width.simps
    by (rule double_codec.decompress_typed [OF assms(1-6) TrueI])
qed

lemma numeric_decompress_safe_witness:
  "wp (kind_decompress Long_kind store_library 1 2)
     (refused_or_typed (kind_mk Long_kind) (kind_width Long_kind) store_library sample_world 5 [1, 2, 3, 4])
     (\<lambda>e _. e = LengthError) sample_world"
  by (rule numeric_decompress_safe [OF store_library_bounded sample_world_ok _ sample_compressor])
    (simp_all add: sample_world_simps)

lemma numeric_roundtrip_witness:
  "wp (bnd (kind_compress Int_kind store_library 1 8) (kind_decompress Int_kind store_library 1))
     (\<lambda>r w'. objs w' r = Some (JIntArr [5, 4294967295]) \<and> objs w' 8 = Some (JIntArr [5, 4294967295])
        \<and> r \<noteq> 8 \<and> pins w' = [] \<and> misuse w' = misuse sample_world) (\<lambda>_ _. False) sample_world"
  by (rule numeric_roundtrip [OF store_library_bounded store_library_lossless_numeric sample_world_ok
        _ _ sample_compressor, where s = "initial_state store_library 10" and m = 9 and n = 2
        and bs = "[5, 0, 0, 0, 255, 255, 255, 255]"
        and frame = "[4, 5, 0, 0, 0, 255, 255, 255, 255]" and c' = "()"])
    (simp_all add: sample_world_simps initial_state_def scratch_ok_def store_library_def
      jint_bytes_def bytes32_def)

text \<open>C12. Given null, three of the four methods raise \<open>NullPointerException\<close>; \<open>decompressInts\<close>
  passes the null array to the JNI, which is undefined.\<close>

lemma numeric_decompress_null:
  assumes "objs w 0 = None" and "pins w = []" and "compressor_obj w obj h" and "h \<noteq> 0"
    and "handle_field w" and "class_refs w NullPointerException"
  shows "fst (kind_decompress k L obj 0 w) = (if k = Int_kind then Undef else Ret 0)
    \<and> (k \<noteq> Int_kind \<longrightarrow>
         pending (snd (kind_decompress k L obj 0 w)) = Some (NullPointerException, ''compressed''))"
proof -
  have st: "getState obj w = (Ret h, w)"
    using assms(2,3,5) by (auto simp: getState_def ensureNativeHandleField_def getField_def bnd_def gets_def
        ret_def seq_def jni_def modify_def compressor_obj_def)
  show ?thesis
    using assms
    by (cases k) (simp_all add: decompressIntsNative_def decompressLongsNative_def
      decompressFloatsNative_def decompressDoublesNative_def decompressNumericNative_def
      bnd_def [of "getState obj"] st ensureState_def getArrayLength_def seq_def bnd_def jni_def modify_def
      throwCached_def throwNew_def ref_of_def gets_def raise_def ret_def)
qed

lemma numeric_decompress_null_witness:
  "fst (kind_decompress Int_kind store_library 1 0 sample_world) = Undef
    \<and> fst (kind_decompress Long_kind store_library 1 0 sample_world) = Ret 0
    \<and> pending (snd (kind_decompress Long_kind store_library 1 0 sample_world))
         = Some (NullPointerException, ''compressed'')"
proof -
  have "objs sample_world 0 = None" "pins sample_world = []" "(5::nat) \<noteq> 0" "handle_field sample_world"
    "class_refs sample_world NullPointerException" by (simp_all add: sample_world_def)
  note null = numeric_decompress_null [OF this(1,2) sample_compressor this(3-5), of _ store_library]
  show ?thesis using null [of Int_kind] null [of Long_kind] by simp
qed

end
