(* ===== verification/State_Pool.thy ===== *)
theory State_Pool
  imports Native_Rules
begin

text \<open>
  The life cycle of the native states of a process with many threads: \<open>acquireState\<close> and
  \<open>recycleState\<close> of \<open>JNI/OpenZLNativeSupport.cpp\<close> as the steps of a transition system on the
  process and the list of handles held by live Java compressors.  The global cache is guarded
  by a mutex, so a step is one whole call; \<open>use\<close> stands for any native method that works on
  the state of a held handle.
\<close>

section \<open>The transition system\<close>

inductive pool_step :: "('k, 'c, 'd) zl \<Rightarrow> ('k, 'c, 'd) world \<times> nat list
    \<Rightarrow> ('k, 'c, 'd) world \<times> nat list \<Rightarrow> bool" for L where
  create: "acquireState L g w = (Ret h, w') \<Longrightarrow> pool_step L (w, held) (w', h # held)"
| create_fails: "acquireState L g w = (Throw e, w') \<Longrightarrow> pool_step L (w, held) (w', held)"
| destroy: "h \<in> set held \<Longrightarrow> recycleState L h w = (Ret (), w') \<Longrightarrow>
    pool_step L (w, held) (w', remove1 h held)"
| destroy_fails: "h \<in> set held \<Longrightarrow> recycleState L h w = (Throw e, w') \<Longrightarrow>
    pool_step L (w, held) (w', held)"
| use: "h \<in> set held \<Longrightarrow> pool_step L (w, held) (w\<lparr>natives := (natives w)(h \<mapsto> s)\<rparr>, held)"
| switch: "pool_step L (w, held) (w\<lparr>cur := t\<rparr>, held)"

inductive pool_reach :: "('k, 'c, 'd) zl \<Rightarrow> ('k, 'c, 'd) world \<times> nat list
    \<Rightarrow> ('k, 'c, 'd) world \<times> nat list \<Rightarrow> bool" for L c0 where
  start: "pool_reach L c0 c0"
| later: "pool_reach L c0 c \<Longrightarrow> pool_step L c c' \<Longrightarrow> pool_reach L c0 c'"

inductive_cases pool_stepE: "pool_step L (w, held) c"

section \<open>The invariant\<close>

text \<open>
  Every handle that a Java object, a thread's slot or the global cache holds is the address of
  a live state, and no two of them are the same; the global cache has at most eight entries.
\<close>

definition pool_ok :: "('k, 'c, 'd) world \<times> nat list \<Rightarrow> bool" where
  "pool_ok c \<longleftrightarrow> (case c of (w, held) \<Rightarrow>
     distinct (gcache w @ held) \<and> (\<forall>h \<in> set (gcache w @ held). natives w h \<noteq> None)
     \<and> (\<forall>t. tls w t \<noteq> 0 \<longrightarrow> natives w (tls w t) \<noteq> None \<and> tls w t \<notin> set (gcache w @ held))
     \<and> (\<forall>t u. tls w t = tls w u \<longrightarrow> tls w t \<noteq> 0 \<longrightarrow> t = u)
     \<and> length (gcache w) \<le> MAX_GLOBAL_CACHE
     \<and> natives w 0 = None \<and> 0 < next_addr w \<and> (\<forall>a \<ge> next_addr w. natives w a = None))"

lemma pool_okI:
  assumes "distinct (gcache w @ held)" and "\<And>h. h \<in> set (gcache w @ held) \<Longrightarrow> natives w h \<noteq> None"
    and "\<And>t. tls w t \<noteq> 0 \<Longrightarrow> natives w (tls w t) \<noteq> None \<and> tls w t \<notin> set (gcache w @ held)"
    and "\<And>t u. tls w t = tls w u \<Longrightarrow> tls w t \<noteq> 0 \<Longrightarrow> t = u"
    and "length (gcache w) \<le> MAX_GLOBAL_CACHE" and "natives w 0 = None" and "0 < next_addr w"
    and "\<And>a. next_addr w \<le> a \<Longrightarrow> natives w a = None"
  shows "pool_ok (w, held)"
  using assms by (auto simp: pool_ok_def)

lemma pool_okD:
  assumes "pool_ok (w, held)"
  shows "distinct (gcache w @ held)" "h \<in> set (gcache w @ held) \<Longrightarrow> natives w h \<noteq> None"
    "tls w t \<noteq> 0 \<Longrightarrow> natives w (tls w t) \<noteq> None"
    "tls w t \<noteq> 0 \<Longrightarrow> tls w t \<notin> set (gcache w @ held)"
    "tls w t = tls w u \<Longrightarrow> tls w t \<noteq> 0 \<Longrightarrow> t = u"
    "length (gcache w) \<le> MAX_GLOBAL_CACHE" "natives w 0 = None" "0 < next_addr w"
    "next_addr w \<le> a \<Longrightarrow> natives w a = None"
  using assms by (simp_all add: pool_ok_def)

text \<open>The invariant does not depend on what the live states hold.\<close>

lemma pool_ok_cong:
  assumes "pool_ok (w, held)" and "dom (natives w') = dom (natives w)" and "gcache w' = gcache w"
    and "tls w' = tls w" and "next_addr w' = next_addr w"
  shows "pool_ok (w', held)"
proof -
  have "natives w' a = None \<longleftrightarrow> natives w a = None" for a
    using assms(2) by (metis domIff)
  then show ?thesis using assms by (simp add: pool_ok_def del: not_None_eq)
qed

section \<open>Preservation\<close>

text \<open>A method of a state that shows no undefined behaviour, run on a live state.\<close>

lemma wp_on_live:
  assumes "natives w h \<noteq> None" and "\<And>s. fst (m s) \<noteq> Undef"
    and "\<And>a s. Q a (w\<lparr>natives := (natives w)(h \<mapsto> s)\<rparr>)"
    and "\<And>e s. E e (w\<lparr>natives := (natives w)(h \<mapsto> s)\<rparr>)"
  shows "wp (on_state h m) Q E w"
proof -
  obtain s where s: "natives w h = Some s" using assms(1) by blast
  have "wp m (\<lambda>a s'. Q a (w\<lparr>natives := (natives w)(h \<mapsto> s')\<rparr>))
      (\<lambda>e s'. E e (w\<lparr>natives := (natives w)(h \<mapsto> s')\<rparr>)) s"
    using assms(2) [of s] assms(3,4) by (auto simp: wp_def split: prod.split outcome.split)
  then show ?thesis by (simp add: wp_on_state s)
qed

lemma state_methods_defined:
  "fst (applyDefaultParameters L s) \<noteq> Undef" "fst (configureGraph L s) \<noteq> Undef"
  "fst (resetState L s) \<noteq> Undef" "fst (setGraph L g s) \<noteq> Undef"
proof -
  have d: "wp (applyDefaultParameters L) (\<lambda>_ _. True) (\<lambda>_ _. True) s" for s
    by (simp add: applyDefaultParameters_def wp_simps split: report.split)
  have c: "wp (configureGraph L) (\<lambda>_ _. True) (\<lambda>_ _. True) s" for s
    by (simp add: configureGraph_def wp_simps split: report.split)
  have "wp (resetState L) (\<lambda>_ _. True) (\<lambda>_ _. True) s"
    unfolding resetState_def
    by (simp add: wp_simps wp_mono [OF d] wp_mono [OF c] split: report.split)
  moreover have "wp (setGraph L g) (\<lambda>_ _. True) (\<lambda>_ _. True) s"
    unfolding setGraph_def using c by (simp add: wp_simps)
  ultimately show "fst (applyDefaultParameters L s) \<noteq> Undef" "fst (configureGraph L s) \<noteq> Undef"
    "fst (resetState L s) \<noteq> Undef" "fst (setGraph L g s) \<noteq> Undef"
    using d [of s] c [of s] by (auto dest: wp_UndefD)
qed

text \<open>Taking a state out of a slot or the cache, and putting one back.\<close>

lemma pool_live:
  assumes "pool_ok (w, held)" and "natives w h \<noteq> None"
  shows "pool_ok (w\<lparr>natives := (natives w)(h \<mapsto> s)\<rparr>, held)"
  by (rule pool_ok_cong [OF assms(1)]) (use assms(2) in auto)

lemma pool_drop: "pool_ok (w, h # held) \<Longrightarrow> pool_ok (w, held)"
  by (auto simp: pool_ok_def)

lemma pool_take_tls:
  assumes "pool_ok (w, held)" and "tls w c \<noteq> 0"
  shows "pool_ok (w\<lparr>tls := (tls w)(c := 0)\<rparr>, tls w c # held)"
proof (rule pool_okI)
  note d = pool_okD [OF assms(1)]
  show "distinct (gcache (w\<lparr>tls := (tls w)(c := 0)\<rparr>) @ tls w c # held)"
    using d(1) d(4) [OF assms(2)] by auto
  show "natives (w\<lparr>tls := (tls w)(c := 0)\<rparr>) h \<noteq> None"
    if "h \<in> set (gcache (w\<lparr>tls := (tls w)(c := 0)\<rparr>) @ tls w c # held)" for h
    using that d(2) [of h] d(3) [OF assms(2)] by auto
  show "natives (w\<lparr>tls := (tls w)(c := 0)\<rparr>) (tls (w\<lparr>tls := (tls w)(c := 0)\<rparr>) t) \<noteq> None \<and>
      tls (w\<lparr>tls := (tls w)(c := 0)\<rparr>) t \<notin> set (gcache (w\<lparr>tls := (tls w)(c := 0)\<rparr>) @ tls w c # held)"
    if "tls (w\<lparr>tls := (tls w)(c := 0)\<rparr>) t \<noteq> 0" for t
    using that d(3) [of t] d(4) [of t] d(5) [of t c] by (auto split: if_splits)
  show "t = u" if "tls (w\<lparr>tls := (tls w)(c := 0)\<rparr>) t = tls (w\<lparr>tls := (tls w)(c := 0)\<rparr>) u"
      "tls (w\<lparr>tls := (tls w)(c := 0)\<rparr>) t \<noteq> 0" for t u
    using that d(5) [of t u] by (auto split: if_splits)
qed (use pool_okD [OF assms(1)] in auto)

lemma pool_take_global:
  assumes "pool_ok (w, held)" and "gcache w \<noteq> []"
  shows "pool_ok (w\<lparr>gcache := butlast (gcache w)\<rparr>, last (gcache w) # held)"
proof -
  obtain xs x where "gcache w = xs @ [x]" using assms(2) rev_exhaust by blast
  then show ?thesis using assms(1) by (auto simp: pool_ok_def)
qed

lemma pool_new:
  assumes "pool_ok (w, held)"
  shows "pool_ok (w\<lparr>natives := (natives w)(next_addr w \<mapsto> s), next_addr := Suc (next_addr w)\<rparr>,
    next_addr w # held)"
proof -
  have "natives w (next_addr w) = None" using assms by (auto simp: pool_ok_def)
  then have "next_addr w \<notin> set (gcache w @ held)" "tls w t \<noteq> 0 \<Longrightarrow> tls w t \<noteq> next_addr w" for t
    using pool_okD(2,3) [OF assms] by metis+
  then show ?thesis using assms by (auto simp: pool_ok_def)
qed

lemma pool_put_tls:
  assumes "pool_ok (w, held)" and "h \<in> set held" and "tls w c = 0"
  shows "pool_ok (w\<lparr>tls := (tls w)(c := h)\<rparr>, remove1 h held)"
proof (rule pool_okI)
  note d = pool_okD [OF assms(1)]
  have live: "natives w h \<noteq> None" "h \<notin> set (gcache w)" using d(1,2) assms(2) by auto
  have other: "tls w t \<noteq> h" if "tls w t \<noteq> 0" for t using d(4) [OF that] assms(2) by auto
  have held: "set (remove1 h held) = set held - {h}" using d(1) by simp
  show "natives (w\<lparr>tls := (tls w)(c := h)\<rparr>) (tls (w\<lparr>tls := (tls w)(c := h)\<rparr>) t) \<noteq> None \<and>
      tls (w\<lparr>tls := (tls w)(c := h)\<rparr>) t \<notin> set (gcache (w\<lparr>tls := (tls w)(c := h)\<rparr>) @ remove1 h held)"
    if "tls (w\<lparr>tls := (tls w)(c := h)\<rparr>) t \<noteq> 0" for t
    using that live held d(3) [of t] d(4) [of t] by (cases "t = c") (auto simp del: not_None_eq)
  show "t = u" if "tls (w\<lparr>tls := (tls w)(c := h)\<rparr>) t = tls (w\<lparr>tls := (tls w)(c := h)\<rparr>) u"
      "tls (w\<lparr>tls := (tls w)(c := h)\<rparr>) t \<noteq> 0" for t u
    using that d(5) [of t u] other by (auto split: if_splits)
  show "distinct (gcache (w\<lparr>tls := (tls w)(c := h)\<rparr>) @ remove1 h held)" using d(1) by auto
  show "natives (w\<lparr>tls := (tls w)(c := h)\<rparr>) a \<noteq> None"
    if "a \<in> set (gcache (w\<lparr>tls := (tls w)(c := h)\<rparr>) @ remove1 h held)" for a
    using that d(2) [of a] held by (auto simp del: not_None_eq)
qed (use pool_okD [OF assms(1)] in auto)

lemma pool_put_global:
  assumes "pool_ok (w, held)" and "h \<in> set held" and "length (gcache w) < MAX_GLOBAL_CACHE"
  shows "pool_ok (w\<lparr>gcache := gcache w @ [h]\<rparr>, remove1 h held)"
  using assms by (auto simp: pool_ok_def)

lemma pool_delete:
  assumes "pool_ok (w, held)" and "h \<in> set held"
  shows "pool_ok (w\<lparr>natives := (natives w)(h := None), live_cctx := c, live_dctx := d\<rparr>, remove1 h held)"
proof -
  have "tls w t \<noteq> h" if "tls w t \<noteq> 0" for t
    using pool_okD(4) [OF assms(1) that] assms(2) by auto
  then show ?thesis
    using assms by (auto simp: pool_ok_def)
qed

lemma pool_consume: "pool_ok (consume w, held) = pool_ok (w, held)"
  by (simp add: pool_ok_def)

lemma pool_counts: "pool_ok (w\<lparr>live_cctx := c\<rparr>, held) = pool_ok (w, held)"
  "pool_ok (w\<lparr>live_dctx := c\<rparr>, held) = pool_ok (w, held)"
  by (simp_all add: pool_ok_def)

lemma wp_new_ok:
  assumes "pool_ok (w, held)"
  shows "wp (newNativeState L g) (\<lambda>h w'. pool_ok (w', h # held)) (\<lambda>_ w'. pool_ok (w', held)) w"
proof -
  have init: "fst (seq (applyDefaultParameters L) (configureGraph L) s) \<noteq> Undef" for s
    using state_methods_defined(1) [of L s] state_methods_defined(2) [of L]
    by (cases "applyDefaultParameters L s") (auto simp: seq_def bnd_def split: outcome.split)
  have ok: "wp (\<lambda>w. (Ret (next_addr w), w\<lparr>natives := (natives w)(next_addr w \<mapsto> s),
        next_addr := Suc (next_addr w)\<rparr>)) (\<lambda>h w'. pool_ok (w', h # held)) E w1"
    if "pool_ok (w1, held)" for s E w1
    using pool_new [OF that] by (simp add: wp_def)
  show ?thesis
    using assms init [of "initial_state L g"]
    by (auto simp: newNativeState_def createCCtx_def createDCtx_def wp_simps pool_consume pool_counts ok
        split: prod.split outcome.split)
qed

lemma wp_acquire_ok:
  assumes ok: "pool_ok (w, held)"
  shows "wp (acquireState L g) (\<lambda>h w'. pool_ok (w', h # held)) (\<lambda>_ w'. pool_ok (w', held)) w"
proof -
  have reuse: "wp (seq (on_state h (resetState L)) (seq (on_state h (setGraph L g)) (ret h)))
      (\<lambda>h w'. pool_ok (w', h # held)) (\<lambda>_ w'. pool_ok (w', held)) w1"
    if "pool_ok (w1, h # held)" for h w1
  proof -
    have live: "natives w1 h \<noteq> None" using pool_okD(2) [OF that] by simp
    show ?thesis
      unfolding wp_seq wp_ret
      by (intro wp_on_live live state_methods_defined)
        (use that live in \<open>auto intro!: pool_live intro: pool_drop simp del: fun_upd_upd\<close>)
  qed
  show ?thesis
    using reuse [OF pool_take_tls [OF ok]] reuse [OF pool_take_global [OF ok]] wp_new_ok [OF ok]
    by (simp add: acquireState_def wp_bnd wp_gets wp_if wp_seq wp_modify)
qed

lemma wp_deleteNativeState:
  "wp (deleteNativeState h) Q E w = (natives w h \<noteq> None \<and> Q () (w\<lparr>natives := (natives w)(h := None),
     live_cctx := live_cctx w - 1, live_dctx := live_dctx w - 1\<rparr>))"
  by (simp add: wp_def deleteNativeState_def split: option.split)

lemma wp_recycle_tail:
  assumes ok: "pool_ok (w, held)" and h: "h \<in> set held"
  shows "wp (bnd (gets (\<lambda>w. tls w (cur w))) (\<lambda>t.
        if t = 0 then modify (\<lambda>w. w\<lparr>tls := (tls w)(cur w := h)\<rparr>)
        else bnd (gets gcache) (\<lambda>cache.
          if length cache < MAX_GLOBAL_CACHE then modify (\<lambda>w. w\<lparr>gcache := gcache w @ [h]\<rparr>)
          else deleteNativeState h)))
     (\<lambda>_ w'. pool_ok (w', remove1 h held)) E w"
proof -
  have "natives w h \<noteq> None" using pool_okD(2) [OF ok] h by simp
  then show ?thesis
    using pool_put_tls [OF ok h] pool_put_global [OF ok h] pool_delete [OF ok h]
    by (simp add: wp_bnd wp_gets wp_if wp_modify wp_deleteNativeState)
qed

lemma wp_recycle_ok:
  assumes ok: "pool_ok (w, held)" and h: "h \<in> set held"
  shows "wp (recycleState L h) (\<lambda>_ w'. pool_ok (w', remove1 h held)) (\<lambda>_ w'. pool_ok (w', held)) w"
proof -
  have live: "natives w h \<noteq> None" using pool_okD(2) [OF ok] h by simp
  then have "h \<noteq> 0" using pool_okD(7) [OF ok] by (intro notI) simp
  then have "recycleState L h = seq (on_state h (resetState L)) (bnd (gets (\<lambda>w. tls w (cur w))) (\<lambda>t.
        if t = 0 then modify (\<lambda>w. w\<lparr>tls := (tls w)(cur w := h)\<rparr>)
        else bnd (gets gcache) (\<lambda>cache.
          if length cache < MAX_GLOBAL_CACHE then modify (\<lambda>w. w\<lparr>gcache := gcache w @ [h]\<rparr>)
          else deleteNativeState h)))"
    by (simp add: recycleState_def)
  then show ?thesis
    by (simp only: wp_seq)
      (intro wp_on_live live state_methods_defined wp_recycle_tail pool_live [OF ok live] h)
qed

lemma pool_step_ok:
  assumes "pool_step L c c'" and "pool_ok c"
  shows "pool_ok c'"
  using assms
proof (induction rule: pool_step.induct)
  case (create g w h w' held)
  then show ?case using wp_acquire_ok [of w held L g] by (simp add: wp_def)
next
  case (create_fails g w e w' held)
  then show ?case using wp_acquire_ok [of w held L g] by (simp add: wp_def)
next
  case (destroy h held w w')
  then show ?case using wp_recycle_ok [of w held h L] by (simp add: wp_def)
next
  case (destroy_fails h held w e w')
  then show ?case using wp_recycle_ok [of w held h L] by (simp add: wp_def)
next
  case (use h held w s)
  then show ?case using pool_okD(2) [OF use(2), of h] by (intro pool_live) auto
next
  case (switch w held t)
  then show ?case by (simp add: pool_ok_def)
qed

lemma pool_reach_ok: "pool_reach L c0 c \<Longrightarrow> pool_ok c0 \<Longrightarrow> pool_ok c"
  by (induction rule: pool_reach.induct) (auto intro: pool_step_ok)

end
