(* ===== verification/Compressor_Main.thy ===== *)
theory Compressor_Main
  imports Compressor_Numeric
begin

text \<open>
  \<open>JNI/OpenZLCompressor.cpp\<close>: creation, configuration and destruction of compressors, one-off
  compression with a profile or a serialized compressor, training, and the SDDL compiler.
\<close>

section \<open>The C++ interface of the library as a parameter\<close>

text \<open>
  \<open>'p\<close> is the type of parsed profile arguments.  A member that throws returns \<open>Inl\<close> (or \<open>Some\<close>)
  of the exception, with the object it leaves behind.
\<close>

record train_params =
  tp_threads :: "nat option"
  tp_numSamples :: "nat option"
  tp_maxTimeSecs :: "nat option"
  tp_pareto :: bool

record ('k, 'p) cli =
  cl_setParameter :: "jint \<Rightarrow> jint \<Rightarrow> 'k \<Rightarrow> cpp_exn option \<times> 'k"
  cl_getParameter :: "jint \<Rightarrow> 'k \<Rightarrow> cpp_exn + jint"
  cl_serialize :: "'k \<Rightarrow> cpp_exn + string"
  cl_serializeToJson :: "'k \<Rightarrow> cpp_exn + string"
  cl_deserialize :: "bytes \<Rightarrow> 'k \<Rightarrow> cpp_exn option \<times> 'k"
  cl_selectStartingGraph :: "nat \<Rightarrow> 'k \<Rightarrow> cpp_exn option \<times> 'k"
  cl_errorContext :: "'k \<Rightarrow> report \<Rightarrow> string"
  cl_profiles :: "(string \<times> string) list"
  cl_parseArgs :: "string list \<Rightarrow> cpp_exn + 'p"
  cl_gen :: "string \<Rightarrow> 'p \<Rightarrow> 'k \<Rightarrow> (cpp_exn + nat) \<times> 'k"
  cl_sddl_setupProfile :: "bytes \<Rightarrow> 'k \<Rightarrow> report \<times> 'k"
  cl_sddl_compile :: "bool \<Rightarrow> jint \<Rightarrow> string \<Rightarrow> cpp_exn + bytes"
  cl_inputSetDir :: "(string \<times> bytes) list \<Rightarrow> string \<Rightarrow> cpp_exn + bytes list"
  cl_train :: "train_params \<Rightarrow> (bytes \<Rightarrow> cpp_exn + 'k) \<Rightarrow> bytes list \<Rightarrow> 'k \<Rightarrow> cpp_exn + bytes list"

definition lift_exn :: "cpp_exn + 'a \<Rightarrow> ('s, 'a) act" where
  "lift_exn r = (case r of Inl e \<Rightarrow> throw e | Inr a \<Rightarrow> ret a)"

text \<open>\<open>what()\<close>; the texts of the standard exceptions are those of libstdc++.\<close>

fun what :: "cpp_exn \<Rightarrow> string" where
  "what BadAlloc = ''std::bad_alloc''"
| "what LengthError = ''vector::_M_default_append''"
| "what (RuntimeError m) = m"
| "what (InvalidArgs m) = m"
| "what (CompilerError m) = m"
| "what (LibraryError m) = m"

text \<open>The member calls of \<open>state->compressor\<close>.\<close>

definition on_compressor :: "nat \<Rightarrow> ('k \<Rightarrow> cpp_exn option \<times> 'k) \<Rightarrow> (('k, 'c, 'd) world, unit) act" where
  "on_compressor h f = on_state h (\<lambda>s. case f (compressor s) of
      (None, k) \<Rightarrow> (Ret (), s\<lparr>compressor := k\<rparr>)
    | (Some e, k) \<Rightarrow> (Throw e, s\<lparr>compressor := k\<rparr>))"

definition of_compressor :: "nat \<Rightarrow> ('k \<Rightarrow> cpp_exn + 'a) \<Rightarrow> (('k, 'c, 'd) world, 'a) act" where
  "of_compressor h f = bnd (deref h) (\<lambda>s. lift_exn (f (compressor s)))"

section \<open>Profile arguments\<close>

text \<open>\<open>std::map\<close> as an association list in insertion order; \<open>emplace\<close> keeps the first value.\<close>

definition emplace :: "'a \<Rightarrow> 'b \<Rightarrow> ('a \<times> 'b) list \<Rightarrow> ('a \<times> 'b) list" where
  "emplace k v m = (if k \<in> fst ` set m then m else m @ [(k, v)])"

definition makeProfileArgs :: "('k, 'p) cli \<Rightarrow> string \<Rightarrow> (string \<times> string) list \<Rightarrow> cpp_exn + 'p" where
  "makeProfileArgs C profile arguments = cl_parseArgs C
     ([''openzl-jni'', ''--profile'', profile]
      @ (case map_of arguments ''TBD'' of None \<Rightarrow> [] | Some v \<Rightarrow> [''--profile-arg'', v]))"

definition knownProfile :: "('k, 'p) cli \<Rightarrow> string \<Rightarrow> bool" where
  "knownProfile C profile \<longleftrightarrow> profile \<in> fst ` set (cl_profiles C)"

section \<open>Life cycle and parameters\<close>

definition nativeCreate :: "('k, 'c, 'd) zl \<Rightarrow> jint \<Rightarrow> (('k, 'c, 'd) world, nat) act" where
  "nativeCreate L graphOrdinal =
     try_catch (acquireState L (graphIdFromOrdinal L graphOrdinal)) (\<lambda>_. ret 0)"

definition setParameter :: "('k, 'p) cli \<Rightarrow> nat \<Rightarrow> jint \<Rightarrow> jint \<Rightarrow> (('k, 'c, 'd) world, unit) act" where
  "setParameter C obj param val =
     bnd (getState obj) (\<lambda>state. if \<not> ensureState state then ret () else
     on_compressor state (cl_setParameter C param val))"

definition getParameter :: "('k, 'p) cli \<Rightarrow> nat \<Rightarrow> jint \<Rightarrow> (('k, 'c, 'd) world, jint) act" where
  "getParameter C obj param =
     bnd (getState obj) (\<lambda>state. if \<not> ensureState state then ret 0 else
     of_compressor state (cl_getParameter C param))"

definition serialize :: "('k, 'p) cli \<Rightarrow> nat \<Rightarrow> (('k, 'c, 'd) world, nat) act" where
  "serialize C obj =
     bnd (getState obj) (\<lambda>state. if \<not> ensureState state then newStringUTF '''' else
     bnd (of_compressor state (cl_serialize C)) newStringUTF)"

definition serializeToJson :: "('k, 'p) cli \<Rightarrow> nat \<Rightarrow> (('k, 'c, 'd) world, nat) act" where
  "serializeToJson C obj =
     bnd (getState obj) (\<lambda>state. if \<not> ensureState state then newStringUTF '''' else
     bnd (of_compressor state (cl_serializeToJson C)) newStringUTF)"

definition maxCompressedSizeNative :: "('k, 'c, 'd) zl \<Rightarrow> jint \<Rightarrow> (('k, 'c, 'd) world, jlong) act" where
  "maxCompressedSizeNative L inputSize =
     (if jneg inputSize then
        seq (throwCached IllegalArgumentException ''inputSize must be non-negative'') (ret (-1))
      else let bound = zl_compressBound L (jsize inputSize) in
        if bound > 9223372036854775807 then
          seq (throwCached IllegalStateException ''Compression bound exceeds jlong capacity'') (ret (-1))
        else ret (word_of_nat bound))"

definition resetNative :: "('k, 'c, 'd) zl \<Rightarrow> nat \<Rightarrow> (('k, 'c, 'd) world, unit) act" where
  "resetNative L obj =
     bnd (getState obj) (\<lambda>state. if \<not> ensureState state then ret () else
     on_state state (resetState L))"

definition destroyCompressor :: "('k, 'c, 'd) zl \<Rightarrow> nat \<Rightarrow> (('k, 'c, 'd) world, unit) act" where
  "destroyCompressor L obj =
     bnd (getState obj) (\<lambda>state. if \<not> ensureState state then ret () else
     seq (recycleState L state) (setNativeHandle obj 0))"

definition destroyCompressorHandleNative :: "('k, 'c, 'd) zl \<Rightarrow> nat \<Rightarrow> (('k, 'c, 'd) world, unit) act" where
  "destroyCompressorHandleNative L handle = (if handle = 0 then ret () else recycleState L handle)"

section \<open>Configuration\<close>

text \<open>The loop over the argument arrays; \<open>None\<close> when the method has raised and must return.\<close>

fun collectArgs :: "nat \<Rightarrow> nat \<Rightarrow> nat list \<Rightarrow> (string \<times> string) list
    \<Rightarrow> ('z jvm_scheme, (string \<times> string) list option) act" where
  "collectArgs argKeys argValues [] acc = ret (Some acc)"
| "collectArgs argKeys argValues (i # is) acc =
     bnd (getObjectArrayElement argKeys i) (\<lambda>keyObj.
     bnd (getObjectArrayElement argValues i) (\<lambda>valueObj.
     if keyObj = 0 \<or> valueObj = 0 then
       seq (throwCached NullPointerException ''arguments'') (ret None) else
     bnd (getStringUTFChars keyObj) (\<lambda>keyChars.
     bnd (getStringUTFChars valueObj) (\<lambda>valueChars.
     case (keyChars, valueChars) of
       (Some k, Some v) \<Rightarrow> collectArgs argKeys argValues is (emplace k v acc)
     | _ \<Rightarrow> seq (throwCached OutOfMemoryError ''Unable to access profile arguments'') (ret None)))))"

definition lengthOrZero :: "nat \<Rightarrow> ('z jvm_scheme, jint) act" where
  "lengthOrZero arr = (if arr \<noteq> 0 then getArrayLength arr else ret 0)"

definition genOnState :: "('k, 'p) cli \<Rightarrow> nat \<Rightarrow> string \<Rightarrow> 'p \<Rightarrow> (('k, 'c, 'd) world, nat) act" where
  "genOnState C h profile args = on_state h (\<lambda>s. case cl_gen C profile args (compressor s) of
      (Inl e, k) \<Rightarrow> (Throw e, s\<lparr>compressor := k\<rparr>)
    | (Inr g, k) \<Rightarrow> (Ret g, s\<lparr>compressor := k\<rparr>))"

text \<open>The two catch clauses around library calls: \<open>InvalidArgsException\<close> and \<open>std::exception\<close>.\<close>

definition raiseCaught :: "cpp_exn \<Rightarrow> ('z jvm_scheme, unit) act" where
  "raiseCaught e = (case e of InvalidArgs m \<Rightarrow> throwIllegalArgument m | _ \<Rightarrow> throwIllegalState (what e))"

definition configureProfileNative :: "('k, 'c, 'd) zl \<Rightarrow> ('k, 'p) cli \<Rightarrow> nat \<Rightarrow> nat \<Rightarrow> nat \<Rightarrow> nat
    \<Rightarrow> (('k, 'c, 'd) world, unit) act" where
  "configureProfileNative L C obj profileName argKeys argValues =
     bnd (getState obj) (\<lambda>state. if \<not> ensureState state then ret () else
     if profileName = 0 then throwCached NullPointerException ''profileName'' else
     bnd (getStringUTFChars profileName) (\<lambda>profileChars. case profileChars of
       None \<Rightarrow> throwCached OutOfMemoryError ''Unable to access profileName''
     | Some profile \<Rightarrow>
     if \<not> knownProfile C profile then
       throwIllegalArgument (''Unknown compression profile: '' @ profile) else
     bnd (lengthOrZero argKeys) (\<lambda>keyCount.
     bnd (lengthOrZero argValues) (\<lambda>valueCount.
     if keyCount \<noteq> valueCount then
       throwIllegalArgument ''Argument keys and values must have the same length'' else
     bnd (collectArgs argKeys argValues [0..<jsize keyCount] []) (\<lambda>collected. case collected of
       None \<Rightarrow> ret ()
     | Some profileArgs \<Rightarrow>
     try_catch
       (bnd (lift_exn (makeProfileArgs C profile profileArgs)) (\<lambda>args.
        bnd (genOnState C state profile args) (\<lambda>graph.
        on_state state (setGraph L graph))))
       raiseCaught)))))"

definition configureSddlNative :: "('k, 'c, 'd) zl \<Rightarrow> ('k, 'p) cli \<Rightarrow> nat \<Rightarrow> nat
    \<Rightarrow> (('k, 'c, 'd) world, unit) act" where
  "configureSddlNative L C obj compiledDescription =
     bnd (getState obj) (\<lambda>state. if \<not> ensureState state then ret () else
     if compiledDescription = 0 then throwCached NullPointerException ''compiledDescription'' else
     bnd (getArrayLength compiledDescription) (\<lambda>len.
     if sint len \<le> 0 then throwIllegalArgument ''Compiled SDDL description must not be empty'' else
     bnd (getCritical compiledDescription) (\<lambda>ptr. case ptr of
       None \<Rightarrow> throwCached OutOfMemoryError ''Unable to access compiled description''
     | Some p \<Rightarrow>
     bnd (readPin p 0 (jsize len)) (\<lambda>bs.
     bnd (on_state state (with_compressor (cl_sddl_setupProfile C bs))) (\<lambda>result.
     seq (releaseCritical compiledDescription p JNI_ABORT) (
     if zl_isError result then
       bnd (deref state) (\<lambda>s.
       let context = cl_errorContext C (compressor s) result in
       throwIllegalState (''Failed to configure SDDL profile''
         @ (if context = [] then [] else '': '' @ context)))
     else on_state state (setGraph L (zl_value result))))))))"

definition setDataArenaNative :: "('k, 'c, 'd) zl \<Rightarrow> nat \<Rightarrow> jint \<Rightarrow> (('k, 'c, 'd) world, unit) act" where
  "setDataArenaNative L obj arenaOrdinal =
     bnd (getState obj) (\<lambda>state. if \<not> ensureState state then ret () else
     if jneg arenaOrdinal then throwCached IllegalArgumentException ''arenaOrdinal'' else
     let type = (if arenaOrdinal = 1 then Arena_stack else Arena_heap) in
     bnd (on_state state (with_cctx (zl_cctx_setDataArena L type))) (\<lambda>r.
     if zl_isError r then
       bnd (deref state) (\<lambda>s.
       throwIllegalState (''Failed to set data arena''
         @ (case zl_cctx_errorContext L (cctx s) r of
              Some (c # cs) \<Rightarrow> '': '' @ (c # cs) | _ \<Rightarrow> [])))
     else ret ()))"

fun fillProfiles :: "nat \<Rightarrow> nat \<Rightarrow> (string \<times> string) list \<Rightarrow> ('z jvm_scheme, nat) act" where
  "fillProfiles arr idx [] = ret arr"
| "fillProfiles arr idx ((name, desc) # kvs) =
     bnd (newStringUTF (name @ '':'' @ desc)) (\<lambda>jstr.
     if jstr = 0 then ret 0
     else seq (setObjectArrayElement arr idx jstr) (fillProfiles arr (Suc idx) kvs))"

text \<open>\<open>FindClass\<close> fails with a pending exception.\<close>

definition findClass :: "('z jvm_scheme, bool) act" where
  "findClass = seq jni (bnd fault (\<lambda>f.
     if f then seq (raise NoClassDefFoundError ''class not found'') (ret False) else ret True))"

definition listProfilesNative :: "('k, 'p) cli \<Rightarrow> ('z jvm_scheme, nat) act" where
  "listProfilesNative C =
     bnd findClass (\<lambda>found. if \<not> found then ret 0 else
     bnd (newObjectArray (word_of_nat (length (cl_profiles C)))) (\<lambda>arr.
     if arr = 0 then ret 0 else fillProfiles arr 0 (cl_profiles C)))"

end
