(* ===== verification/Compressor_Oneoff.thy ===== *)
theory Compressor_Oneoff
  imports Compressor_Main
begin

text \<open>
  \<open>JNI/OpenZLCompressor.cpp\<close>, second part: training, compression with a temporary compressor
  and context, the SDDL compiler, and the library's load and unload hooks.
\<close>

section \<open>Training\<close>

fun fillTrained :: "nat \<Rightarrow> nat \<Rightarrow> bytes list \<Rightarrow> ('z jvm_scheme, nat) act" where
  "fillTrained out i [] = ret out"
| "fillTrained out i (sv # svs) =
     bnd (newByteArray (word_of_nat (length sv))) (\<lambda>ba. if ba = 0 then ret 0 else
     seq (if length sv > 0 then setArrayRegion ba (JByteArr sv) else ret ())
    (seq (setObjectArrayElement out i ba) (fillTrained out (Suc i) svs)))"

text \<open>\<open>compressorGenFunc\<close>: the profile is initialised on a best-effort basis.\<close>

definition compressorGen :: "('k, 'c, 'd) zl \<Rightarrow> ('k, 'p) cli \<Rightarrow> string \<Rightarrow> 'p \<Rightarrow> bytes \<Rightarrow> cpp_exn + 'k" where
  "compressorGen L C profile args serialized =
     (let k = (case cl_gen C profile args (zl_new_compressor L) of
          (Inl _, k) \<Rightarrow> k
        | (Inr g, k) \<Rightarrow> snd (cl_selectStartingGraph C g k)) in
      case cl_deserialize C serialized k of (Some e, _) \<Rightarrow> Inl e | (None, k') \<Rightarrow> Inr k')"

definition trainParams :: "jint \<Rightarrow> jint \<Rightarrow> jint \<Rightarrow> bool \<Rightarrow> train_params" where
  "trainParams maxTimeSecs threads numSamples pareto = \<lparr>
     tp_threads = (if sint threads > 0 then Some (jsize threads) else None),
     tp_numSamples = (if sint numSamples > 0 then Some (jsize numSamples) else None),
     tp_maxTimeSecs = (if sint maxTimeSecs > 0 then Some (jsize maxTimeSecs) else None),
     tp_pareto = pareto\<rparr>"

text \<open>A default-constructed \<open>openzl::Compressor\<close>.\<close>

definition newCompressor :: "('k, 'c, 'd) zl \<Rightarrow> (('k, 'c, 'd) world, 'k) act" where
  "newCompressor L = bnd fault (\<lambda>f. if f then throw BadAlloc else ret (zl_new_compressor L))"

definition trainFromDirectoryImpl :: "('k, 'c, 'd) zl \<Rightarrow> ('k, 'p) cli \<Rightarrow> string \<Rightarrow> string \<Rightarrow> jint
    \<Rightarrow> jint \<Rightarrow> jint \<Rightarrow> bool \<Rightarrow> (('k, 'c, 'd) world, nat) act" where
  "trainFromDirectoryImpl L C profile dir maxTimeSecs threads numSamples pareto =
     (if \<not> knownProfile C profile then
        seq (throwIllegalArgument (''Unknown compression profile: '' @ profile)) (ret 0)
      else try_catch
       (bnd (gets (\<lambda>w. cl_inputSetDir C (files w) dir)) (\<lambda>set.
        bnd (lift_exn set) (\<lambda>multi.
        bnd (newCompressor L) (\<lambda>k0.
        bnd (lift_exn (makeProfileArgs C profile [])) (\<lambda>args.
        case cl_gen C profile args k0 of
          (Inl e, _) \<Rightarrow> throw e
        | (Inr gid, k) \<Rightarrow> (case cl_selectStartingGraph C gid k of
            (Some e, _) \<Rightarrow> throw e
          | (None, k) \<Rightarrow>
        bnd (lift_exn (cl_train C (trainParams maxTimeSecs threads numSamples pareto)
               (compressorGen L C profile args) multi k)) (\<lambda>trained.
        bnd findClass (\<lambda>found. if \<not> found then ret 0 else
        bnd (newObjectArray (word_of_nat (length trained))) (\<lambda>out.
        if out = 0 then ret 0 else fillTrained out 0 trained)))))))))
       (\<lambda>e. seq (raiseCaught e) (ret 0)))"

definition trainFromDirectoryNative :: "('k, 'c, 'd) zl \<Rightarrow> ('k, 'p) cli \<Rightarrow> nat \<Rightarrow> nat \<Rightarrow> jint
    \<Rightarrow> jint \<Rightarrow> jint \<Rightarrow> bool \<Rightarrow> (('k, 'c, 'd) world, nat) act" where
  "trainFromDirectoryNative L C profileName dirPath maxTimeSecs threads numSamples pareto =
     (if profileName = 0 then seq (throwCached NullPointerException ''profileName'') (ret 0) else
      if dirPath = 0 then seq (throwCached NullPointerException ''dirPath'') (ret 0) else
      bnd (getStringUTFChars profileName) (\<lambda>p. case p of
        None \<Rightarrow> seq (throwCached OutOfMemoryError ''Unable to access profileName'') (ret 0)
      | Some profile \<Rightarrow>
      bnd (getStringUTFChars dirPath) (\<lambda>d. case d of
        None \<Rightarrow> seq (throwCached OutOfMemoryError ''Unable to access dirPath'') (ret 0)
      | Some dir \<Rightarrow> trainFromDirectoryImpl L C profile dir maxTimeSecs threads numSamples pareto)))"

text \<open>
  \<open>trainNative\<close> writes the inputs into a fresh directory under the temporary directory;
  \<open>stamp\<close> is the clock in its name.  \<open>False\<close> is the jump to \<open>cleanup\<close>, which removes every
  file of the directory.
\<close>

definition getByteArrayRegion :: "nat \<Rightarrow> nat \<Rightarrow> ('z jvm_scheme, bytes) act" where
  "getByteArrayRegion r n = seq jni (\<lambda>w. case objs w r of
      Some (JByteArr bs) \<Rightarrow> if n \<le> length bs then (Ret (take n bs), w)
        else seq (raise ArrayIndexOutOfBoundsException ''region'') (ret []) w
    | _ \<Rightarrow> (Undef, w))"

fun writeInputs :: "string \<Rightarrow> nat \<Rightarrow> nat list \<Rightarrow> (('k, 'c, 'd) world, bool) act" where
  "writeInputs tmpDir inputs [] = ret True"
| "writeInputs tmpDir inputs (i # is) =
     bnd (getObjectArrayElement inputs i) (\<lambda>elem.
     bnd (if elem = 0 then newByteArray 0 else ret elem) (\<lambda>arr.
     if arr = 0 then
       seq (throwCached OutOfMemoryError ''Unable to allocate empty input'') (ret False) else
     bnd (getArrayLength arr) (\<lambda>len.
     bnd (if sint len > 0 then
            bnd (getByteArrayRegion arr (jsize len)) (\<lambda>content.
            bnd exceptionCheck (\<lambda>exn. ret (if exn then None else Some content)))
          else ret (Some [])) (\<lambda>content. case content of
       None \<Rightarrow> ret False
     | Some bs \<Rightarrow>
     bnd fault (\<lambda>noFile. if noFile then
       seq (throwIllegalState ''Unable to create temporary training file'') (ret False) else
     bnd fault (\<lambda>noWrite. if noWrite then
       seq (throwIllegalState ''Unable to write temporary training file'') (ret False) else
     seq (modify (\<lambda>w. w\<lparr>files := files w @ [(tmpDir @ ''/'' @ to_string i, bs)]\<rparr>))
       (writeInputs tmpDir inputs is)))))))"

definition removeAll :: "string \<Rightarrow> (('k, 'c, 'd) world, unit) act" where
  "removeAll dir = modify (\<lambda>w. w\<lparr>files :=
     filter (\<lambda>(p, _). take (Suc (length dir)) p \<noteq> dir @ ''/'') (files w)\<rparr>)"

definition trainNative :: "string \<Rightarrow> ('k, 'c, 'd) zl \<Rightarrow> ('k, 'p) cli \<Rightarrow> nat \<Rightarrow> nat \<Rightarrow> jint
    \<Rightarrow> jint \<Rightarrow> jint \<Rightarrow> bool \<Rightarrow> nat \<Rightarrow> (('k, 'c, 'd) world, nat) act" where
  "trainNative tmp L C profileName inputs maxTimeSecs threads numSamples pareto stamp =
     (if profileName = 0 then seq (throwCached NullPointerException ''profileName'') (ret 0) else
      if inputs = 0 then seq (throwCached NullPointerException ''inputs'') (ret 0) else
      bnd (getStringUTFChars profileName) (\<lambda>p. case p of
        None \<Rightarrow> seq (throwCached OutOfMemoryError ''Unable to access profileName'') (ret 0)
      | Some profile \<Rightarrow>
      bnd fault (\<lambda>noTmp. if noTmp then
        seq (throwIllegalState ''Unable to resolve temporary directory'') (ret 0) else
      let tmpDir = tmp @ ''/openzl-train-native-'' @ to_string stamp in
      bnd fault (\<lambda>noDir. if noDir then
        seq (throwIllegalState ''Unable to create temporary training directory'') (ret 0) else
      bnd (getArrayLength inputs) (\<lambda>count.
      bnd (writeInputs tmpDir inputs [0..<jsize count]) (\<lambda>written.
      bnd (if written
           then trainFromDirectoryImpl L C profile tmpDir maxTimeSecs threads numSamples pareto
           else ret 0) (\<lambda>result.
      seq (removeAll tmpDir) (ret result))))))))"

section \<open>Compression with a temporary context\<close>

definition freeCCtx :: "(('k, 'c, 'd) world, unit) act" where
  "freeCCtx = modify (\<lambda>w. w\<lparr>live_cctx := live_cctx w - 1\<rparr>)"

text \<open>One setup call on the context: on an error, free it, release the arrays and raise.\<close>

definition contextStep :: "report \<times> 'c \<Rightarrow> (('k, 'c, 'd) world, unit) act \<Rightarrow> string
    \<Rightarrow> ('c \<Rightarrow> (('k, 'c, 'd) world, nat) act) \<Rightarrow> (('k, 'c, 'd) world, nat) act" where
  "contextStep rc releaseArrays msg k = (case rc of
      (ZErr _, _) \<Rightarrow> seq freeCCtx (seq releaseArrays (seq (throwIllegalState msg) (ret 0)))
    | (ZOk _, c) \<Rightarrow> k c)"

definition defaultContext :: "('k, 'c, 'd) zl \<Rightarrow> 'k \<Rightarrow> (('k, 'c, 'd) world, unit) act
    \<Rightarrow> ('c \<Rightarrow> (('k, 'c, 'd) world, nat) act) \<Rightarrow> (('k, 'c, 'd) world, nat) act" where
  "defaultContext L k releaseArrays rest =
     contextStep (zl_cctx_setParameter L StickyParameters 1 (zl_new_cctx L)) releaseArrays
       ''Failed to set cctx parameter stickyParameters'' (\<lambda>c.
     contextStep (zl_cctx_setParameter L CompressionLevel (zl_level_default L) c) releaseArrays
       ''Failed to set cctx parameter compressionLevel'' (\<lambda>c.
     contextStep (zl_cctx_setParameter L FormatVersion (zl_default_version L) c) releaseArrays
       ''Failed to set cctx parameter formatVersion'' (\<lambda>c.
     contextStep (zl_cctx_refCompressor L k c) releaseArrays
       ''Failed to bind compressor to C context'' rest)))"

text \<open>The new array is not checked for null before it is filled.\<close>

definition compressOnce :: "('k, 'c, 'd) zl \<Rightarrow> 'k \<Rightarrow> 'c \<Rightarrow> (('k, 'c, 'd) world, unit) act \<Rightarrow> bytes
    \<Rightarrow> string \<Rightarrow> (('k, 'c, 'd) world, nat) act" where
  "compressOnce L k c releaseArrays src failMsg =
     (let bound = zl_compressBound L (length src) in
      bnd fault (\<lambda>f. if f \<or> bound > PTRDIFF_MAX then throw BadAlloc else
      (case zl_compress L k c bound src of (result, out, _) \<Rightarrow>
       if length out > bound then undef else
       seq releaseArrays (seq freeCCtx (
       if zl_isError result then seq (throwIllegalState failMsg) (ret 0) else
       let dst = overwrite (replicate bound 0) 0 out; compressedSize = zl_value result in
       bnd (newByteArray (word_of_nat compressedSize)) (\<lambda>jout.
       if compressedSize > 0 then
         if compressedSize \<le> bound
         then seq (setArrayRegion jout (JByteArr (take compressedSize dst))) (ret jout) else undef
       else ret jout))))))"

definition compressWithProfileNative :: "('k, 'c, 'd) zl \<Rightarrow> ('k, 'p) cli \<Rightarrow> nat \<Rightarrow> nat
    \<Rightarrow> (('k, 'c, 'd) world, nat) act" where
  "compressWithProfileNative L C profileName input =
     (if profileName = 0 then seq (throwCached NullPointerException ''profileName'') (ret 0) else
      if input = 0 then seq (throwCached NullPointerException ''input'') (ret 0) else
      bnd (getStringUTFChars profileName) (\<lambda>p. case p of
        None \<Rightarrow> seq (throwCached OutOfMemoryError ''Unable to access profileName'') (ret 0)
      | Some profile \<Rightarrow>
      if \<not> knownProfile C profile then
        seq (throwIllegalArgument (''Unknown compression profile: '' @ profile)) (ret 0) else
      bnd (getArrayLength input) (\<lambda>len.
      bnd (getCritical input) (\<lambda>srcPtr. case srcPtr of
        None \<Rightarrow> seq (throwCached OutOfMemoryError ''GetPrimitiveArrayCritical returned null'') (ret 0)
      | Some sp \<Rightarrow>
      let releaseInput = releaseCritical input sp JNI_ABORT in
      try_catch
       (bnd (newCompressor L) (\<lambda>k0.
        bnd (lift_exn (makeProfileArgs C profile [])) (\<lambda>args.
        case cl_gen C profile args k0 of
          (Inl e, _) \<Rightarrow> throw e
        | (Inr gid, k1) \<Rightarrow> (case cl_selectStartingGraph C gid k1 of
            (Some e, _) \<Rightarrow> throw e
          | (None, k) \<Rightarrow>
        bnd createCCtx (\<lambda>created. if \<not> created then
          seq releaseInput (seq (throwCached OutOfMemoryError ''Failed to create C context'') (ret 0))
        else
        defaultContext L k releaseInput (\<lambda>c.
        contextStep (zl_cctx_selectStartingGraph L k gid c) releaseInput
          ''Failed to select starting graph'' (\<lambda>c.
        bnd (readPin sp 0 (jsize len)) (\<lambda>src.
        compressOnce L k c releaseInput src
          ''Compression failed for profile compressor''))))))))
       (\<lambda>e. seq releaseInput (seq (throwIllegalState (what e)) (ret 0)))))))"

definition compressWithSerializedNative :: "('k, 'c, 'd) zl \<Rightarrow> ('k, 'p) cli \<Rightarrow> nat \<Rightarrow> nat \<Rightarrow> nat
    \<Rightarrow> (('k, 'c, 'd) world, nat) act" where
  "compressWithSerializedNative L C profileName serialized input =
     (if profileName = 0 then seq (throwCached NullPointerException ''profileName'') (ret 0) else
      if serialized = 0 then seq (throwCached NullPointerException ''serialized'') (ret 0) else
      if input = 0 then seq (throwCached NullPointerException ''input'') (ret 0) else
      bnd (getStringUTFChars profileName) (\<lambda>p. case p of
        None \<Rightarrow> seq (throwCached OutOfMemoryError ''Unable to access profileName'') (ret 0)
      | Some profile \<Rightarrow>
      bnd (getArrayLength serialized) (\<lambda>serLen.
      bnd (getCritical serialized) (\<lambda>serPtr. case serPtr of
        None \<Rightarrow> seq (throwCached OutOfMemoryError ''Failed to access serialized array'') (ret 0)
      | Some rp \<Rightarrow>
      bnd (getArrayLength input) (\<lambda>inLen.
      bnd (getCritical input) (\<lambda>inPtr. case inPtr of
        None \<Rightarrow> seq (releaseCritical serialized rp JNI_ABORT)
          (seq (throwCached OutOfMemoryError ''Failed to access input array'') (ret 0))
      | Some ip \<Rightarrow>
      let releaseArrays = seq (releaseCritical serialized rp JNI_ABORT) (releaseCritical input ip JNI_ABORT) in
      try_catch
       (bnd (newCompressor L) (\<lambda>k0.
        bnd (if knownProfile C profile then
               bnd (lift_exn (makeProfileArgs C profile [])) (\<lambda>args.
               ret (case cl_gen C profile args k0 of
                   (Inl _, k) \<Rightarrow> k
                 | (Inr g, k) \<Rightarrow> snd (cl_selectStartingGraph C g k)))
             else ret k0) (\<lambda>k1.
        bnd (readPin rp 0 (jsize serLen)) (\<lambda>sv.
        case cl_deserialize C sv k1 of
          (Some e, _) \<Rightarrow> throw e
        | (None, k) \<Rightarrow>
        bnd createCCtx (\<lambda>created. if \<not> created then
          seq releaseArrays (seq (throwCached OutOfMemoryError ''Failed to create C context'') (ret 0))
        else
        defaultContext L k releaseArrays (\<lambda>c.
        bnd (readPin ip 0 (jsize inLen)) (\<lambda>src.
        compressOnce L k c releaseArrays src
          ''Compression failed for serialized compressor'')))))))
       (\<lambda>e. seq releaseArrays (seq (throwIllegalState (what e)) (ret 0)))))))))"

section \<open>The SDDL compiler\<close>

definition compileNative :: "('k, 'p) cli \<Rightarrow> nat \<Rightarrow> bool \<Rightarrow> jint \<Rightarrow> ('z jvm_scheme, nat) act" where
  "compileNative C source includeDebugInfo verbosity =
     (if source = 0 then seq (throwCached NullPointerException ''description'') (ret 0) else
      bnd (getStringUTFChars source) (\<lambda>s. case s of
        None \<Rightarrow> seq (throwCached OutOfMemoryError ''Unable to read source'') (ret 0)
      | Some src \<Rightarrow> (case cl_sddl_compile C includeDebugInfo verbosity src of
          Inl e \<Rightarrow> seq (case e of CompilerError m \<Rightarrow> throwIllegalArgument m
                       | _ \<Rightarrow> throwIllegalState (what e)) (ret 0)
        | Inr compiled \<Rightarrow>
          if compiled = [] then seq (throwIllegalState ''Compiler returned empty result'') (ret 0) else
          bnd (newByteArray (word_of_nat (length compiled))) (\<lambda>result.
          if result = 0 then
            seq (throwCached OutOfMemoryError ''Unable to allocate compiled output'') (ret 0)
          else seq (setArrayRegion result (JByteArr compiled)) (ret result)))))"

section \<open>Load and unload\<close>

text \<open>\<open>attached\<close>: the VM is given and hands out its environment.\<close>

definition JNI_VERSION_1_6 :: jint where
  "JNI_VERSION_1_6 = 65542"

definition JNI_OnLoad :: "bool \<Rightarrow> ('z jvm_scheme, jint) act" where
  "JNI_OnLoad attached =
     seq (if attached then
            bnd initJniRefs (\<lambda>ok. if \<not> ok then
              bnd exceptionCheck (\<lambda>exn. if exn then exceptionClear else ret ()) else ret ())
          else ret ())
       (ret JNI_VERSION_1_6)"

definition JNI_OnUnload :: "bool \<Rightarrow> ('z jvm_scheme, unit) act" where
  "JNI_OnUnload attached =
     (if attached then
        seq clearJniRefs (bnd exceptionCheck (\<lambda>exn. if exn then exceptionClear else ret ()))
      else ret ())"

end
