(* ===== verification/Lifecycle.thy ===== *)
theory Lifecycle
  imports State_Pool Compressor_Oneoff
begin

text \<open>
  Properties of the life of a compressor: the cached class references between load and
  unload, creation and recycling of native states, reset, and the graph ordinals.
\<close>

section \<open>Class references\<close>

text \<open>Each cached class holds exactly one global reference, and nothing else holds one.\<close>

definition refs_ok :: "'z jvm_scheme \<Rightarrow> bool" where
  "refs_ok w \<longleftrightarrow> (\<forall>c. count_list (global_refs w) c = (if class_refs w c then 1 else 0))
     \<and> (\<forall>c. class_refs w c \<longrightarrow> c \<in> {NullPointerException, IllegalArgumentException,
           IllegalStateException, OutOfMemoryError})"

lemma count_list_remove1: "count_list (remove1 c xs) d = count_list xs d - (if c = d then 1 else 0)"
  by (induction xs) auto

definition class_made :: "jexn \<Rightarrow> bool \<Rightarrow> 'z jvm_scheme \<Rightarrow> 'z jvm_scheme \<Rightarrow> bool" where
  "class_made c ok w w' \<longleftrightarrow> refs_ok w' \<and> pins w' = pins w \<and> (ok \<longrightarrow> pending w' = pending w)
     \<and> (ok \<longrightarrow> class_refs w' = (class_refs w)(c := True))"

lemma wp_ensureExceptionClass:
  assumes "refs_ok w" and "pins w = []"
    and "c \<in> {NullPointerException, IllegalArgumentException, IllegalStateException, OutOfMemoryError}"
  shows "wp (ensureExceptionClass c) (\<lambda>ok w'. class_made c ok w w') (\<lambda>_ _. False) w"
proof (cases "class_refs w c")
  case True
  then have "(class_refs w)(c := True) = class_refs w" by (simp add: fun_upd_idem)
  with True assms(1) show ?thesis
    by (simp add: ensureExceptionClass_def wp_simps class_made_def)
next
  case False
  have "refs_ok (v\<lparr>global_refs := c # global_refs w, class_refs := (class_refs w)(c := True)\<rparr>)"
    for v :: "'a jvm_scheme"
    using assms False by (auto simp: refs_ok_def)
  with False assms show ?thesis
    by (simp add: ensureExceptionClass_def makeGlobalClassRef_def wp_simps class_made_def refs_ok_def)
qed

lemma ensure_step:
  assumes "refs_ok w" and "pins w = []"
    and "c \<in> {NullPointerException, IllegalArgumentException, IllegalStateException, OutOfMemoryError}"
    and "\<And>w'. refs_ok w' \<Longrightarrow> pins w' = [] \<Longrightarrow> Q False w'"
    and "\<And>w'. refs_ok w' \<Longrightarrow> pins w' = [] \<Longrightarrow> pending w' = pending w \<Longrightarrow> wp k Q (\<lambda>_ _. False) w'"
  shows "wp (bnd (ensureExceptionClass c) (\<lambda>ok. if \<not> ok then ret False else k)) Q (\<lambda>_ _. False) w"
  unfolding wp_bnd
  by (rule wp_mono [OF wp_ensureExceptionClass [OF assms(1-3)]])
    (use assms(2,4,5) in \<open>auto simp: class_made_def wp_if wp_ret\<close>)

lemma wp_initJniRefs:
  assumes "refs_ok w" and "pins w = []"
  shows "wp initJniRefs (\<lambda>ok w'. refs_ok w' \<and> pins w' = [] \<and> (ok \<longrightarrow> pending w' = pending w)) (\<lambda>_ _. False) w"
  unfolding initJniRefs_def
  apply (rule ensure_step [OF assms], simp, simp)
  apply (rule ensure_step, assumption+, simp, simp)
  apply (rule ensure_step, assumption+, simp, simp)
  apply (rule ensure_step, assumption+, simp, simp)
  apply (simp add: wp_ret)
  done

lemma wp_clearRef:
  assumes "refs_ok w" and "pins w = []"
  shows "wp (clearRef c) (\<lambda>_ w'. refs_ok w' \<and> pins w' = [] \<and> pending w' = pending w
    \<and> class_refs w' = (class_refs w)(c := False)) (\<lambda>_ _. False) w"
proof (cases "class_refs w c")
  case True
  then have "refs_ok (v\<lparr>global_refs := remove1 c (global_refs w), class_refs := (class_refs w)(c := False)\<rparr>)"
    for v :: "'a jvm_scheme"
    using assms(1) by (auto simp: refs_ok_def count_list_remove1)
  with True assms(2) show ?thesis by (simp add: clearRef_def wp_simps)
next
  case False
  then have "(class_refs w)(c := False) = class_refs w" by (simp add: fun_upd_idem)
  with False assms show ?thesis by (simp add: clearRef_def wp_simps)
qed

lemma wp_clearJniRefs:
  assumes "refs_ok w" and "pins w = []"
  shows "wp clearJniRefs (\<lambda>_ w'. global_refs w' = [] \<and> (\<forall>c. \<not> class_refs w' c) \<and> \<not> handle_field w'
    \<and> pending w' = pending w \<and> pins w' = []) (\<lambda>_ _. False) w"
proof -
  have none: "global_refs v = []" if "refs_ok v" "\<forall>c. \<not> class_refs v c" for v :: "'a jvm_scheme"
  proof -
    have "count_list (global_refs v) c = 0" for c using that by (simp add: refs_ok_def)
    then have "c \<notin> set (global_refs v)" for c using count_list_0_iff by metis
    then show ?thesis by (cases "global_refs v") auto
  qed
  have off: "\<not> class_refs v c" if "refs_ok w" "class_refs v = ((((class_refs w)(NullPointerException := False))
      (IllegalArgumentException := False))(IllegalStateException := False))(OutOfMemoryError := False)"
    for v :: "'a jvm_scheme" and c
    using that by (auto simp: refs_ok_def)
  show ?thesis
    unfolding clearJniRefs_def wp_seq
    apply (rule wp_mono [OF wp_clearRef [OF assms]])
     apply (rule wp_mono [OF wp_clearRef], simp, simp)
      apply (rule wp_mono [OF wp_clearRef], simp, simp)
       apply (rule wp_mono [OF wp_clearRef], simp, simp)
        apply (simp_all add: wp_modify)
    subgoal premises p for w1 w2 w3 w4
    proof -
      have n: "\<forall>c. \<not> class_refs w4 c" using off [OF assms(1), of w4] p by blast
      have "global_refs w4 = []" by (rule none) (use p n in blast)+
      moreover have "pending w4 = pending w" "pins w4 = []" using p by blast+
      moreover have "\<not> class_refs w c" if "c \<notin> {NullPointerException, IllegalArgumentException,
          IllegalStateException, OutOfMemoryError}" for c
        using assms(1) that by (auto simp: refs_ok_def)
      ultimately show ?thesis using n by simp
    qed
    done
qed

text \<open>C20. Loading the library returns the JNI version, leaves no exception pending and every cached
  class with exactly one global reference, whichever lookups fail; unloading releases every
  global reference and forgets the cached field.\<close>

lemma load_unload_refs:
  assumes "refs_ok w" and "pins w = []" and "pending w = None"
  shows "wp (JNI_OnLoad attached) (\<lambda>v w'. v = JNI_VERSION_1_6 \<and> pending w' = None \<and> refs_ok w') (\<lambda>_ _. False) w
    \<and> wp (JNI_OnUnload True) (\<lambda>_ w'. global_refs w' = [] \<and> (\<forall>c. \<not> class_refs w' c) \<and> \<not> handle_field w'
        \<and> pending w' = None) (\<lambda>_ _. False) w"
proof
  show "wp (JNI_OnLoad attached) (\<lambda>v w'. v = JNI_VERSION_1_6 \<and> pending w' = None \<and> refs_ok w') (\<lambda>_ _. False) w"
  proof (cases attached)
    case True
    then show ?thesis
      unfolding JNI_OnLoad_def wp_seq
      by (simp only: if_True wp_bnd)
        (rule wp_mono [OF wp_initJniRefs [OF assms(1,2)]],
          auto simp: wp_simps exceptionClear_def assms(3) refs_ok_def, metis option.exhaust surj_pair)
  qed (use assms in \<open>simp add: JNI_OnLoad_def wp_simps\<close>)
  show "wp (JNI_OnUnload True) (\<lambda>_ w'. global_refs w' = [] \<and> (\<forall>c. \<not> class_refs w' c) \<and> \<not> handle_field w'
        \<and> pending w' = None) (\<lambda>_ _. False) w"
    unfolding JNI_OnUnload_def if_True wp_seq
    by (rule wp_mono [OF wp_clearJniRefs [OF assms(1,2)]]) (auto simp: wp_simps exceptionClear_def assms(3))
qed

lemma load_unload_refs_witness:
  "wp (JNI_OnLoad True) (\<lambda>v w'. v = JNI_VERSION_1_6 \<and> pending w' = None \<and> refs_ok w') (\<lambda>_ _. False)
      (sample_world\<lparr>class_refs := (\<lambda>_. False)\<rparr>)
    \<and> wp (JNI_OnUnload True) (\<lambda>_ w'. global_refs w' = [] \<and> (\<forall>c. \<not> class_refs w' c) \<and> \<not> handle_field w'
        \<and> pending w' = None) (\<lambda>_ _. False) (sample_world\<lparr>class_refs := (\<lambda>_. False)\<rparr>)"
  by (rule load_unload_refs) (simp_all add: refs_ok_def sample_world_def)

section \<open>Reset and recycling\<close>

text \<open>What a graph selection does to a compressor.\<close>

definition selected :: "('k, 'c, 'd) zl \<Rightarrow> nat \<Rightarrow> 'k \<Rightarrow> 'k" where
  "selected L g k = snd (zl_selectStartingGraph L g k)"

lemma wp_configureGraph:
  "wp (configureGraph L) (\<lambda>_ s'. startingGraph s' = startingGraph s \<and> outputScratch s' = outputScratch s
     \<and> compressor s' = selected L (startingGraph s) (compressor s)) (\<lambda>_ _. True) s"
  by (simp add: configureGraph_def wp_simps selected_def split: report.split)

lemma wp_applyDefaultParameters:
  "wp (applyDefaultParameters L) (\<lambda>_ s'. startingGraph s' = startingGraph s \<and> outputScratch s' = outputScratch s
     \<and> compressor s' = compressor s) (\<lambda>_ _. True) s"
  by (simp add: applyDefaultParameters_def wp_simps split: report.split)

lemma wp_resetState:
  "wp (resetState L) (\<lambda>_ s'. startingGraph s' = startingGraph s
     \<and> compressor s' = selected L (startingGraph s) (compressor s)
     \<and> outputScratch s' = scratch_reset (outputScratch s)) (\<lambda>_ _. True) s"
  unfolding resetState_def
  by (simp add: wp_simps split: report.split)
    (intro impI, rule wp_mono [OF wp_applyDefaultParameters], simp_all add: wp_seq,
      rule wp_mono [OF wp_configureGraph], simp_all add: wp_modify)

lemma wp_setGraph:
  "wp (setGraph L g) (\<lambda>_ s'. startingGraph s' = g \<and> compressor s' = selected L g (compressor s)
     \<and> outputScratch s' = outputScratch s) (\<lambda>_ _. True) s"
  unfolding setGraph_def wp_seq wp_modify
  by (rule wp_mono [OF wp_configureGraph]) simp_all

text \<open>C21. A successful reset empties the scratch buffer but leaves the compressor object as it
  was apart from selecting its own starting graph again: parameters set on it, the compression
  level among them, survive the reset.\<close>

lemma reset_keeps_compressor:
  assumes "natives w h = Some s" and "on_state h (resetState L) w = (Ret (), w')"
  shows "\<exists>s'. natives w' h = Some s' \<and> startingGraph s' = startingGraph s
    \<and> compressor s' = selected L (startingGraph s) (compressor s)
    \<and> sc_size (outputScratch s') = 0 \<and> sc_data (outputScratch s') = sc_data (outputScratch s)"
proof -
  have "wp (on_state h (resetState L)) (\<lambda>_ w'. \<exists>s'. natives w' h = Some s' \<and> startingGraph s' = startingGraph s
    \<and> compressor s' = selected L (startingGraph s) (compressor s)
    \<and> sc_size (outputScratch s') = 0 \<and> sc_data (outputScratch s') = sc_data (outputScratch s)) (\<lambda>_ _. True) w"
    using assms(1) by (simp add: wp_on_state) (rule wp_mono [OF wp_resetState], simp_all add: scratch_reset_def)
  from wp_RetD [OF this assms(2)] show ?thesis .
qed

lemma reset_keeps_compressor_witness:
  "\<exists>s'. natives (snd (on_state 5 (resetState store_library) sample_world)) 5 = Some s'
    \<and> startingGraph s' = startingGraph (initial_state store_library 10)
    \<and> compressor s' = selected store_library (startingGraph (initial_state store_library 10))
        (compressor (initial_state store_library 10))
    \<and> sc_size (outputScratch s') = 0
    \<and> sc_data (outputScratch s') = sc_data (outputScratch (initial_state store_library 10))"
proof (rule reset_keeps_compressor [OF sample_world_simps(3)])
  show "on_state 5 (resetState store_library) sample_world
      = (Ret (), snd (on_state 5 (resetState store_library) sample_world))"
    by (simp add: on_state_def sample_world_simps(3) resetState_def applyDefaultParameters_def
        configureGraph_def with_cctx_def with_dctx_def with_compressor_def expectSuccess_def
        bnd_def seq_def ret_def gets_def modify_def store_library_def initial_state_def)
qed

text \<open>C15. A thread that recycles a state while its slot is free gets the same state back from its next
  creation, with the requested graph and an empty scratch buffer, but with the compressor object
  of the previous owner.\<close>

lemma recycle_then_create:
  assumes "natives w h = Some s" and "h \<noteq> 0" and "tls w (cur w) = 0"
    and "recycleState L h w = (Ret (), w1)" and "acquireState L g w1 = (Ret h', w2)"
  shows "h' = h \<and> tls w2 (cur w2) = 0 \<and> (\<exists>s'. natives w2 h = Some s' \<and> startingGraph s' = g
    \<and> sc_size (outputScratch s') = 0
    \<and> compressor s' = selected L g (selected L (startingGraph s) (selected L (startingGraph s) (compressor s))))"
proof -
  let ?k = "selected L (startingGraph s) (compressor s)"
  have "wp (recycleState L h) (\<lambda>_ w1. cur w1 = cur w \<and> tls w1 (cur w) = h \<and> (\<exists>s1. natives w1 h = Some s1 \<and>
      startingGraph s1 = startingGraph s \<and> compressor s1 = ?k)) (\<lambda>_ _. True) w"
    using assms(1-3) unfolding recycleState_def wp_if wp_seq
    by (simp add: wp_on_state) (rule wp_mono [OF wp_resetState], simp_all add: wp_simps)
  from wp_RetD [OF this assms(4)] obtain s1 where s1: "natives w1 h = Some s1" "cur w1 = cur w"
      "tls w1 (cur w1) = h" "startingGraph s1 = startingGraph s" "compressor s1 = ?k" by auto
  have "wp (acquireState L g) (\<lambda>h' w2. h' = h \<and> tls w2 (cur w2) = 0 \<and> (\<exists>s'. natives w2 h = Some s' \<and>
      startingGraph s' = g \<and> sc_size (outputScratch s') = 0 \<and>
      compressor s' = selected L g (selected L (startingGraph s) ?k))) (\<lambda>_ _. True) w1"
    using s1 assms(2) unfolding acquireState_def
    by (simp add: wp_bnd wp_gets wp_if wp_seq wp_modify wp_on_state)
      (rule wp_mono [OF wp_resetState], simp_all, rule wp_mono [OF wp_setGraph], simp_all add: wp_ret scratch_reset_def)
  from wp_RetD [OF this assms(5)] show ?thesis .
qed

text \<open>The store library never fails, so both calls of the witness return.\<close>

lemmas store_eval = on_state_def resetState_def setGraph_def applyDefaultParameters_def
  configureGraph_def with_cctx_def with_dctx_def with_compressor_def expectSuccess_def
  bnd_def seq_def ret_def gets_def modify_def

lemma recycle_then_create_witness:
  "let w1 = snd (recycleState store_library 5 sample_world);
       w2 = snd (acquireState store_library 13 w1);
       s = initial_state store_library 10 in
     tls w2 0 = 0 \<and> (\<exists>s'. natives w2 5 = Some s' \<and> startingGraph s' = 13 \<and> sc_size (outputScratch s') = 0
       \<and> compressor s' = selected store_library 13 (selected store_library (startingGraph s)
            (selected store_library (startingGraph s) (compressor s))))"
proof -
  let ?w1 = "snd (recycleState store_library 5 sample_world)"
  let ?w2 = "snd (acquireState store_library 13 ?w1)"
  have 1: "recycleState store_library 5 sample_world = (Ret (), ?w1)"
    by (simp add: recycleState_def store_eval store_library_def initial_state_def sample_world_def)
  have 2: "acquireState store_library 13 ?w1 = (Ret 5, ?w2)"
    by (simp add: acquireState_def recycleState_def store_eval store_library_def initial_state_def
        sample_world_def)
  have c: "cur ?w2 = 0" "tls sample_world (cur sample_world) = 0"
    by (simp_all add: acquireState_def recycleState_def store_eval store_library_def initial_state_def
        sample_world_def)
  show ?thesis
    using recycle_then_create [OF sample_world_simps(3) _ c(2) 1 2] c(1) by (simp add: Let_def)
qed

text \<open>When the second context cannot be created, the constructor throws and the first one stays
  allocated for ever: no state refers to it.\<close>

lemma constructor_leaks_context:
  assumes "faults w = [False, False, True]"
  shows "fst (newNativeState L g w) = Throw BadAlloc
    \<and> live_cctx (snd (newNativeState L g w)) = Suc (live_cctx w)
    \<and> natives (snd (newNativeState L g w)) = natives w"
  using assms
  by (simp add: newNativeState_def createCCtx_def createDCtx_def fault_def bnd_def seq_def ret_def
      throw_def modify_def)

lemma constructor_leaks_context_witness:
  "fst (newNativeState store_library 10 (sample_world\<lparr>faults := [False, False, True]\<rparr>)) = Throw BadAlloc
    \<and> live_cctx (snd (newNativeState store_library 10 (sample_world\<lparr>faults := [False, False, True]\<rparr>)))
        = Suc (live_cctx (sample_world\<lparr>faults := [False, False, True]\<rparr>))
    \<and> natives (snd (newNativeState store_library 10 (sample_world\<lparr>faults := [False, False, True]\<rparr>)))
        = natives (sample_world\<lparr>faults := [False, False, True]\<rparr>)"
  by (rule constructor_leaks_context) simp

section \<open>Many threads\<close>

text \<open>C13. Whatever creations, destructions, uses and thread switches happen in whatever order from a
  process without states: no two live compressors share a native state; none of their states is
  also in a thread's slot or in the global cache; the global cache holds at most eight states, each
  live and each only once; and a thread's slot holds a live state that is in neither the global
  cache nor the slot of another thread.\<close>

theorem pool_isolation:
  assumes "pool_reach L (w0, []) (w, held)" and "natives w0 = (\<lambda>_. None)" and "next_addr w0 = 1"
    and "tls w0 = (\<lambda>_. 0)" and "gcache w0 = []"
  shows "distinct held \<and> (\<forall>h \<in> set held. natives w h \<noteq> None \<and> h \<noteq> 0 \<and> h \<notin> set (gcache w)
      \<and> (\<forall>t. tls w t \<noteq> h))
    \<and> distinct (gcache w) \<and> length (gcache w) \<le> 8
    \<and> (\<forall>h \<in> set (gcache w). natives w h \<noteq> None \<and> h \<noteq> 0 \<and> (\<forall>t. tls w t \<noteq> h))
    \<and> (\<forall>t. tls w t = 0 \<or> natives w (tls w t) \<noteq> None \<and> (\<forall>u. u \<noteq> t \<longrightarrow> tls w u \<noteq> tls w t))"
proof -
  have "pool_ok (w0, [])" using assms(2-5) by (simp add: pool_ok_def)
  then have ok: "pool_ok (w, held)" by (rule pool_reach_ok [OF assms(1)])
  have cached: "natives w h \<noteq> None \<and> h \<noteq> 0 \<and> (\<forall>t. tls w t \<noteq> h)" if "h \<in> set (gcache w @ held)" for h
  proof -
    have n: "natives w h \<noteq> None" by (rule pool_okD(2) [OF ok that])
    then have "h \<noteq> 0" using pool_okD(7) [OF ok] by (intro notI) simp
    then show ?thesis using n pool_okD(4) [OF ok] that by (auto simp del: not_None_eq)
  qed
  have slots: "tls w t = 0 \<or> natives w (tls w t) \<noteq> None \<and> (\<forall>u. u \<noteq> t \<longrightarrow> tls w u \<noteq> tls w t)" for t
    using pool_okD(3) [OF ok] pool_okD(5) [OF ok] by metis
  show ?thesis
    using cached slots pool_okD(1,6) [OF ok] by (auto simp: MAX_GLOBAL_CACHE_def simp del: not_None_eq)
qed

text \<open>C14. In every such process, creating a compressor and destroying a held one show no undefined
  behaviour, whichever allocations and library calls fail.\<close>

theorem pool_defined:
  assumes "pool_reach L (w0, []) (w, held)" and "natives w0 = (\<lambda>_. None)" and "next_addr w0 = 1"
    and "tls w0 = (\<lambda>_. 0)" and "gcache w0 = []" and "h \<in> set held"
  shows "fst (nativeCreate L g w) \<notin> {Undef} \<union> range Throw \<and> fst (recycleState L h w) \<noteq> Undef"
proof -
  have "pool_ok (w0, [])" using assms(2-5) by (simp add: pool_ok_def)
  then have ok: "pool_ok (w, held)" by (rule pool_reach_ok [OF assms(1)])
  have "wp (nativeCreate L g) (\<lambda>_ _. True) (\<lambda>_ _. False) w"
    unfolding nativeCreate_def wp_try_catch by (rule wp_mono [OF wp_acquire_ok [OF ok]]) (simp_all add: wp_ret)
  then have "fst (nativeCreate L g w) \<notin> {Undef} \<union> range Throw"
    by (auto simp: wp_def split: prod.splits)
  then show ?thesis using wp_UndefD [OF wp_recycle_ok [OF ok assms(6)]] by blast
qed

text \<open>A process without states, and one step of it.\<close>

definition empty_world :: "(unit, unit, unit) world" where
  "empty_world = sample_world\<lparr>natives := (\<lambda>_. None), next_addr := 1\<rparr>"

lemma empty_world_create:
  "pool_reach store_library (empty_world, []) (snd (acquireState store_library 10 empty_world), [1])"
proof -
  have "acquireState store_library 10 empty_world = (Ret 1, snd (acquireState store_library 10 empty_world))"
    by (simp add: acquireState_def newNativeState_def createCCtx_def createDCtx_def fault_def store_eval
        store_library_def initial_state_def sample_world_def empty_world_def)
  from pool_step.create [OF this, of "[]"] show ?thesis
    by (intro pool_reach.later [OF pool_reach.start]) simp
qed

lemma pool_isolation_witness:
  "let w = snd (acquireState store_library 10 empty_world) in
     distinct [1::nat] \<and> natives w 1 \<noteq> None \<and> (1::nat) \<notin> set (gcache w) \<and> (\<forall>t. tls w t \<noteq> 1)
     \<and> distinct (gcache w) \<and> length (gcache w) \<le> 8"
  using pool_isolation [OF empty_world_create] by (simp add: empty_world_def sample_world_def Let_def)

lemma pool_defined_witness:
  "fst (recycleState store_library 1 (snd (acquireState store_library 10 empty_world))) \<noteq> Undef"
  using pool_defined [OF empty_world_create, of 1 3] by (simp add: empty_world_def sample_world_def)

section \<open>Argument checks and ordinals\<close>

lemma run_of_wp:
  assumes "wp m (\<lambda>a s'. a = x \<and> s' = y) (\<lambda>_ _. False) s"
  shows "m s = (Ret x, y)"
  using assms by (auto simp: wp_def split: prod.splits outcome.splits)

text \<open>C16. For every \<open>jint\<close> offset and length the two range checks decide the mathematical range
  condition, although they compute with 32-bit and 64-bit words: they accept without touching
  the JVM exactly when both are non-negative and their sum is at most the length, and otherwise
  refuse with \<open>IllegalArgumentException\<close>.\<close>

theorem range_checks_exact:
  assumes "jvm_ok w" and "pins w = []" and "class_refs w IllegalArgumentException"
    and "objs w arr = Some (JByteArr bs)" and "objs w buf = Some (JDirect ds)"
  shows "(if 0 \<le> sint off \<and> 0 \<le> sint len \<and> sint off + sint len \<le> int (length bs)
      then checkArrayRange arr off len nm w = (Ret True, w)
      else fst (checkArrayRange arr off len nm w) = Ret False \<and>
        (\<exists>m. pending (snd (checkArrayRange arr off len nm w)) = Some (IllegalArgumentException, m)))
    \<and> (if 0 \<le> sint off \<and> 0 \<le> sint len \<and> sint off + sint len \<le> int (length ds)
      then ensureDirectRange buf off len nm w = (Ret True, w)
      else fst (ensureDirectRange buf off len nm w) = Ret False \<and>
        (\<exists>m. pending (snd (ensureDirectRange buf off len nm w)) = Some (IllegalArgumentException, m)))"
proof -
  have range: "in_range off len n \<longleftrightarrow> 0 \<le> sint off \<and> 0 \<le> sint len \<and> sint off + sint len \<le> int n" for n
    by (auto simp: in_range_def jneg_def jsize_def)
  have nz: "arr \<noteq> 0" "buf \<noteq> 0" using assms(1,4,5) by (auto intro: gr0I)
  have neg: "jneg off \<or> jneg len \<Longrightarrow> \<not> in_range off len n" for n by (auto simp: in_range_def)
  note ex = thrown_pending [of w IllegalArgumentException, OF assms(3)]
  have refused: "fst (m w) = Ret False \<and> (\<exists>msg. pending (snd (m w)) = Some (IllegalArgumentException, msg))"
    if "wp m (\<lambda>a w'. a = False \<and> (\<exists>msg. w' = thrown IllegalArgumentException msg w)) (\<lambda>_ _. False) w"
    for m :: "('a jvm_scheme, bool) act"
    using that ex by (auto simp: wp_def split: prod.splits outcome.splits)
  have a: "if in_range off len (length bs) then checkArrayRange arr off len nm w = (Ret True, w)
      else fst (checkArrayRange arr off len nm w) = Ret False \<and>
        (\<exists>m. pending (snd (checkArrayRange arr off len nm w)) = Some (IllegalArgumentException, m))"
    using neg by (auto intro!: run_of_wp refused simp: wp_checkArrayRange [OF assms(1,2)] nz assms(4))
  have d: "if in_range off len (length ds) then ensureDirectRange buf off len nm w = (Ret True, w)
      else fst (ensureDirectRange buf off len nm w) = Ret False \<and>
        (\<exists>m. pending (snd (ensureDirectRange buf off len nm w)) = Some (IllegalArgumentException, m))"
    using neg by (auto intro!: run_of_wp refused simp: wp_ensureDirectRange [OF assms(1,2)] nz assms(5))
  show ?thesis using a d unfolding range by blast
qed

lemma range_checks_exact_witness:
  "checkArrayRange 2 1 3 ''src'' sample_world = (Ret True, sample_world)
    \<and> fst (ensureDirectRange 6 2147483647 2147483647 ''src'' sample_world) = Ret False"
proof -
  have refs: "class_refs sample_world IllegalArgumentException" by (simp add: sample_world_def)
  note checks = range_checks_exact [OF sample_world_ok sample_world_simps(1) refs sample_world_simps(4,7)]
  show ?thesis using checks [of 1 3 "''src''"] checks [of 2147483647 2147483647 "''src''"] by simp
qed

text \<open>C17. If the library numbers the standard graphs apart, every ordinal from 0 to 8 names a graph
  that is reported under the same ordinal; every other ordinal falls back to graph 0, and a
  graph that is not standard is reported as -1.\<close>

theorem graph_ordinals:
  assumes "inj (zl_gid L)"
  shows "graphOrdinalFromId L (graphIdFromOrdinal L i) = (if 0 \<le> sint i \<and> sint i \<le> 8 then i else 0)
    \<and> (graphOrdinalFromId L g = -1 \<longleftrightarrow> g \<notin> range (zl_gid L))"
proof
  have apart: "zl_gid L a = zl_gid L b \<longleftrightarrow> a = b" for a b using assms by (auto dest: injD)
  have "i \<in> {0, 1, 2, 3, 4, 5, 6, 7, 8}" if "0 \<le> sint i" "sint i \<le> 8"
  proof -
    have "i = j" if "sint i = sint j" for j :: jint using that by (simp add: signed_word_eqI)
    note eq = this [of 0] this [of 1] this [of 2] this [of 3] this [of 4] this [of 5] this [of 6]
      this [of 7] this [of 8]
    have "sint i = 0 \<or> sint i = 1 \<or> sint i = 2 \<or> sint i = 3 \<or> sint i = 4 \<or> sint i = 5
      \<or> sint i = 6 \<or> sint i = 7 \<or> sint i = 8" using that by arith
    then show ?thesis using eq by auto
  qed
  then show "graphOrdinalFromId L (graphIdFromOrdinal L i) = (if 0 \<le> sint i \<and> sint i \<le> 8 then i else 0)"
    by (auto simp: graphOrdinalFromId_def graphIdFromOrdinal_def graphEquals_def apart)
  show "graphOrdinalFromId L g = -1 \<longleftrightarrow> g \<notin> range (zl_gid L)"
  proof (cases "g \<in> range (zl_gid L)")
    case True
    then obtain x where "g = zl_gid L x" by blast
    then show ?thesis by (cases x) (simp_all add: graphOrdinalFromId_def graphEquals_def apart)
  next
    case False
    then have "g \<noteq> zl_gid L x" for x by blast
    with False show ?thesis by (simp add: graphOrdinalFromId_def graphEquals_def)
  qed
qed

lemma graph_ordinals_witness:
  "graphOrdinalFromId store_library (graphIdFromOrdinal store_library 7) = 7
    \<and> graphOrdinalFromId store_library 99 = -1"
proof -
  have gid: "inj (zl_gid store_library)"
    by (auto simp: inj_def store_library_def split: std_graph.splits)
  have "99 \<notin> range (zl_gid store_library)"
    by (auto simp: store_library_def split: std_graph.splits)
  then show ?thesis using graph_ordinals [OF gid, of 7 99] by simp
qed

end
