(* ===== verification/Oneoff_Props.thy ===== *)
theory Oneoff_Props
  imports Lifecycle
begin

text \<open>
  Properties of the one-off operations of \<open>Compressor_Oneoff\<close> and of the configuration
  handlers of \<open>Compressor_Main\<close>.
\<close>

section \<open>Compression with a profile\<close>

text \<open>
  What the library makes of a profile when every call succeeds: the compressor and the
  context that the compression runs with.
\<close>

definition ok_step :: "report \<times> 'c \<Rightarrow> ('c \<Rightarrow> 'a option) \<Rightarrow> 'a option" where
  "ok_step rc k = (case rc of (ZErr _, _) \<Rightarrow> None | (ZOk _, c) \<Rightarrow> k c)"

definition profile_context :: "('k, 'c, 'd) zl \<Rightarrow> ('k, 'p) cli \<Rightarrow> string \<Rightarrow> ('k \<times> 'c) option" where
  "profile_context L C profile = (case makeProfileArgs C profile [] of
      Inl _ \<Rightarrow> None
    | Inr args \<Rightarrow> (case cl_gen C profile args (zl_new_compressor L) of
        (Inl _, _) \<Rightarrow> None
      | (Inr gid, k1) \<Rightarrow> (case cl_selectStartingGraph C gid k1 of
          (Some _, _) \<Rightarrow> None
        | (None, k) \<Rightarrow>
          ok_step (zl_cctx_setParameter L StickyParameters 1 (zl_new_cctx L)) (\<lambda>c.
          ok_step (zl_cctx_setParameter L CompressionLevel (zl_level_default L) c) (\<lambda>c.
          ok_step (zl_cctx_setParameter L FormatVersion (zl_default_version L) c) (\<lambda>c.
          ok_step (zl_cctx_refCompressor L k c) (\<lambda>c.
          ok_step (zl_cctx_selectStartingGraph L k gid c) (\<lambda>c. Some (k, c)))))))))"

lemma contextStep_ok:
  "ok_step rc k \<noteq> None \<Longrightarrow> \<exists>n c. rc = (ZOk n, c) \<and> ok_step rc k = k c"
  by (cases rc; cases "fst rc") (auto simp: ok_step_def)

lemma profile_contextE:
  assumes "profile_context L C profile = Some (k, c)"
  obtains args gid k1 n1 c1 n2 c2 n3 c3 n4 c4 n5 where
    "makeProfileArgs C profile [] = Inr args" "cl_gen C profile args (zl_new_compressor L) = (Inr gid, k1)"
    "cl_selectStartingGraph C gid k1 = (None, k)"
    "zl_cctx_setParameter L StickyParameters 1 (zl_new_cctx L) = (ZOk n1, c1)"
    "zl_cctx_setParameter L CompressionLevel (zl_level_default L) c1 = (ZOk n2, c2)"
    "zl_cctx_setParameter L FormatVersion (zl_default_version L) c2 = (ZOk n3, c3)"
    "zl_cctx_refCompressor L k c3 = (ZOk n4, c4)"
    "zl_cctx_selectStartingGraph L k gid c4 = (ZOk n5, c)"
  using assms unfolding profile_context_def ok_step_def
  by (auto split: sum.splits prod.splits option.splits report.splits)

text \<open>The part after the arrays are pinned, when nothing fails.\<close>

lemma wp_compressOnce:
  assumes "zl_compress L k c (zl_compressBound L (length src)) src = (ZOk (length out), out, c')"
    and "length out \<le> zl_compressBound L (length src)" and "length out \<le> 2147483647"
    and "zl_compressBound L (length src) \<le> PTRDIFF_MAX" and "faults w = []"
    and "\<And>Q. (\<And>v. pins v = [] \<Longrightarrow> faults v = [] \<Longrightarrow> objs v = objs w \<Longrightarrow> next_ref v = next_ref w \<Longrightarrow>
        misuse v = misuse w \<Longrightarrow> live_cctx v = live_cctx w \<Longrightarrow> Q () v) \<Longrightarrow> wp rel Q E w"
  shows "wp (compressOnce L k c rel src msg) (\<lambda>r w'. r = next_ref w
     \<and> objs w' = (objs w)(next_ref w \<mapsto> JByteArr out) \<and> pins w' = [] \<and> misuse w' = misuse w
     \<and> live_cctx w' = live_cctx w - 1) E w"
proof -
  have out: "take (length out) (overwrite (replicate (zl_compressBound L (length src)) 0) 0 out) = out"
    using assms(2) by (simp add: overwrite_def)
  show ?thesis
    unfolding compressOnce_def Let_def
    apply (simp add: wp_bnd wp_fault no_fault assms(5) wp_if not_less [THEN iffD2, OF assms(4)] consume_none
        assms(1) not_less [THEN iffD2, OF assms(2)] wp_seq)
    apply (rule assms(6))
    using assms(2,3) out
    by (cases "out = []") (simp_all add: freeCCtx_def wp_simps newByteArray_def no_fault consume_none jint_zero
        overwrite_obj_def overwrite_full next_fault_def)
qed

lemma release_settles:
  assumes "pins w = \<lparr>pin_id = p, pin_arr = r, pin_copy = cp\<rparr> # []" and "faults w = []"
    and "\<And>v. pins v = [] \<Longrightarrow> faults v = [] \<Longrightarrow> objs v = objs w \<Longrightarrow> next_ref v = next_ref w \<Longrightarrow>
        misuse v = misuse w \<Longrightarrow> live_cctx v = live_cctx w \<Longrightarrow> Q () v"
  shows "wp (releaseCritical r p JNI_ABORT) Q E w"
  using assms by (simp add: wp_releaseCritical find_pin_def split: option.split)

text \<open>C18. With no failures, \<open>compressWithProfileNative\<close> returns a new array with the frame that the
  library makes of the input under that profile; it releases the input, frees its temporary
  context and makes no JNI call while the input is pinned.\<close>

theorem compressWithProfile_returns:
  fixes w :: "('k, 'c, 'd) world"
  assumes ok: "jvm_ok w" "pins w = []" "faults w = []"
    and profile: "objs w pn = Some (JString profile)" "knownProfile C profile"
    and input: "objs w input = Some (JByteArr ib)"
    and ctx: "profile_context L C profile = Some (k, c)"
    and call: "zl_compress L k c (zl_compressBound L (length ib)) ib = (ZOk (length out), out, c')"
    and out: "length out \<le> zl_compressBound L (length ib)" "length out \<le> 2147483647"
      "zl_compressBound L (length ib) \<le> PTRDIFF_MAX"
  shows "wp (compressWithProfileNative L C pn input) (\<lambda>r w'. r = next_ref w
     \<and> objs w' = (objs w)(next_ref w \<mapsto> JByteArr out) \<and> pins w' = [] \<and> misuse w' = misuse w
     \<and> live_cctx w' = live_cctx w) (\<lambda>_ _. False) w"
proof -
  have nz: "pn \<noteq> 0" "input \<noteq> 0" using ok(1) profile(1) input by (auto intro: gr0I)
  have len: "length ib \<le> 2147483647" using obj_ok_length [OF ok(1) input] by simp
  obtain args gid k1 n1 c1 n2 c2 n3 c3 n4 c4 n5 where lib:
    "makeProfileArgs C profile [] = Inr args" "cl_gen C profile args (zl_new_compressor L) = (Inr gid, k1)"
    "cl_selectStartingGraph C gid k1 = (None, k)"
    "zl_cctx_setParameter L StickyParameters 1 (zl_new_cctx L) = (ZOk n1, c1)"
    "zl_cctx_setParameter L CompressionLevel (zl_level_default L) c1 = (ZOk n2, c2)"
    "zl_cctx_setParameter L FormatVersion (zl_default_version L) c2 = (ZOk n3, c3)"
    "zl_cctx_refCompressor L k c3 = (ZOk n4, c4)"
    "zl_cctx_selectStartingGraph L k gid c4 = (ZOk n5, c)"
    using profile_contextE [OF ctx] by metis
  show ?thesis
    unfolding compressWithProfileNative_def
    apply (simp add: nz wp_bnd [of "getStringUTFChars pn"] wp_getStringUTFChars profile ok no_fault consume_none)
    apply (rule run_length [OF same_refl ok(2) input array_length.simps(1)])
    apply (rule run_critical [OF same_refl input ok(3)])
    subgoal for w1
      apply (drule same_eqs [of "pinned input ib w"], elim conjE)
      apply (simp add: Let_def wp_try_catch newCompressor_def wp_bnd wp_fault no_fault wp_if wp_ret consume_none
          lift_exn_def lib createCCtx_def wp_seq wp_modify defaultContext_def contextStep_def
          del: One_nat_def)
      apply (simp add: wp_readPin find_pin_def pin_bytes_def heap_bytes_def input len slice_def)
      apply (rule wp_mono [OF wp_compressOnce [where rel = "releaseCritical input (next_pin w) JNI_ABORT", OF call out]])
         apply (simp_all add: len)
       apply (rule release_settles)
         apply (simp_all add: ok)
      done
    done
qed

text \<open>A library with one profile.\<close>

definition sample_cli :: "(unit, unit) cli" where
  "sample_cli = \<lparr>
     cl_setParameter = (\<lambda>_ _ k. (None, k)), cl_getParameter = (\<lambda>_ _. Inr 0),
     cl_serialize = (\<lambda>_. Inr ''blob''), cl_serializeToJson = (\<lambda>_. Inr ''{}''),
     cl_deserialize = (\<lambda>_ k. (None, k)), cl_selectStartingGraph = (\<lambda>_ k. (None, k)),
     cl_errorContext = (\<lambda>_ _. []), cl_profiles = [(''csv'', ''tables''), (''serial'', ''bytes'')],
     cl_parseArgs = (\<lambda>_. Inr ()), cl_gen = (\<lambda>_ _ k. (Inr 13, k)),
     cl_sddl_setupProfile = (\<lambda>_ k. (ZOk 13, k)), cl_sddl_compile = (\<lambda>_ _ _. Inr [1]),
     cl_inputSetDir = (\<lambda>_ _. Inr []), cl_train = (\<lambda>_ _ _ _. Inr [])\<rparr>"

definition profile_world :: "(unit, unit, unit) world" where
  "profile_world = sample_world\<lparr>objs := (objs sample_world)(9 \<mapsto> JString ''serial'')\<rparr>"

lemma profile_world_ok: "jvm_ok profile_world"
  by (auto simp: profile_world_def jvm_ok_def sample_world_def obj_ok_def split: if_splits)

lemma sample_profile_context:
  "profile_context store_library sample_cli ''serial'' = Some ((), ())"
  by (simp add: profile_context_def makeProfileArgs_def sample_cli_def ok_step_def store_library_def)

lemma compressWithProfile_returns_witness:
  "wp (compressWithProfileNative store_library sample_cli 9 2) (\<lambda>r w'. r = next_ref profile_world
     \<and> objs w' = (objs profile_world)(next_ref profile_world \<mapsto> JByteArr [0, 1, 2, 3, 4]) \<and> pins w' = []
     \<and> misuse w' = misuse profile_world \<and> live_cctx w' = live_cctx profile_world) (\<lambda>_ _. False) profile_world"
  by (rule compressWithProfile_returns [OF profile_world_ok _ _ _ _ _ sample_profile_context, where ib = "[1, 2, 3, 4]"])
    (simp_all add: profile_world_def sample_world_def knownProfile_def sample_cli_def store_library_def
      PTRDIFF_MAX_def)

text \<open>When the output buffer of \<open>compressWithProfileNative\<close> cannot be allocated, the exception is
  caught, the input is released and \<open>IllegalStateException\<close> is raised, but the temporary context is
  never freed.\<close>

theorem compressWithProfile_leaks_context:
  fixes w :: "('k, 'c, 'd) world"
  assumes ok: "jvm_ok w" "pins w = []" "faults w = [False, False, False, False, True]"
    and refs: "class_refs w IllegalStateException"
    and profile: "objs w pn = Some (JString profile)" "knownProfile C profile"
    and input: "objs w input = Some (JByteArr ib)"
    and ctx: "profile_context L C profile = Some (k, c)"
  shows "wp (compressWithProfileNative L C pn input) (\<lambda>r w'. r = 0 \<and> pins w' = []
     \<and> pending w' = Some (IllegalStateException, ''std::bad_alloc'') \<and> live_cctx w' = Suc (live_cctx w))
     (\<lambda>_ _. False) w"
proof -
  have nz: "pn \<noteq> 0" "input \<noteq> 0" using ok(1) profile(1) input by (auto intro: gr0I)
  have len: "length ib \<le> 2147483647" using obj_ok_length [OF ok(1) input] by simp
  obtain args gid k1 n1 c1 n2 c2 n3 c3 n4 c4 n5 where lib:
    "makeProfileArgs C profile [] = Inr args" "cl_gen C profile args (zl_new_compressor L) = (Inr gid, k1)"
    "cl_selectStartingGraph C gid k1 = (None, k)"
    "zl_cctx_setParameter L StickyParameters 1 (zl_new_cctx L) = (ZOk n1, c1)"
    "zl_cctx_setParameter L CompressionLevel (zl_level_default L) c1 = (ZOk n2, c2)"
    "zl_cctx_setParameter L FormatVersion (zl_default_version L) c2 = (ZOk n3, c3)"
    "zl_cctx_refCompressor L k c3 = (ZOk n4, c4)"
    "zl_cctx_selectStartingGraph L k gid c4 = (ZOk n5, c)"
    using profile_contextE [OF ctx] by metis
  have f: "\<not> next_fault w" "\<not> next_fault (consume w)" using ok(3) by (simp_all add: next_fault_def)
  let ?w = "pinned input ib (consume (consume w))"
  have g: "faults ?w = [False, False, True]" using ok(3) by (simp add: pinned_def)
  then have h: "\<not> next_fault ?w" "\<not> next_fault (consume ?w)"
    "next_fault ((consume (consume ?w))\<lparr>live_cctx := n\<rparr>)" for n
    by (simp_all add: next_fault_def)
  show ?thesis
    unfolding compressWithProfileNative_def
    apply (simp add: nz wp_bnd [of "getStringUTFChars pn"] wp_getStringUTFChars profile ok f)
    apply (simp add: wp_bnd wp_getArrayLength ok input len wp_getCritical f)
    apply (simp add: Let_def wp_try_catch newCompressor_def wp_bnd wp_fault h wp_if wp_ret
          lift_exn_def lib createCCtx_def wp_seq wp_modify defaultContext_def contextStep_def
          del: One_nat_def)
    apply (simp add: wp_readPin find_pin_def pin_bytes_def heap_bytes_def input compressOnce_def Let_def
        wp_simps h throwIllegalState_def ensureExceptionClass_def refs ok)
    apply (simp add: thrown_def touch_def refs ok consume_def pinned_def jint_of_nat(2) [OF len])
    done
qed

lemma compressWithProfile_leaks_context_witness:
  "wp (compressWithProfileNative store_library sample_cli 9 2) (\<lambda>r w'. r = 0 \<and> pins w' = []
     \<and> pending w' = Some (IllegalStateException, ''std::bad_alloc'')
     \<and> live_cctx w' = Suc (live_cctx (profile_world\<lparr>faults := [False, False, False, False, True]\<rparr>)))
     (\<lambda>_ _. False) (profile_world\<lparr>faults := [False, False, False, False, True]\<rparr>)"
proof (rule compressWithProfile_leaks_context [OF _ _ _ _ _ _ _ sample_profile_context])
  show "jvm_ok (profile_world\<lparr>faults := [False, False, False, False, True]\<rparr>)"
    using profile_world_ok by (simp add: jvm_ok_def)
qed (simp_all add: profile_world_def sample_world_def knownProfile_def sample_cli_def)

section \<open>Configuration\<close>

text \<open>An unknown profile name is refused with an exception before anything is configured: the
  native states are untouched and no argument is read.\<close>

theorem configureProfile_unknown:
  fixes w :: "('k, 'c, 'd) world"
  assumes ok: "pins w = []" "faults w = []" and refs: "class_refs w IllegalArgumentException"
    and obj: "compressor_obj w obj h" and h: "h \<noteq> 0"
    and profile: "objs w pn = Some (JString profile)" "pn \<noteq> 0" "\<not> knownProfile C profile"
  shows "wp (configureProfileNative L C obj pn keys vals) (\<lambda>_ w'. natives w' = natives w \<and> objs w' = objs w
     \<and> pending w' = Some (IllegalArgumentException, ''Unknown compression profile: '' @ profile)) (\<lambda>_ _. False) w"
  unfolding configureProfileNative_def
  apply (rule run_state [OF same_refl obj ok h])
  subgoal for w1
    apply (drule same_eqs [of w], elim conjE)
    apply (simp add: profile wp_bnd wp_getStringUTFChars ok no_fault consume_none wp_if throwIllegalArgument_def
        ensureExceptionClass_def wp_gets refs wp_ret wp_throwCached)
    apply (simp add: thrown_pending refs)
    done
  done

definition unknown_world :: "(unit, unit, unit) world" where
  "unknown_world = sample_world\<lparr>objs := (objs sample_world)(9 \<mapsto> JString ''x'')\<rparr>"

lemma configureProfile_unknown_witness:
  "wp (configureProfileNative store_library sample_cli 1 9 0 0) (\<lambda>_ w'. natives w' = natives unknown_world
     \<and> objs w' = objs unknown_world
     \<and> pending w' = Some (IllegalArgumentException, ''Unknown compression profile: '' @ ''x''))
     (\<lambda>_ _. False) unknown_world"
  by (intro configureProfile_unknown [where h = 5])
    (simp_all add: unknown_world_def sample_world_def knownProfile_def sample_cli_def compressor_obj_def)

text \<open>The loop of \<open>listProfilesNative\<close>, from index \<open>i\<close> on.\<close>

lemma fillProfiles_run:
  assumes "pins w = []" and "faults w = []" and "objs w arr = Some (JObjArr xs)" and "arr < next_ref w"
    and "0 < next_ref w" and "i + length kvs \<le> length xs"
  shows "wp (fillProfiles arr i kvs) (\<lambda>r w'. r = arr \<and> misuse w' = misuse w \<and> (\<exists>ys. objs w' arr = Some (JObjArr ys)
     \<and> length ys = length xs \<and> (\<forall>j<i. ys ! j = xs ! j) \<and>
     (\<forall>j<length kvs. objs w' (ys ! (i + j)) = Some (JString (fst (kvs ! j) @ '':'' @ snd (kvs ! j))) \<and>
        next_ref w \<le> ys ! (i + j)) \<and> (\<forall>r<next_ref w. r \<noteq> arr \<longrightarrow> objs w' r = objs w r))) (\<lambda>_ _. False) w"
  using assms
proof (induction kvs arbitrary: i xs w)
  case Nil
  then show ?case by (auto simp: wp_ret)
next
  case (Cons kv kvs)
  obtain name desc where kv: "kv = (name, desc)" by (cases kv)
  let ?w = "(allocated (JString (name @ '':'' @ desc)) w)
    \<lparr>objs := ((objs w)(next_ref w \<mapsto> JString (name @ '':'' @ desc)))(arr \<mapsto> JObjArr (xs[i := next_ref w]))\<rparr>"
  have IH: "wp (fillProfiles arr (Suc i) kvs) (\<lambda>r w'. r = arr \<and> misuse w' = misuse ?w \<and> (\<exists>ys. objs w' arr = Some (JObjArr ys)
     \<and> length ys = length (xs[i := next_ref w]) \<and> (\<forall>j<Suc i. ys ! j = xs[i := next_ref w] ! j) \<and>
     (\<forall>j<length kvs. objs w' (ys ! (Suc i + j)) = Some (JString (fst (kvs ! j) @ '':'' @ snd (kvs ! j))) \<and>
        next_ref ?w \<le> ys ! (Suc i + j)) \<and> (\<forall>r<next_ref ?w. r \<noteq> arr \<longrightarrow> objs w' r = objs ?w r))) (\<lambda>_ _. False) ?w"
    by (rule Cons.IH) (use Cons.prems in \<open>simp_all add: no_fault\<close>)
  have "wp (fillProfiles arr i (kv # kvs)) Q E w = wp (fillProfiles arr (Suc i) kvs) Q E ?w" for Q E
    using Cons.prems by (simp add: kv wp_bnd wp_newStringUTF no_fault consume_none wp_seq wp_if
        wp_setObjectArrayElement)
  then show ?case
  proof (simp only:, intro wp_mono [OF IH])
    fix r w'
    assume "r = arr \<and> misuse w' = misuse ?w \<and> (\<exists>ys. objs w' arr = Some (JObjArr ys)
     \<and> length ys = length (xs[i := next_ref w]) \<and> (\<forall>j<Suc i. ys ! j = xs[i := next_ref w] ! j) \<and>
     (\<forall>j<length kvs. objs w' (ys ! (Suc i + j)) = Some (JString (fst (kvs ! j) @ '':'' @ snd (kvs ! j))) \<and>
        next_ref ?w \<le> ys ! (Suc i + j)) \<and> (\<forall>r<next_ref ?w. r \<noteq> arr \<longrightarrow> objs w' r = objs ?w r))"
    then obtain ys where ys: "r = arr" "misuse w' = misuse w" "objs w' arr = Some (JObjArr ys)"
      "length ys = length xs" "\<And>j. j < Suc i \<Longrightarrow> ys ! j = xs[i := next_ref w] ! j"
      "\<And>j. j < length kvs \<Longrightarrow> objs w' (ys ! Suc (i + j)) = Some (JString (fst (kvs ! j) @ '':'' @ snd (kvs ! j)))"
      "\<And>j. j < length kvs \<Longrightarrow> Suc (next_ref w) \<le> ys ! Suc (i + j)"
      "\<And>r. r < Suc (next_ref w) \<Longrightarrow> r \<noteq> arr \<Longrightarrow> objs w' r = objs ?w r" by auto
    have i: "ys ! i = next_ref w" using ys(5) [of i] Cons.prems(6) by simp
    have "objs w' (next_ref w) = Some (JString (name @ '':'' @ desc))"
      using ys(8) [of "next_ref w"] Cons.prems(4) by simp
    then have "objs w' (ys ! (i + j)) = Some (JString (fst ((kv # kvs) ! j) @ '':'' @ snd ((kv # kvs) ! j)))
        \<and> next_ref w \<le> ys ! (i + j)" if "j < length (kv # kvs)" for j
      using that ys(6,7) i by (cases j) (force simp: kv)+
    then show "r = arr \<and> misuse w' = misuse w \<and> (\<exists>ys. objs w' arr = Some (JObjArr ys)
     \<and> length ys = length xs \<and> (\<forall>j<i. ys ! j = xs ! j) \<and>
     (\<forall>j<length (kv # kvs). objs w' (ys ! (i + j)) = Some (JString (fst ((kv # kvs) ! j) @ '':'' @ snd ((kv # kvs) ! j))) \<and>
        next_ref w \<le> ys ! (i + j)) \<and> (\<forall>r<next_ref w. r \<noteq> arr \<longrightarrow> objs w' r = objs w r))"
      using ys by auto
  qed simp
qed

text \<open>C19. With no failures, \<open>listProfilesNative\<close> returns a new array with one string \<open>name:description\<close>
  per profile, in the order of the profile map.\<close>

theorem listProfiles_spec:
  fixes w :: "'z jvm_scheme"
  assumes "pins w = []" "faults w = []" "0 < next_ref w" "length (cl_profiles C) \<le> 2147483647"
  shows "wp (listProfilesNative C) (\<lambda>r w'. r = next_ref w \<and> misuse w' = misuse w \<and> (\<exists>ys.
      objs w' r = Some (JObjArr ys)
      \<and> map (objs w') ys = map (\<lambda>(name, desc). Some (JString (name @ '':'' @ desc))) (cl_profiles C))
    \<and> (\<forall>x < next_ref w. objs w' x = objs w x)) (\<lambda>_ _. False) w"
proof -
  let ?n = "length (cl_profiles C)"
  let ?w = "allocated (JObjArr (replicate ?n 0)) w"
  have run: "wp (fillProfiles (next_ref w) 0 (cl_profiles C)) Q E ?w \<Longrightarrow> wp (listProfilesNative C) Q E w" for Q E
    using assms by (simp add: listProfilesNative_def findClass_def wp_bnd wp_seq wp_jni wp_fault no_fault consume_none
        wp_ret newObjectArray_def wp_newArray jint_of_nat)
  show ?thesis
  proof (rule run, rule wp_mono [OF fillProfiles_run [where xs = "replicate ?n 0"]])
    fix r w'
    assume "r = next_ref w \<and> misuse w' = misuse ?w \<and> (\<exists>ys. objs w' (next_ref w) = Some (JObjArr ys)
     \<and> length ys = length (replicate ?n (0::nat)) \<and> (\<forall>j<0. ys ! j = replicate ?n 0 ! j) \<and>
     (\<forall>j<?n. objs w' (ys ! (0 + j)) = Some (JString (fst (cl_profiles C ! j) @ '':'' @ snd (cl_profiles C ! j))) \<and>
        next_ref ?w \<le> ys ! (0 + j)) \<and> (\<forall>r<next_ref ?w. r \<noteq> next_ref w \<longrightarrow> objs w' r = objs ?w r))"
    then obtain ys where ys: "r = next_ref w" "misuse w' = misuse w" "objs w' r = Some (JObjArr ys)"
      "length ys = ?n"
      "\<And>j. j < ?n \<Longrightarrow> objs w' (ys ! j) = Some (JString (fst (cl_profiles C ! j) @ '':'' @ snd (cl_profiles C ! j)))"
      "\<And>x. x < next_ref w \<Longrightarrow> objs w' x = objs w x" by auto
    have "map (objs w') ys = map (\<lambda>(name, desc). Some (JString (name @ '':'' @ desc))) (cl_profiles C)"
      by (rule nth_equalityI) (simp_all add: ys(4,5) split_beta)
    then show "r = next_ref w \<and> misuse w' = misuse w \<and> (\<exists>ys. objs w' r = Some (JObjArr ys)
      \<and> map (objs w') ys = map (\<lambda>(name, desc). Some (JString (name @ '':'' @ desc))) (cl_profiles C))
      \<and> (\<forall>x < next_ref w. objs w' x = objs w x)"
      using ys(1-3,6) by auto
  qed (use assms in \<open>simp_all add: no_fault\<close>)
qed

lemma listProfiles_spec_witness:
  "wp (listProfilesNative sample_cli) (\<lambda>r w'. r = next_ref sample_world \<and> misuse w' = misuse sample_world \<and> (\<exists>ys.
      objs w' r = Some (JObjArr ys)
      \<and> map (objs w') ys = map (\<lambda>(name, desc). Some (JString (name @ '':'' @ desc))) (cl_profiles sample_cli))
    \<and> (\<forall>x < next_ref sample_world. objs w' x = objs sample_world x)) (\<lambda>_ _. False) sample_world"
  by (rule listProfiles_spec) (simp_all add: sample_world_def sample_cli_def)

end
