(* ===== verification/Structured_Tags.thy ===== *)
theory Structured_Tags
  imports OZ_Prelude
begin

text \<open>
  \<open>JNI/OpenZLProtobuf.cpp\<close>: the tags that name the streams of a structured message.  The path
  from the root message to a field is folded into an FNV hash; its low 31 bits are the tag.
\<close>

section \<open>Constants and hashes\<close>

definition kStructuredFieldIdTag :: jint where "kStructuredFieldIdTag = -1"
definition kStructuredFieldTypeTag :: jint where "kStructuredFieldTypeTag = -2"
definition kStructuredFieldLengthTag :: jint where "kStructuredFieldLengthTag = -3"
definition kStructuredControlMagic :: u32 where "kStructuredControlMagic = 0x5A4C5053"
definition kStructuredControlFieldIds :: u32 where "kStructuredControlFieldIds = 1"
definition kStructuredControlFieldTypes :: u32 where "kStructuredControlFieldTypes = 2"
definition kStructuredControlFieldLengths :: u32 where "kStructuredControlFieldLengths = 3"
definition kStructuredRootPathHash :: u32 where "kStructuredRootPathHash = 0x811c9dc5"
definition kStructuredFnvPrime :: u32 where "kStructuredFnvPrime = 0x01000193"

definition structuredFNV :: "u32 \<Rightarrow> u32 \<Rightarrow> u32" where
  "structuredFNV hash val = (hash XOR val) * kStructuredFnvPrime"

definition structuredExtendPathHash :: "u32 \<Rightarrow> u32 \<Rightarrow> u32" where
  "structuredExtendPathHash pathHash fieldNumber =
     (let hash = pathHash;
          hash = structuredFNV hash (fieldNumber AND 0xFF);
          hash = structuredFNV hash (drop_bit 8 fieldNumber AND 0xFF);
          hash = structuredFNV hash (drop_bit 16 fieldNumber AND 0xFF);
          hash = structuredFNV hash (drop_bit 24 fieldNumber AND 0xFF)
      in hash)"

definition structuredFieldTag :: "u32 \<Rightarrow> u32 \<Rightarrow> jint" where
  "structuredFieldTag pathHash fieldNumber =
     (let tag = structuredExtendPathHash pathHash fieldNumber AND 0x7fffffff in
      if tag = 0 then 1 else tag)"

lemmas structured_consts = kStructuredFieldIdTag_def kStructuredFieldTypeTag_def
  kStructuredFieldLengthTag_def kStructuredControlMagic_def kStructuredControlFieldIds_def
  kStructuredControlFieldTypes_def kStructuredControlFieldLengths_def

section \<open>Value tags are positive\<close>

lemma mask31: "(w :: u32) AND 0x7fffffff = take_bit 31 w"
  by (simp add: take_bit_eq_mask mask_eq_exp_minus_1)

lemma sint_take_bit31: "sint (take_bit 31 (w :: u32)) = uint w mod 2147483648"
proof -
  have "uint (take_bit 31 w) = take_bit 31 (uint w)" by (rule unsigned_take_bit_eq)
  then have "uint (take_bit 31 w) = uint w mod 2147483648" by (simp only:) (simp add: take_bit_eq_mod)
  then show ?thesis by (simp add: sint_uint signed_take_bit_int_eq_self)
qed

lemma take_bit31_iff: "take_bit 31 a = take_bit 31 (b :: u32) \<longleftrightarrow> uint a mod 2147483648 = uint b mod 2147483648"
  by (metis sint_take_bit31 signed_word_eqI)

lemma tag_positive: "0 < sint (structuredFieldTag h n)"
proof (cases "take_bit 31 (structuredExtendPathHash h n) = 0")
  case False
  then have "sint (take_bit 31 (structuredExtendPathHash h n)) \<noteq> sint (0 :: u32)"
    by (metis signed_word_eqI)
  then have "0 < sint (take_bit 31 (structuredExtendPathHash h n))"
    by (simp add: sint_take_bit31 order_less_le)
  then show ?thesis using False by (simp add: structuredFieldTag_def mask31 Let_def)
qed (simp add: structuredFieldTag_def mask31 Let_def)

text \<open>C22. Every tag of a value stream is a positive \<open>int\<close>: it is none of the three tags that mark
  the control streams.\<close>

theorem field_tag_positive:
  "0 < sint (structuredFieldTag h n) \<and> structuredFieldTag h n
     \<notin> {kStructuredFieldIdTag, kStructuredFieldTypeTag, kStructuredFieldLengthTag}"
  using tag_positive [of h n] by (auto simp: structured_consts)

section \<open>Injectivity\<close>

text \<open>The prime is odd, so a hash step loses nothing, even modulo \<open>2\<^sup>3\<^sup>1\<close>.\<close>

definition fnvInverse :: u32 where "fnvInverse = 0x359c449b"

lemma fnvInverse: "kStructuredFnvPrime * fnvInverse = 1"
  by (simp add: kStructuredFnvPrime_def fnvInverse_def)

lemma mod31_mult: "uint (a * b :: u32) mod 2147483648 = (uint a * uint b) mod 2147483648"
  by (simp add: uint_word_arith_bintrs(3) take_bit_eq_mod mod_mod_cancel)

lemma prime_cancel:
  "take_bit 31 (a * kStructuredFnvPrime) = take_bit 31 (b * kStructuredFnvPrime)
     \<longleftrightarrow> take_bit 31 a = take_bit 31 (b :: u32)" (is "?l \<longleftrightarrow> ?r")
proof
  assume ?l
  then have "(uint (a * kStructuredFnvPrime) * uint fnvInverse) mod 2147483648
      = (uint (b * kStructuredFnvPrime) * uint fnvInverse) mod 2147483648"
    unfolding take_bit31_iff by (rule mod_mult_cong) simp
  moreover have "(uint (x * kStructuredFnvPrime) * uint fnvInverse) mod 2147483648 = uint x mod 2147483648" for x
    unfolding mod31_mult [symmetric] mult.assoc fnvInverse by simp
  ultimately show ?r unfolding take_bit31_iff by simp
next
  assume ?r
  then show ?l unfolding take_bit31_iff mod31_mult by (rule mod_mult_cong) simp
qed

lemma xor_cancel: "take_bit n (a XOR v) = take_bit n (b XOR v) \<longleftrightarrow> take_bit n a = take_bit n (b :: u32)"
  by (auto simp: bit_eq_iff bit_simps)

lemma fnv_cancel:
  "take_bit 31 (structuredFNV a v) = take_bit 31 (structuredFNV b v) \<longleftrightarrow> take_bit 31 a = take_bit 31 b"
  unfolding structuredFNV_def prime_cancel by (rule xor_cancel)

text \<open>
  Two numbers that agree above the low byte, multiplied by the prime, agree above the low byte
  modulo \<open>2\<^sup>3\<^sup>1\<close> only if they are equal: the prime is \<open>2\<^sup>2\<^sup>4 + 403\<close>.
\<close>

lemma div_eq_close: "(x :: int) div 256 = y div 256 \<Longrightarrow> \<bar>x - y\<bar> < 256"
  by presburger

lemma prime_spreads:
  assumes "(x :: int) div 256 = y div 256"
    and "(x * 16777619 mod 2147483648) div 256 = (y * 16777619 mod 2147483648) div 256"
  shows "x = y"
proof -
  define d where "d = x - y"
  define e where "e = x * 16777619 mod 2147483648 - y * 16777619 mod 2147483648"
  define k where "k = x * 16777619 div 2147483648 - y * 16777619 div 2147483648"
  have "z * 16777619 = 2147483648 * (z * 16777619 div 2147483648) + z * 16777619 mod 2147483648" for z :: int
    by (rule mult_div_mod_eq [symmetric])
  from this [of x] this [of y] have eq: "d * 16777619 = 2147483648 * k + e"
    unfolding d_def e_def k_def left_diff_distrib right_diff_distrib by linarith
  have d: "-256 < d" "d < 256" using div_eq_close [OF assms(1)] by (simp_all add: d_def abs_less_iff)
  have e: "-256 < e" "e < 256" using div_eq_close [OF assms(2)] by (simp_all add: e_def abs_less_iff)
  have "-2 \<le> k" "k \<le> 2" using eq d e by linarith+
  then have k: "k = -2 \<or> k = -1 \<or> k = 0 \<or> k = 1 \<or> k = 2" by linarith
  have "d \<le> -129 \<or> d = -128 \<or> -127 \<le> d \<and> d \<le> -1 \<or> d = 0 \<or> 1 \<le> d \<and> d \<le> 127 \<or> d = 128 \<or> 129 \<le> d"
    by linarith
  with k have "d = 0" using eq d e by (elim disjE conjE) linarith+
  then show ?thesis by (simp add: d_def)
qed

lemma byte_high:
  assumes "uint (b :: u32) < 256" and "8 \<le> n"
  shows "\<not> bit b n"
proof -
  have "b = take_bit 8 b"
    using assms(1) by (simp add: word_uint_eq_iff uint_mod take_bit_eq_mod)
  then show ?thesis using assms(2) by (metis bit_take_bit_iff not_le)
qed

lemma xor_byte_div:
  assumes "uint (b :: u32) < 256"
  shows "uint (h XOR b) div 256 = uint h div 256"
proof -
  have "drop_bit 8 (h XOR b) = drop_bit 8 h"
    by (rule bit_word_eqI) (simp add: bit_simps byte_high [OF assms])
  moreover have "uint (drop_bit 8 w) = uint w div 256" for w :: u32
  proof -
    have "uint (drop_bit 8 w) = drop_bit 8 (uint w)" by (rule bit_eqI) (auto simp: bit_simps dest: bit_imp_le_length)
    then show ?thesis by (simp only: drop_bit_eq_div) simp
  qed
  ultimately show ?thesis by metis
qed

lemma fnv_two_bytes:
  assumes bytes: "uint b < 256" "uint b' < 256" "uint c < 256" "uint c' < 256"
    and eq: "take_bit 31 (structuredFNV h b XOR c) = take_bit 31 (structuredFNV h b' XOR c')"
  shows "b = b' \<and> c = c'"
proof -
  let ?X = "(h XOR b) * kStructuredFnvPrime" and ?Y = "(h XOR b') * kStructuredFnvPrime"
  have "take_bit 31 (?X XOR c) = take_bit 31 (?Y XOR c')"
    using eq by (simp add: structuredFNV_def)
  then have "uint (?X XOR c) mod 2147483648 div 256 = uint (?Y XOR c') mod 2147483648 div 256"
    unfolding take_bit31_iff by simp
  moreover have "uint (Z XOR v) mod 2147483648 div 256 = uint Z mod 2147483648 div 256" if "uint v < 256" for Z v :: u32
  proof -
    have "m mod 2147483648 div 256 = (m div 256) mod 8388608" for m :: int
      using zmod_zmult2_eq [of 8388608 m 256] by (simp add: zdiv_zmult2_eq zmod_zmult2_eq)
    then show ?thesis by (simp add: xor_byte_div [OF that])
  qed
  ultimately have "uint ?X mod 2147483648 div 256 = uint ?Y mod 2147483648 div 256"
    using bytes(3,4) by simp
  moreover have P: "uint kStructuredFnvPrime = 16777619" by (simp add: kStructuredFnvPrime_def)
  ultimately have "(uint (h XOR b) * 16777619 mod 2147483648) div 256 = (uint (h XOR b') * 16777619 mod 2147483648) div 256"
    by (simp only: mod31_mult P)
  moreover have "uint (h XOR b) div 256 = uint (h XOR b') div 256"
    using bytes(1,2) by (simp add: xor_byte_div)
  ultimately have "uint (h XOR b) = uint (h XOR b')" using prime_spreads by blast
  then have "h XOR b = h XOR b'" by (rule word_uint_eqI)
  then have b: "b = b'" by (metis xor.left_commute xor_self_eq xor.right_neutral)
  have "bit c n = bit c' n" for n
  proof (cases "n < 8")
    case True
    have "bit (take_bit 31 (structuredFNV h b XOR c)) n = bit (take_bit 31 (structuredFNV h b XOR c')) n"
      using eq b by simp
    then show ?thesis using True by (auto simp: bit_simps)
  qed (simp add: byte_high bytes)
  then show ?thesis using b by (simp add: bit_eq_iff)
qed

lemma low_byte:
  "uint ((n :: u32) AND 0xFF) < 256" "uint (drop_bit 8 n AND 0xFF) < 256"
proof -
  have "uint (w AND 0xFF) < 256" for w :: u32
  proof -
    have "w AND 0xFF = take_bit 8 w" by (simp add: take_bit_eq_mask mask_eq_exp_minus_1)
    then have "uint (w AND 0xFF) = take_bit 8 (uint w)" by (simp only: unsigned_take_bit_eq)
    then show ?thesis using take_bit_int_less_exp [of 8 "uint w"] by simp
  qed
  then show "uint (n AND 0xFF) < 256" "uint (drop_bit 8 n AND 0xFF) < 256" by blast+
qed

lemma two_byte_number:
  assumes "uint (n :: u32) < 65536"
  shows "drop_bit 16 n = 0" "drop_bit 24 n = 0"
proof -
  have "\<not> bit n k" if "16 \<le> k" for k
  proof -
    have "n = take_bit 16 n"
      using assms by (simp add: word_uint_eq_iff uint_mod take_bit_eq_mod)
    then show ?thesis using that by (metis bit_take_bit_iff not_le)
  qed
  then show "drop_bit 16 n = 0" "drop_bit 24 n = 0"
    by (auto intro!: bit_word_eqI simp: bit_simps)
qed

lemma two_byte_eq:
  assumes "uint (n :: u32) < 65536" "uint m < 65536"
    and "n AND 0xFF = m AND 0xFF" "drop_bit 8 n AND 0xFF = drop_bit 8 m AND 0xFF"
  shows "n = m"
proof -
  have eq: "w = take_bit 8 w OR push_bit 8 (take_bit 8 (drop_bit 8 w)) OR push_bit 16 (drop_bit 16 w)" for w :: u32
  proof (rule bit_word_eqI)
    fix n
    show "bit w n = bit (take_bit 8 w OR push_bit 8 (take_bit 8 (drop_bit 8 w)) OR push_bit 16 (drop_bit 16 w)) n"
      if "n < LENGTH(32)" using that by (cases "n < 8"; cases "n < 16") (auto simp: bit_simps)
  qed
  have mask: "w AND 0xFF = take_bit 8 w" for w :: u32
    by (simp add: take_bit_eq_mask mask_eq_exp_minus_1)
  show ?thesis
    using eq [of n] eq [of m] assms(3,4) two_byte_number(1) [OF assms(1)] two_byte_number(1) [OF assms(2)]
    unfolding mask by metis
qed

lemma sibling_hashes:
  assumes "uint (n :: u32) < 65536" "uint m < 65536"
    and "take_bit 31 (structuredExtendPathHash h n) = take_bit 31 (structuredExtendPathHash h m)"
  shows "n = m"
proof -
  have "take_bit 31 (structuredFNV (structuredFNV h (n AND 0xFF)) (drop_bit 8 n AND 0xFF))
      = take_bit 31 (structuredFNV (structuredFNV h (m AND 0xFF)) (drop_bit 8 m AND 0xFF))"
    using assms(3) two_byte_number [OF assms(1)] two_byte_number [OF assms(2)]
    by (simp add: structuredExtendPathHash_def Let_def fnv_cancel)
  then have "take_bit 31 (structuredFNV h (n AND 0xFF) XOR (drop_bit 8 n AND 0xFF))
      = take_bit 31 (structuredFNV h (m AND 0xFF) XOR (drop_bit 8 m AND 0xFF))"
    by (subst (asm) (1 2) structuredFNV_def) (simp only: prime_cancel)
  from fnv_two_bytes [OF low_byte(1) low_byte(1) low_byte(2) low_byte(2) this]
  show ?thesis using two_byte_eq [OF assms(1,2)] by blast
qed

text \<open>C23. Two fields of one message whose numbers fit in 16 bits have different tags, unless both
  have the tag 1, to which the hash value 0 is moved.\<close>

theorem sibling_tags_distinct:
  assumes "uint n < 65536" "uint m < 65536" "n \<noteq> m"
  shows "{structuredFieldTag h n} \<inter> {structuredFieldTag h m} \<subseteq> {1}"
  using sibling_hashes [OF assms(1,2), of h] assms(3)
  by (auto simp: structuredFieldTag_def mask31 Let_def)

lemma sibling_tags_distinct_witness:
  "{structuredFieldTag kStructuredRootPathHash 1} \<inter> {structuredFieldTag kStructuredRootPathHash 300} \<subseteq> {1}"
  by (rule sibling_tags_distinct) simp_all

end
