(* ===== verification/Structured_Frame.thy ===== *)
theory Structured_Frame
  imports Structured_Tags Native_Support
begin

text \<open>
  \<open>JNI/OpenZLProtobuf.cpp\<close>: the streams of a decompressed structured message
  (\<open>decodeStructuredFrame\<close>).  The library's decompressor and its \<open>StringReader\<close> are parameters.
\<close>

section \<open>The library as a parameter\<close>

text \<open>
  An output stream of the decompressor, with its clustering tag if it has one.  \<open>so_stringLens\<close>
  holds the \<open>so_numElts\<close> lengths of a string stream.
\<close>

record st_output =
  so_type :: zl_type
  so_eltWidth :: nat
  so_numElts :: nat
  so_content :: bytes
  so_stringLens :: "u32 list"
  so_tag :: "jint option"

text \<open>
  \<open>StringReader\<close>: a read of \<open>n\<close> bytes returns them or throws; \<open>sr_readLE\<close> is the read of a
  little-endian value of \<open>n\<close> bytes.
\<close>

record 'r reader =
  sr_open :: "bytes \<Rightarrow> 'r"
  sr_readLE :: "nat \<Rightarrow> 'r \<Rightarrow> (cpp_exn + bytes) \<times> 'r"
  sr_read :: "nat \<Rightarrow> 'r \<Rightarrow> (cpp_exn + bytes) \<times> 'r"
  sr_atEnd :: "'r \<Rightarrow> bool"

definition reader_ok :: "'r reader \<Rightarrow> ('r \<Rightarrow> bytes) \<Rightarrow> bool" where
  "reader_ok R view \<longleftrightarrow>
     (\<forall>bs. view (sr_open R bs) = bs) \<and> (\<forall>r. sr_atEnd R r \<longleftrightarrow> view r = [])
   \<and> (\<forall>n r. n \<le> length (view r) \<longrightarrow>
        (\<exists>r'. sr_readLE R n r = (Inr (take n (view r)), r') \<and> view r' = drop n (view r)))
   \<and> (\<forall>n r. \<not> n \<le> length (view r) \<longrightarrow> (\<exists>e r'. sr_readLE R n r = (Inl e, r')))
   \<and> (\<forall>n r. n \<le> length (view r) \<longrightarrow>
        (\<exists>r'. sr_read R n r = (Inr (take n (view r)), r') \<and> view r' = drop n (view r)))
   \<and> (\<forall>n r. \<not> n \<le> length (view r) \<longrightarrow> (\<exists>e r'. sr_read R n r = (Inl e, r')))"

section \<open>Streams and cursors\<close>

record owned_output =
  ow_type :: zl_type
  ow_eltWidth :: nat
  ow_numElts :: nat
  ow_bytes :: bytes
  ow_stringLengths :: "u32 list"
  ow_hasTag :: bool
  ow_tag :: jint

record 'r cursor =
  cu_output :: owned_output
  cu_data :: 'r
  cu_stringIndex :: nat

record 'r frame =
  fr_fieldIds :: "'r cursor option"
  fr_fieldTypes :: "'r cursor option"
  fr_fieldLengths :: "'r cursor option"
  fr_values :: "jint \<Rightarrow> 'r cursor option"
  fr_orderedValues :: "'r cursor list"

definition emptyFrame :: "'r frame" where
  "emptyFrame = \<lparr>fr_fieldIds = None, fr_fieldTypes = None, fr_fieldLengths = None,
     fr_values = (\<lambda>_. None), fr_orderedValues = []\<rparr>"

definition copyStructuredOutput :: "st_output \<Rightarrow> owned_output" where
  "copyStructuredOutput output =
     \<lparr>ow_type = so_type output,
      ow_eltWidth = (if so_type output = ZL_string then 0 else so_eltWidth output),
      ow_numElts = so_numElts output, ow_bytes = so_content output,
      ow_stringLengths = (if so_type output = ZL_string
        then take (so_numElts output) (so_stringLens output) else []),
      ow_hasTag = (so_tag output \<noteq> None),
      ow_tag = (case so_tag output of None \<Rightarrow> 0 | Some t \<Rightarrow> t)\<rparr>"

definition newCursor :: "'r reader \<Rightarrow> owned_output \<Rightarrow> 'r cursor" where
  "newCursor R owned = \<lparr>cu_output = owned, cu_data = sr_open R (ow_bytes owned), cu_stringIndex = 0\<rparr>"

section \<open>Reading from a cursor\<close>

text \<open>A read of the cursor's data; an exception of the reader propagates.\<close>

definition cursorLE :: "'r reader \<Rightarrow> nat \<Rightarrow> ('r cursor, bytes) act" where
  "cursorLE R n c = (case sr_readLE R n (cu_data c) of
      (Inl e, r) \<Rightarrow> (Throw e, c\<lparr>cu_data := r\<rparr>)
    | (Inr bs, r) \<Rightarrow> (Ret bs, c\<lparr>cu_data := r\<rparr>))"

definition cursorRead :: "'r reader \<Rightarrow> nat \<Rightarrow> ('r cursor, bytes) act" where
  "cursorRead R n c = (case sr_read R n (cu_data c) of
      (Inl e, r) \<Rightarrow> (Throw e, c\<lparr>cu_data := r\<rparr>)
    | (Inr bs, r) \<Rightarrow> (Ret bs, c\<lparr>cu_data := r\<rparr>))"

definition cursorLE32 :: "'r reader \<Rightarrow> ('r cursor, u32) act" where
  "cursorLE32 R = bnd (cursorLE R 4) (\<lambda>bs. ret (hd (words32 bs)))"

definition stripStructuredControlHeader :: "'r reader \<Rightarrow> ('r cursor, unit) act" where
  "stripStructuredControlHeader R =
     bnd (cursorLE32 R) (\<lambda>magic. bnd (cursorLE32 R) (\<lambda>kind.
     if magic \<noteq> kStructuredControlMagic
     then throw (RuntimeError ''Structured control stream missing magic header'') else ret ()))"

section \<open>Sorting the streams\<close>

text \<open>The stripped cursor, or the exception.\<close>

definition stripped :: "'r reader \<Rightarrow> 'r cursor \<Rightarrow> cpp_exn + 'r cursor" where
  "stripped R c = (case stripStructuredControlHeader R c of
      (Ret _, c') \<Rightarrow> Inr c' | (Throw e, _) \<Rightarrow> Inl e | (Undef, _) \<Rightarrow> Inr c)"

definition assignControl :: "u32 \<Rightarrow> 'r cursor \<Rightarrow> 'r frame \<Rightarrow> cpp_exn + 'r frame" where
  "assignControl kind c f =
     (if kind = kStructuredControlFieldIds then Inr (f\<lparr>fr_fieldIds := Some c\<rparr>)
      else if kind = kStructuredControlFieldTypes then Inr (f\<lparr>fr_fieldTypes := Some c\<rparr>)
      else if kind = kStructuredControlFieldLengths then Inr (f\<lparr>fr_fieldLengths := Some c\<rparr>)
      else Inl (RuntimeError ''Unknown structured control stream kind''))"

definition hasControlMagic :: "bytes \<Rightarrow> bool" where
  "hasControlMagic bs \<longleftrightarrow> length bs \<ge> 8 \<and> words32 bs ! 0 = kStructuredControlMagic"

text \<open>\<open>None\<close> in the result: the cursor was not a control stream and stays with the caller.\<close>

definition tryAssignStructuredControl :: "'r reader \<Rightarrow> 'r cursor \<Rightarrow> 'r frame \<Rightarrow> cpp_exn + 'r frame option" where
  "tryAssignStructuredControl R c f =
     (let bs = ow_bytes (cu_output c) in
      if \<not> hasControlMagic bs then Inr None
      else case stripped R c of
          Inl e \<Rightarrow> Inl e
        | Inr c' \<Rightarrow> (case assignControl (words32 bs ! 1) c' f of Inl e \<Rightarrow> Inl e | Inr f' \<Rightarrow> Inr (Some f')))"

text \<open>\<open>emplace\<close> keeps the stream that is there.\<close>

definition emplaceValue :: "jint \<Rightarrow> 'r cursor \<Rightarrow> 'r frame \<Rightarrow> 'r frame" where
  "emplaceValue tag c f = (if fr_values f tag = None then f\<lparr>fr_values := (fr_values f)(tag \<mapsto> c)\<rparr> else f)"

definition assignOutput :: "'r reader \<Rightarrow> st_output \<Rightarrow> 'r frame \<Rightarrow> cpp_exn + 'r frame" where
  "assignOutput R output f =
     (let owned = copyStructuredOutput output; c = newCursor R owned in
      if \<not> ow_hasTag owned \<and> hasControlMagic (ow_bytes owned) then
        (case stripped R c of Inl e \<Rightarrow> Inl e
         | Inr c' \<Rightarrow> assignControl (words32 (ow_bytes owned) ! 1) c' f)
      else if \<not> ow_hasTag owned then
        (case tryAssignStructuredControl R c f of
           Inl e \<Rightarrow> Inl e
         | Inr (Some f') \<Rightarrow> Inr f'
         | Inr None \<Rightarrow> Inr (f\<lparr>fr_orderedValues := fr_orderedValues f @ [c]\<rparr>))
      else if ow_tag owned = kStructuredFieldIdTag then
        (case stripped R c of Inl e \<Rightarrow> Inl e | Inr c' \<Rightarrow> Inr (f\<lparr>fr_fieldIds := Some c'\<rparr>))
      else if ow_tag owned = kStructuredFieldTypeTag then
        (case stripped R c of Inl e \<Rightarrow> Inl e | Inr c' \<Rightarrow> Inr (f\<lparr>fr_fieldTypes := Some c'\<rparr>))
      else if ow_tag owned = kStructuredFieldLengthTag then
        (case stripped R c of Inl e \<Rightarrow> Inl e | Inr c' \<Rightarrow> Inr (f\<lparr>fr_fieldLengths := Some c'\<rparr>))
      else Inr (emplaceValue (ow_tag owned) c f))"

fun assignOutputs :: "'r reader \<Rightarrow> st_output list \<Rightarrow> 'r frame \<Rightarrow> cpp_exn + 'r frame" where
  "assignOutputs R [] f = Inr f"
| "assignOutputs R (x # xs) f = (case assignOutput R x f of Inl e \<Rightarrow> Inl e | Inr f' \<Rightarrow> assignOutputs R xs f')"

text \<open>The second pass over the streams without a tag; \<open>kept\<close> are those passed already.\<close>

fun reassign :: "'r reader \<Rightarrow> 'r cursor list \<Rightarrow> 'r cursor list \<Rightarrow> 'r frame \<Rightarrow> cpp_exn + 'r frame" where
  "reassign R kept [] f = Inr (f\<lparr>fr_orderedValues := kept\<rparr>)"
| "reassign R kept (c # cs) f = (case tryAssignStructuredControl R c f of
      Inl e \<Rightarrow> Inl e
    | Inr (Some f') \<Rightarrow> reassign R kept cs f'
    | Inr None \<Rightarrow> reassign R (kept @ [c]) cs f)"

section \<open>The message of a frame without control streams\<close>

definition int_string :: "int \<Rightarrow> string" where
  "int_string i = (if i < 0 then ''-'' @ to_string (nat (- i)) else to_string (nat i))"

definition flag_string :: "bool \<Rightarrow> string" where
  "flag_string b = (if b then ''1'' else ''0'')"

text \<open>\<open>%08x\<close>.\<close>

definition hex_digit :: "u32 \<Rightarrow> char" where
  "hex_digit d = ''0123456789abcdef'' ! unat (d AND 0xF)"

definition hex8 :: "u32 \<Rightarrow> string" where
  "hex8 w = map (\<lambda>k. hex_digit (drop_bit k w)) [28, 24, 20, 16, 12, 8, 4, 0]"

text \<open>\<open>tcode\<close> is the number of a stream type in the library's enumeration.\<close>

definition outputDetails :: "(zl_type \<Rightarrow> nat) \<Rightarrow> nat \<Rightarrow> st_output \<Rightarrow> string" where
  "outputDetails tcode i output =
     (let string = (so_type output = ZL_string);
          width = (if string then 0 else so_eltWidth output);
          elts = (if string then 0 else so_numElts output) in
      '' | out['' @ to_string i @ ''] type='' @ to_string (tcode (so_type output))
      @ '' width='' @ to_string width @ '' elts='' @ to_string elts
      @ '' size='' @ to_string (length (so_content output))
      @ '' tag='' @ int_string (case so_tag output of None \<Rightarrow> 0 | Some t \<Rightarrow> sint t)
      @ '' present='' @ flag_string (so_tag output \<noteq> None)
      @ (if so_type output = ZL_numeric \<and> so_eltWidth output = 4 \<and> so_numElts output \<ge> 2
         then '' first=[0x'' @ hex8 (words32 (so_content output) ! 0) @ '',0x''
           @ hex8 (words32 (so_content output) ! 1) @ '']'' else []))"

definition frameDetails :: "(zl_type \<Rightarrow> nat) \<Rightarrow> st_output list \<Rightarrow> 'r frame \<Rightarrow> string" where
  "frameDetails tcode outputs f =
     ''Structured frame missing control streams outputs='' @ to_string (length outputs)
     @ '' ordered='' @ to_string (length (fr_orderedValues f))
     @ '' ids='' @ flag_string (fr_fieldIds f \<noteq> None)
     @ '' types='' @ flag_string (fr_fieldTypes f \<noteq> None)
     @ '' lengths='' @ flag_string (fr_fieldLengths f \<noteq> None)
     @ concat (map (\<lambda>(i, x). outputDetails tcode i x) (enumerate 0 (take 8 outputs)))"

definition decodeStructuredFrame :: "(bytes \<Rightarrow> cpp_exn + st_output list) \<Rightarrow> (zl_type \<Rightarrow> nat) \<Rightarrow> 'r reader
    \<Rightarrow> bytes \<Rightarrow> cpp_exn + 'r frame" where
  "decodeStructuredFrame D tcode R compressed =
     (case D compressed of
        Inl e \<Rightarrow> Inl e
      | Inr outputs \<Rightarrow> (case assignOutputs R outputs emptyFrame of
          Inl e \<Rightarrow> Inl e
        | Inr f \<Rightarrow> (case reassign R [] (fr_orderedValues f) f of
            Inl e \<Rightarrow> Inl e
          | Inr f \<Rightarrow>
            if fr_fieldIds f = None \<or> fr_fieldTypes f = None \<or> fr_fieldLengths f = None
            then Inl (RuntimeError (frameDetails tcode outputs f)) else Inr f)))"

section \<open>Where each stream goes\<close>

definition controlTags :: "jint set" where
  "controlTags = {kStructuredFieldIdTag, kStructuredFieldTypeTag, kStructuredFieldLengthTag}"

definition unnamed :: "st_output \<Rightarrow> bool" where
  "unnamed x \<longleftrightarrow> so_tag x = None \<and> \<not> hasControlMagic (so_content x)"

abbreviation outputCursor :: "'r reader \<Rightarrow> st_output \<Rightarrow> 'r cursor" where
  "outputCursor R x \<equiv> newCursor R (copyStructuredOutput x)"

lemma copy_simps [simp]:
  "ow_bytes (copyStructuredOutput x) = so_content x" "ow_hasTag (copyStructuredOutput x) \<longleftrightarrow> so_tag x \<noteq> None"
  "so_tag x = Some t \<Longrightarrow> ow_tag (copyStructuredOutput x) = t"
  "cu_output (newCursor R w) = w" "cu_data (newCursor R w) = sr_open R (ow_bytes w)"
  by (simp_all add: copyStructuredOutput_def newCursor_def)

text \<open>
  An output is named as a control stream by its tag, or without one by the kind in its header.
  The frame's cursor for it is that of the last output so named, behind the header.
\<close>

definition named :: "u32 \<Rightarrow> jint \<Rightarrow> st_output \<Rightarrow> bool" where
  "named kind tag x \<longleftrightarrow> (case so_tag x of
      Some t \<Rightarrow> t = tag
    | None \<Rightarrow> hasControlMagic (so_content x) \<and> words32 (so_content x) ! 1 = kind)"

definition headerless :: "('r \<Rightarrow> bytes) \<Rightarrow> 'r cursor \<Rightarrow> st_output \<Rightarrow> bool" where
  "headerless view c x \<longleftrightarrow> hasControlMagic (so_content x) \<and> view (cu_data c) = drop 8 (so_content x)
     \<and> cu_output c = copyStructuredOutput x"

definition from_control :: "('r \<Rightarrow> bytes) \<Rightarrow> st_output list \<Rightarrow> u32 \<Rightarrow> jint \<Rightarrow> 'r cursor option \<Rightarrow> bool" where
  "from_control view outs kind tag oc \<longleftrightarrow> rel_option (headerless view) oc (find (named kind tag) (rev outs))"

definition controls_ok :: "('r \<Rightarrow> bytes) \<Rightarrow> st_output list \<Rightarrow> 'r frame \<Rightarrow> bool" where
  "controls_ok view outs f \<longleftrightarrow>
     from_control view outs kStructuredControlFieldIds kStructuredFieldIdTag (fr_fieldIds f)
   \<and> from_control view outs kStructuredControlFieldTypes kStructuredFieldTypeTag (fr_fieldTypes f)
   \<and> from_control view outs kStructuredControlFieldLengths kStructuredFieldLengthTag (fr_fieldLengths f)"

lemma words32_hd: "4 \<le> length bs \<Longrightarrow> words32 bs = hd (words32 (take 4 bs)) # words32 (drop 4 bs)"
proof -
  assume "4 \<le> length bs"
  then obtain a b c d r where "bs = a # b # c # d # r"
    by (auto simp: numeral_eq_Suc Suc_le_length_iff)
  then show ?thesis by simp
qed

lemma readLE_ok:
  assumes "reader_ok R view"
  shows "n \<le> length (view r) \<Longrightarrow> \<exists>r'. sr_readLE R n r = (Inr (take n (view r)), r') \<and> view r' = drop n (view r)"
    and "\<not> n \<le> length (view r) \<Longrightarrow> \<exists>e r'. sr_readLE R n r = (Inl e, r')"
  using assms by (simp_all add: reader_ok_def)

lemma read_ok:
  assumes "reader_ok R view"
  shows "n \<le> length (view r) \<Longrightarrow> \<exists>r'. sr_read R n r = (Inr (take n (view r)), r') \<and> view r' = drop n (view r)"
    and "\<not> n \<le> length (view r) \<Longrightarrow> \<exists>e r'. sr_read R n r = (Inl e, r')"
  using assms by (simp_all add: reader_ok_def)

lemma stripped_ok:
  assumes R: "reader_ok R view" and run: "stripped R (newCursor R w) = Inr c"
  shows "hasControlMagic (ow_bytes w) \<and> view (cu_data c) = drop 8 (ow_bytes w) \<and> cu_output c = w"
proof -
  let ?b = "ow_bytes w"
  let ?r = "sr_open R ?b"
  have open_view: "view ?r = ?b" using R by (simp add: reader_ok_def)
  have 4: "4 \<le> length ?b"
  proof (rule ccontr)
    assume "\<not> 4 \<le> length ?b"
    then obtain e r' where "sr_readLE R 4 ?r = (Inl e, r')" using readLE_ok(2) [OF R, of 4 ?r] open_view by auto
    then show False using run
      by (simp add: stripped_def stripStructuredControlHeader_def cursorLE32_def cursorLE_def bnd_def)
  qed
  then obtain r1 where r1: "sr_readLE R 4 ?r = (Inr (take 4 ?b), r1)" "view r1 = drop 4 ?b"
    using readLE_ok(1) [OF R, of 4 ?r] open_view by auto
  have 8: "4 \<le> length (view r1)"
  proof (rule ccontr)
    assume "\<not> 4 \<le> length (view r1)"
    then obtain e r' where "sr_readLE R 4 r1 = (Inl e, r')" using readLE_ok(2) [OF R] by blast
    then show False using run r1
      by (simp add: stripped_def stripStructuredControlHeader_def cursorLE32_def cursorLE_def bnd_def ret_def)
  qed
  then obtain r2 where r2: "sr_readLE R 4 r1 = (Inr (take 4 (view r1)), r2)" "view r2 = drop 4 (view r1)"
    using readLE_ok(1) [OF R] by blast
  have "hd (words32 (take 4 ?b)) = kStructuredControlMagic" "cu_data c = r2" "cu_output c = w"
    using run r1(1) r2(1)
    by (auto simp: stripped_def stripStructuredControlHeader_def cursorLE32_def cursorLE_def bnd_def ret_def
        throw_def split: if_splits)
  then show ?thesis
    using 4 8 r1(2) r2(2) words32_hd [OF 4] by (simp add: hasControlMagic_def)
qed

lemma assign_control_keeps:
  assumes "assignControl kind c f = Inr f'"
  shows "fr_values f' = fr_values f \<and> fr_orderedValues f' = fr_orderedValues f"
  using assms by (auto simp: assignControl_def split: if_splits)

text \<open>The kind under which an output is assigned, if it is a control stream.\<close>

definition controlKindOf :: "st_output \<Rightarrow> u32 option" where
  "controlKindOf x = (case so_tag x of
      None \<Rightarrow> if hasControlMagic (so_content x) then Some (words32 (so_content x) ! 1) else None
    | Some t \<Rightarrow> if t = kStructuredFieldIdTag then Some kStructuredControlFieldIds
        else if t = kStructuredFieldTypeTag then Some kStructuredControlFieldTypes
        else if t = kStructuredFieldLengthTag then Some kStructuredControlFieldLengths else None)"

lemma named_kind:
  "named kStructuredControlFieldIds kStructuredFieldIdTag x \<longleftrightarrow> controlKindOf x = Some kStructuredControlFieldIds"
  "named kStructuredControlFieldTypes kStructuredFieldTypeTag x \<longleftrightarrow> controlKindOf x = Some kStructuredControlFieldTypes"
  "named kStructuredControlFieldLengths kStructuredFieldLengthTag x \<longleftrightarrow> controlKindOf x = Some kStructuredControlFieldLengths"
  by (auto simp: named_def controlKindOf_def structured_consts split: option.split)

lemma from_control_other:
  "\<not> named kind tag x \<Longrightarrow> from_control view (outs @ [x]) kind tag oc \<longleftrightarrow> from_control view outs kind tag oc"
  by (simp add: from_control_def)

lemma from_control_named:
  "named kind tag x \<Longrightarrow> headerless view c x \<Longrightarrow> from_control view (outs @ [x]) kind tag (Some c)"
  by (simp add: from_control_def)

lemma kinds_apart:
  "kStructuredControlFieldIds \<noteq> kStructuredControlFieldTypes" "kStructuredControlFieldIds \<noteq> kStructuredControlFieldLengths"
  "kStructuredControlFieldTypes \<noteq> kStructuredControlFieldLengths"
  by (simp_all add: structured_consts)

lemma assign_control_ok:
  assumes "assignControl kind c f = Inr f'" and "controls_ok view outs f"
    and "controlKindOf x = Some kind" and "headerless view c x"
  shows "controls_ok view (outs @ [x]) f'"
  using assms
  by (auto simp: assignControl_def controls_ok_def named_kind from_control_other from_control_named
      kinds_apart kinds_apart [symmetric] split: if_splits)

lemma controls_ok_other:
  assumes "controls_ok view outs f" and "controlKindOf x = None"
    and "fr_fieldIds f' = fr_fieldIds f" "fr_fieldTypes f' = fr_fieldTypes f" "fr_fieldLengths f' = fr_fieldLengths f"
  shows "controls_ok view (outs @ [x]) f'"
  using assms by (simp add: controls_ok_def named_kind from_control_other)

lemma assignOutput_cases:
  assumes "assignOutput R x f = Inr f'"
  obtains (control) kind c where "so_tag x = None \<or> the (so_tag x) \<in> controlTags" "\<not> unnamed x"
      "stripped R (outputCursor R x) = Inr c" "assignControl kind c f = Inr f'" "controlKindOf x = Some kind"
  | (ordered) "unnamed x" "f' = f\<lparr>fr_orderedValues := fr_orderedValues f @ [outputCursor R x]\<rparr>"
  | (tagged) t where "so_tag x = Some t" "t \<notin> controlTags" "f' = emplaceValue t (outputCursor R x) f"
proof (cases "so_tag x")
  case None
  show thesis
  proof (cases "hasControlMagic (so_content x)")
    case True
    then show thesis using assms None control [of _ "words32 (so_content x) ! 1"]
      by (auto simp: assignOutput_def Let_def unnamed_def controlKindOf_def split: sum.splits)
  next
    case False
    then show thesis using assms None ordered
      by (simp add: assignOutput_def Let_def unnamed_def tryAssignStructuredControl_def)
  qed
next
  case (Some t)
  then show thesis
    using assms tagged [of t] control [of _ kStructuredControlFieldIds] control [of _ kStructuredControlFieldTypes]
      control [of _ kStructuredControlFieldLengths]
    by (auto simp: assignOutput_def Let_def unnamed_def controlTags_def assignControl_def controlKindOf_def
        structured_consts split: sum.splits if_splits)
qed

lemma no_control:
  "unnamed x \<Longrightarrow> controlKindOf x = None" "so_tag x = Some t \<Longrightarrow> t \<notin> controlTags \<Longrightarrow> controlKindOf x = None"
  by (simp_all add: unnamed_def controlKindOf_def controlTags_def)

definition tagged :: "jint \<Rightarrow> st_output \<Rightarrow> bool" where
  "tagged t x \<longleftrightarrow> so_tag x = Some t"

lemma assignOutputs_ok:
  assumes R: "reader_ok R view" and "assignOutputs R xs f = Inr f'" and "controls_ok view pre f"
  shows "controls_ok view (pre @ xs) f'
    \<and> fr_orderedValues f' = fr_orderedValues f @ map (outputCursor R) (filter unnamed xs)
    \<and> (\<forall>t. fr_values f' t = (case fr_values f t of Some c \<Rightarrow> Some c
        | None \<Rightarrow> if t \<in> controlTags then None else map_option (outputCursor R) (find (tagged t) xs)))"
  using assms(2-)
proof (induction xs arbitrary: f pre)
  case (Cons x xs)
  then obtain f1 where f1: "assignOutput R x f = Inr f1" "assignOutputs R xs f1 = Inr f'"
    by (auto split: sum.splits)
  have later: "pre @ x # xs = (pre @ [x]) @ xs" by simp
  from f1(1) show ?case
  proof (cases rule: assignOutput_cases)
    case (control kind c)
    have "controls_ok view (pre @ [x]) f1"
      using assign_control_ok [OF control(4) Cons.prems(2) control(5)] stripped_ok [OF R control(3)]
      by (simp add: headerless_def)
    from Cons.IH [OF f1(2) this] show ?thesis
      unfolding later using control(1,2) assign_control_keeps [OF control(4)]
      by (auto simp: tagged_def split: option.splits)
  next
    case ordered
    have "controls_ok view (pre @ [x]) f1"
      by (rule controls_ok_other [OF Cons.prems(2) no_control(1) [OF ordered(1)]]) (simp_all add: ordered(2))
    from Cons.IH [OF f1(2) this] show ?thesis
      unfolding later using ordered by (auto simp: tagged_def unnamed_def split: option.splits)
  next
    case (tagged t)
    have "controls_ok view (pre @ [x]) f1"
      by (rule controls_ok_other [OF Cons.prems(2) no_control(2) [OF tagged(1,2)]])
        (simp_all add: tagged(3) emplaceValue_def)
    from Cons.IH [OF f1(2) this] show ?thesis
      unfolding later using tagged by (auto simp: tagged_def unnamed_def emplaceValue_def split: option.splits)
  qed
qed (auto split: option.splits)

text \<open>The second pass finds nothing: whatever it could assign was assigned by the first.\<close>

lemma reassign_nothing:
  "(\<And>c. c \<in> set cs \<Longrightarrow> \<not> hasControlMagic (ow_bytes (cu_output c))) \<Longrightarrow>
     reassign R kept cs f = Inr (f\<lparr>fr_orderedValues := kept @ cs\<rparr>)"
  by (induction cs arbitrary: kept) (simp_all add: tryAssignStructuredControl_def Let_def)

lemma decodeFrame_result:
  assumes R: "reader_ok R view" and run: "decodeStructuredFrame D tcode R bs = Inr f" and outs: "D bs = Inr outs"
  shows "controls_ok view outs f" "fr_fieldIds f \<noteq> None" "fr_fieldTypes f \<noteq> None" "fr_fieldLengths f \<noteq> None"
    "fr_orderedValues f = map (outputCursor R) (filter unnamed outs)"
    "fr_values f t = (if t \<in> controlTags then None else map_option (outputCursor R) (find (tagged t) outs))"
proof -
  obtain f1 f2 where f1: "assignOutputs R outs emptyFrame = Inr f1"
    and f2: "reassign R [] (fr_orderedValues f1) f1 = Inr f2"
    and f: "f = f2" "\<not> (fr_fieldIds f2 = None \<or> fr_fieldTypes f2 = None \<or> fr_fieldLengths f2 = None)"
    using run outs by (auto simp: decodeStructuredFrame_def split: sum.splits if_splits)
  have "controls_ok view [] emptyFrame" by (simp add: controls_ok_def from_control_def emptyFrame_def)
  from assignOutputs_ok [OF R f1 this] have ok: "controls_ok view outs f1"
    and ordered: "fr_orderedValues f1 = map (outputCursor R) (filter unnamed outs)"
    and vals: "fr_values f1 t = (if t \<in> controlTags then None else map_option (outputCursor R) (find (tagged t) outs))"
    by (simp_all add: emptyFrame_def)
  have "reassign R [] (fr_orderedValues f1) f1 = Inr (f1\<lparr>fr_orderedValues := [] @ fr_orderedValues f1\<rparr>)"
    by (rule reassign_nothing) (auto simp: ordered unnamed_def)
  then have "f = f1" using f2 f(1) by simp
  then show "controls_ok view outs f" "fr_fieldIds f \<noteq> None" "fr_fieldTypes f \<noteq> None" "fr_fieldLengths f \<noteq> None"
    "fr_orderedValues f = map (outputCursor R) (filter unnamed outs)"
    "fr_values f t = (if t \<in> controlTags then None else map_option (outputCursor R) (find (tagged t) outs))"
    using ok f ordered vals by simp_all
qed

text \<open>What the slot of a control stream gives to read.\<close>

lemma from_control_view:
  assumes "from_control view outs kind tag oc"
  shows "map_option (\<lambda>c. view (cu_data c)) oc
    = map_option (\<lambda>x. drop 8 (so_content x)) (find (named kind tag) (rev outs))"
proof -
  have "rel_option (headerless view) oc (find (named kind tag) (rev outs))"
    using assms by (simp add: from_control_def)
  then show ?thesis by (cases rule: option.rel_cases) (simp_all add: headerless_def)
qed

text \<open>C31. When a frame decodes, its cursor for the field ids reads what follows the header of the last
  output that is tagged as field ids, or has no tag and the kind of field ids in its header, and the
  same holds for the field types and the field lengths, each of which is there; any other tag names
  the first output that carries it, and the outputs with neither a tag nor the magic word are kept
  in their order.\<close>

theorem decodeFrame_streams:
  assumes R: "reader_ok R view" and run: "decodeStructuredFrame D tcode R bs = Inr f" and outs: "D bs = Inr outs"
  shows "fr_fieldIds f \<noteq> None \<and> map_option (\<lambda>c. view (cu_data c)) (fr_fieldIds f)
      = map_option (\<lambda>x. drop 8 (so_content x)) (find (named kStructuredControlFieldIds kStructuredFieldIdTag) (rev outs))
    \<and> fr_fieldTypes f \<noteq> None \<and> map_option (\<lambda>c. view (cu_data c)) (fr_fieldTypes f)
      = map_option (\<lambda>x. drop 8 (so_content x)) (find (named kStructuredControlFieldTypes kStructuredFieldTypeTag) (rev outs))
    \<and> fr_fieldLengths f \<noteq> None \<and> map_option (\<lambda>c. view (cu_data c)) (fr_fieldLengths f)
      = map_option (\<lambda>x. drop 8 (so_content x)) (find (named kStructuredControlFieldLengths kStructuredFieldLengthTag) (rev outs))
    \<and> (\<forall>t. map_option (\<lambda>c. view (cu_data c)) (fr_values f t)
        = (if t \<in> controlTags then None else map_option so_content (find (tagged t) outs)))
    \<and> map (\<lambda>c. view (cu_data c)) (fr_orderedValues f) = map so_content (filter unnamed outs)"
proof -
  note res = decodeFrame_result [OF assms]
  have open_view: "view (sr_open R b) = b" for b using R by (simp add: reader_ok_def)
  have "map_option (\<lambda>c. view (cu_data c)) (fr_values f t)
      = (if t \<in> controlTags then None else map_option so_content (find (tagged t) outs))" for t
    using res(6) by (simp add: open_view option.map_comp comp_def)
  moreover have "map (\<lambda>c. view (cu_data c)) (fr_orderedValues f) = map so_content (filter unnamed outs)"
    using res(5) by (simp add: open_view)
  ultimately show ?thesis
    using res(1) unfolding controls_ok_def by (simp only: from_control_view res(2-4) simp_thms)
qed

text \<open>A reader on the bytes themselves, and a frame with one value stream.\<close>

definition listRead :: "nat \<Rightarrow> bytes \<Rightarrow> (cpp_exn + bytes) \<times> bytes" where
  "listRead n r = (if n \<le> length r then (Inr (take n r), drop n r) else (Inl (RuntimeError ''truncated''), r))"

definition listReader :: "bytes reader" where
  "listReader = \<lparr>sr_open = (\<lambda>bs. bs), sr_readLE = listRead, sr_read = listRead, sr_atEnd = (\<lambda>r. r = [])\<rparr>"

lemma listReader_ok: "reader_ok listReader (\<lambda>r. r)"
  by (auto simp: reader_ok_def listReader_def listRead_def)

definition control_output :: "u32 \<Rightarrow> u32 list \<Rightarrow> st_output" where
  "control_output kind ws = \<lparr>so_type = ZL_numeric, so_eltWidth = 4, so_numElts = 2 + length ws,
     so_content = concat (map bytes32 (kStructuredControlMagic # kind # ws)), so_stringLens = [], so_tag = None\<rparr>"

definition sample_outputs :: "st_output list" where
  "sample_outputs = [control_output 1 [7], control_output 2 [1], control_output 3 [],
     \<lparr>so_type = ZL_numeric, so_eltWidth = 4, so_numElts = 1, so_content = bytes32 42, so_stringLens = [],
       so_tag = Some 5\<rparr>]"

lemma sample_frame:
  "decodeStructuredFrame (\<lambda>_. Inr sample_outputs) (\<lambda>_. 0) listReader []
     = Inr \<lparr>fr_fieldIds = Some ((outputCursor listReader (control_output 1 [7]))\<lparr>cu_data := bytes32 7\<rparr>),
         fr_fieldTypes = Some ((outputCursor listReader (control_output 2 [1]))\<lparr>cu_data := bytes32 1\<rparr>),
         fr_fieldLengths = Some ((outputCursor listReader (control_output 3 []))\<lparr>cu_data := []\<rparr>),
         fr_values = [5 \<mapsto> outputCursor listReader (sample_outputs ! 3)], fr_orderedValues = []\<rparr>"
proof -
  have strip: "stripped listReader (outputCursor listReader (control_output k ws))
      = Inr ((outputCursor listReader (control_output k ws))\<lparr>cu_data := concat (map bytes32 ws)\<rparr>)" for k ws
    by (simp add: stripped_def stripStructuredControlHeader_def cursorLE32_def cursorLE_def listReader_def
        listRead_def bnd_def ret_def newCursor_def copyStructuredOutput_def control_output_def
        words32_append_bytes32 [where xs = "[]", simplified])
  have control: "assignOutput listReader (control_output k ws) f
      = assignControl k ((outputCursor listReader (control_output k ws))\<lparr>cu_data := concat (map bytes32 ws)\<rparr>) f"
    for k ws and f :: "bytes frame"
  proof -
    have "hasControlMagic (so_content (control_output k ws))" "so_tag (control_output k ws) = None"
      "words32 (so_content (control_output k ws)) ! 1 = k"
      by (simp_all add: hasControlMagic_def control_output_def)
    then show ?thesis by (simp add: assignOutput_def strip Let_def)
  qed
  have rest: "assignOutput listReader (sample_outputs ! 3) f = Inr (emplaceValue 5 (outputCursor listReader (sample_outputs ! 3)) f)"
    for f :: "bytes frame"
    by (simp add: assignOutput_def sample_outputs_def Let_def structured_consts)
  have outs: "sample_outputs = [control_output 1 [7], control_output 2 [1], control_output 3 [], sample_outputs ! 3]"
    by (simp add: sample_outputs_def)
  have "assignOutputs listReader [control_output 1 [7], control_output 2 [1], control_output 3 [], sample_outputs ! 3] emptyFrame
     = Inr \<lparr>fr_fieldIds = Some ((outputCursor listReader (control_output 1 [7]))\<lparr>cu_data := bytes32 7\<rparr>),
         fr_fieldTypes = Some ((outputCursor listReader (control_output 2 [1]))\<lparr>cu_data := bytes32 1\<rparr>),
         fr_fieldLengths = Some ((outputCursor listReader (control_output 3 []))\<lparr>cu_data := []\<rparr>),
         fr_values = [5 \<mapsto> outputCursor listReader (sample_outputs ! 3)], fr_orderedValues = []\<rparr>"
    by (simp add: control rest assignControl_def structured_consts emplaceValue_def emptyFrame_def)
  then show ?thesis by (simp add: decodeStructuredFrame_def flip: outs)
qed

lemma decodeFrame_streams_witness:
  "\<exists>f. decodeStructuredFrame (\<lambda>_. Inr sample_outputs) (\<lambda>_. 0) listReader [] = Inr f
    \<and> map_option cu_data (fr_fieldIds f) = Some (bytes32 7) \<and> map_option cu_data (fr_fieldTypes f) = Some (bytes32 1)
    \<and> map_option cu_data (fr_fieldLengths f) = Some [] \<and> map_option cu_data (fr_values f 5) = Some (bytes32 42)
    \<and> fr_orderedValues f = []"
proof -
  obtain f where f: "decodeStructuredFrame (\<lambda>_. Inr sample_outputs) (\<lambda>_. 0) listReader [] = Inr f"
    using sample_frame by blast
  have "find (tagged 5) sample_outputs = Some (sample_outputs ! 3)"
    by (simp add: sample_outputs_def tagged_def control_output_def)
  moreover have "find (named 1 (-1)) (rev sample_outputs) = Some (control_output 1 [7])"
    "find (named 2 (-2)) (rev sample_outputs) = Some (control_output 2 [1])"
    "find (named 3 (-3)) (rev sample_outputs) = Some (control_output 3 [])"
    by (simp_all add: sample_outputs_def named_def control_output_def hasControlMagic_def
        words32_append_bytes32 [where xs = "[]", simplified])
  moreover have "filter unnamed sample_outputs = []"
    by (simp add: sample_outputs_def unnamed_def control_output_def hasControlMagic_def)
  ultimately show ?thesis
    using decodeFrame_streams [OF listReader_ok f refl]
    by (intro exI [of _ f] conjI f)
      (simp_all add: controlTags_def structured_consts control_output_def, simp_all add: sample_outputs_def)
qed

end
