(* ===== verification/Structured_Decode.thy ===== *)
theory Structured_Decode
  imports Structured_Frame
begin

text \<open>
  \<open>JNI/OpenZLProtobuf.cpp\<close>: rebuilding a message from the streams of its frame
  (\<open>readStructuredMessage\<close>).  Protobuf's messages and their reflection are a parameter.
\<close>

section \<open>Messages as a parameter\<close>

datatype cpp_type =
    CPPTYPE_INT32
  | CPPTYPE_INT64
  | CPPTYPE_UINT32
  | CPPTYPE_UINT64
  | CPPTYPE_DOUBLE
  | CPPTYPE_FLOAT
  | CPPTYPE_BOOL
  | CPPTYPE_ENUM
  | CPPTYPE_STRING
  | CPPTYPE_MESSAGE

text \<open>The numbers of protobuf's enumeration.\<close>

fun cpp_code :: "cpp_type \<Rightarrow> u32" where
  "cpp_code CPPTYPE_INT32 = 1"
| "cpp_code CPPTYPE_INT64 = 2"
| "cpp_code CPPTYPE_UINT32 = 3"
| "cpp_code CPPTYPE_UINT64 = 4"
| "cpp_code CPPTYPE_DOUBLE = 5"
| "cpp_code CPPTYPE_FLOAT = 6"
| "cpp_code CPPTYPE_BOOL = 7"
| "cpp_code CPPTYPE_ENUM = 8"
| "cpp_code CPPTYPE_STRING = 9"
| "cpp_code CPPTYPE_MESSAGE = 10"

text \<open>A field descriptor; \<open>'t\<close> stands for message descriptors.\<close>

record 't fdesc =
  fd_number :: u32
  fd_cpp_type :: cpp_type
  fd_repeated :: bool
  fd_message_type :: 't

text \<open>A scalar value is kept as its little-endian bytes.\<close>

datatype fval = FScalar bytes | FString bytes

text \<open>
  \<open>rf_mutable\<close> is the submessage that \<open>MutableMessage\<close> points to and \<open>rf_put\<close> stores it back;
  \<open>rf_newElement\<close> is the element that \<open>AddMessage\<close> appends and \<open>rf_append\<close> the message with that
  element.  \<open>rf_width\<close> is the size of the C++ type of a scalar and \<open>rf_stop\<close> the constant
  \<open>kStop\<close> of the library.
\<close>

record ('m, 't) reflect =
  rf_type :: "'m \<Rightarrow> 't"
  rf_find :: "'t \<Rightarrow> u32 \<Rightarrow> 't fdesc option"
  rf_set :: "'t fdesc \<Rightarrow> fval \<Rightarrow> 'm \<Rightarrow> 'm"
  rf_add :: "'t fdesc \<Rightarrow> fval \<Rightarrow> 'm \<Rightarrow> 'm"
  rf_mutable :: "'t fdesc \<Rightarrow> 'm \<Rightarrow> 'm"
  rf_put :: "'t fdesc \<Rightarrow> 'm \<Rightarrow> 'm \<Rightarrow> 'm"
  rf_newElement :: "'t fdesc \<Rightarrow> 'm \<Rightarrow> 'm"
  rf_append :: "'t fdesc \<Rightarrow> 'm \<Rightarrow> 'm \<Rightarrow> 'm"
  rf_width :: "cpp_type \<Rightarrow> nat"
  rf_stop :: u32

section \<open>Reading values\<close>

text \<open>Actions on one cursor of the frame; a missing cursor is a null pointer.\<close>

definition onFieldIds :: "('r cursor, 'a) act \<Rightarrow> ('r frame, 'a) act" where
  "onFieldIds m f = (case fr_fieldIds f of
      None \<Rightarrow> (Undef, f)
    | Some c \<Rightarrow> (case m c of (x, c') \<Rightarrow> (x, f\<lparr>fr_fieldIds := Some c'\<rparr>)))"

definition onFieldTypes :: "('r cursor, 'a) act \<Rightarrow> ('r frame, 'a) act" where
  "onFieldTypes m f = (case fr_fieldTypes f of
      None \<Rightarrow> (Undef, f)
    | Some c \<Rightarrow> (case m c of (x, c') \<Rightarrow> (x, f\<lparr>fr_fieldTypes := Some c'\<rparr>)))"

definition onFieldLengths :: "('r cursor, 'a) act \<Rightarrow> ('r frame, 'a) act" where
  "onFieldLengths m f = (case fr_fieldLengths f of
      None \<Rightarrow> (Undef, f)
    | Some c \<Rightarrow> (case m c of (x, c') \<Rightarrow> (x, f\<lparr>fr_fieldLengths := Some c'\<rparr>)))"

definition onValue :: "jint \<Rightarrow> ('r cursor, 'a) act \<Rightarrow> ('r frame, 'a) act" where
  "onValue tag m f = (case fr_values f tag of
      None \<Rightarrow> (Undef, f)
    | Some c \<Rightarrow> (case m c of (x, c') \<Rightarrow> (x, f\<lparr>fr_values := (fr_values f)(tag \<mapsto> c')\<rparr>)))"

definition readLengthControl :: "'r reader \<Rightarrow> ('r frame, u32) act" where
  "readLengthControl R = onFieldLengths (cursorLE32 R)"

text \<open>The index into \<open>stringLengths\<close> is not checked.\<close>

definition readStringValue :: "'r reader \<Rightarrow> u32 \<Rightarrow> ('r cursor, bytes) act" where
  "readStringValue R expectedLength c =
     (if ow_type (cu_output c) \<noteq> ZL_string
      then (Throw (RuntimeError ''Structured field stream is not string-typed''), c)
      else if cu_stringIndex c \<ge> length (ow_stringLengths (cu_output c)) then (Undef, c)
      else let actualLength = ow_stringLengths (cu_output c) ! cu_stringIndex c;
               c = c\<lparr>cu_stringIndex := Suc (cu_stringIndex c)\<rparr> in
        if actualLength \<noteq> expectedLength
        then (Throw (RuntimeError ''Structured field stream length mismatch''), c)
        else cursorRead R (unat actualLength) c)"

definition readStructuredValue :: "'r reader \<Rightarrow> ('m, 't) reflect \<Rightarrow> cpp_type \<Rightarrow> jint
    \<Rightarrow> ('r frame, fval \<times> nat) act" where
  "readStructuredValue R X ty tag =
     (if ty = CPPTYPE_STRING then
        bnd (readLengthControl R) (\<lambda>len.
        bnd (onValue tag (readStringValue R len)) (\<lambda>bs. ret (FString bs, unat len + 4)))
      else
        bnd (onValue tag (cursorLE R (rf_width X ty))) (\<lambda>bs. ret (FScalar bs, rf_width X ty)))"

fun addValues :: "'r reader \<Rightarrow> ('m, 't) reflect \<Rightarrow> 't fdesc \<Rightarrow> jint \<Rightarrow> nat \<Rightarrow> 'm \<Rightarrow> nat
    \<Rightarrow> ('r frame, 'm \<times> nat) act" where
  "addValues R X field tag 0 m tot = ret (m, tot)"
| "addValues R X field tag (Suc n) m tot =
     bnd (readStructuredValue R X (fd_cpp_type field) tag) (\<lambda>(v, size).
     addValues R X field tag n (rf_add X field v m) (tot + size))"

definition readStructuredField :: "'r reader \<Rightarrow> ('m, 't) reflect \<Rightarrow> 't fdesc \<Rightarrow> jint \<Rightarrow> 'm
    \<Rightarrow> ('r frame, 'm \<times> nat) act" where
  "readStructuredField R X field tag m =
     (if \<not> fd_repeated field then
        bnd (readStructuredValue R X (fd_cpp_type field) tag) (\<lambda>(v, size). ret (rf_set X field v m, size))
      else
        bnd (readLengthControl R) (\<lambda>count. addValues R X field tag (unat count) m 4))"

definition requireStructuredCursor :: "jint \<Rightarrow> ('r frame, unit) act" where
  "requireStructuredCursor tag f =
     (if fr_values f tag \<noteq> None then (Ret (), f)
      else case fr_orderedValues f of
          [] \<Rightarrow> (Throw (RuntimeError (''Missing structured field stream for tag '' @ int_string (sint tag))), f)
        | c # cs \<Rightarrow> (Ret (), f\<lparr>fr_orderedValues := cs, fr_values := (fr_values f)(tag \<mapsto> c)\<rparr>))"

definition typesAtEnd :: "'r reader \<Rightarrow> ('r frame, bool) act" where
  "typesAtEnd R = onFieldTypes (\<lambda>c. (Ret (sr_atEnd R (cu_data c)), c))"

section \<open>Reading messages\<close>

text \<open>
  The loop of \<open>readStructuredMessage\<close> and its recursion run on fuel; \<open>None\<close> is running out of it.
\<close>

definition bndo :: "('s, 'a option) act \<Rightarrow> ('a \<Rightarrow> ('s, 'b option) act) \<Rightarrow> ('s, 'b option) act" where
  "bndo m k = bnd m (\<lambda>r. case r of None \<Rightarrow> ret None | Some x \<Rightarrow> k x)"

fun repeatO :: "nat \<Rightarrow> ('x \<Rightarrow> ('s, 'x option) act) \<Rightarrow> 'x \<Rightarrow> ('s, 'x option) act" where
  "repeatO 0 body x = ret (Some x)"
| "repeatO (Suc n) body x = bndo (body x) (repeatO n body)"

fun readLoop :: "'r reader \<Rightarrow> ('m, 't) reflect \<Rightarrow> nat \<Rightarrow> 't \<Rightarrow> u32 \<Rightarrow> 'm \<Rightarrow> nat
    \<Rightarrow> ('r frame, ('m \<times> nat) option) act" where
  "readLoop R X 0 desc h m tot = ret None"
| "readLoop R X (Suc fuel) desc h m tot =
     bnd (typesAtEnd R) (\<lambda>atEnd. if atEnd then ret (Some (m, tot)) else
     bnd (onFieldTypes (cursorLE32 R)) (\<lambda>fieldType.
     if fieldType = rf_stop X then ret (Some (m, tot + 4)) else
     bnd (onFieldIds (cursorLE32 R)) (\<lambda>fieldId.
     case rf_find X desc fieldId of
       None \<Rightarrow> throw (RuntimeError ''Unknown field id in structured protobuf payload'')
     | Some field \<Rightarrow>
     if fieldType \<noteq> cpp_code (fd_cpp_type field)
     then throw (RuntimeError ''Structured protobuf field type mismatch'') else
     if fd_cpp_type field = CPPTYPE_MESSAGE then
       let childHash = structuredExtendPathHash h fieldId in
       if \<not> fd_repeated field then
         bndo (readLoop R X fuel (rf_type X (rf_mutable X field m)) childHash (rf_mutable X field m) 0)
           (\<lambda>(nested, size). readLoop R X fuel desc h (rf_put X field nested m) (tot + 8 + size))
       else
         bnd (readLengthControl R) (\<lambda>count.
         bndo (repeatO (unat count)
             (\<lambda>(m, tot). bndo (readLoop R X fuel (rf_type X (rf_newElement X field m)) childHash
                  (rf_newElement X field m) 0)
                (\<lambda>(nested, size). ret (Some (rf_append X field nested m, tot + size))))
             (m, tot + 12))
           (\<lambda>(m, tot). readLoop R X fuel desc h m tot))
     else
       let tag = structuredFieldTag h fieldId in
       seq (requireStructuredCursor tag)
      (bnd (readStructuredField R X field tag m) (\<lambda>(m, size).
       readLoop R X fuel desc h m (tot + 8 + size))))))"

text \<open>Every step but the last reads four bytes of the type stream, so its length is fuel enough.\<close>

definition decodeFuel :: "'r frame \<Rightarrow> nat" where
  "decodeFuel f = (case fr_fieldTypes f of None \<Rightarrow> 1 | Some c \<Rightarrow> Suc (length (ow_bytes (cu_output c))))"

definition readStructuredMessage :: "'r reader \<Rightarrow> ('m, 't) reflect \<Rightarrow> 'm \<Rightarrow> u32
    \<Rightarrow> ('r frame, ('m \<times> nat) option) act" where
  "readStructuredMessage R X m h f = readLoop R X (decodeFuel f) (rf_type X m) h m 0 f"

section \<open>Termination\<close>

text \<open>What holds of the returned values, if the action returns.\<close>

definition wlp :: "('s, 'a) act \<Rightarrow> ('a \<Rightarrow> 's \<Rightarrow> bool) \<Rightarrow> 's \<Rightarrow> bool" where
  "wlp m Q s = (case m s of (Ret a, s') \<Rightarrow> Q a s' | _ \<Rightarrow> True)"

lemma wlp_simps:
  "wlp (ret a) Q s = Q a s" "wlp (throw e) Q s"
  "wlp (bnd m k) Q s = wlp m (\<lambda>a. wlp (k a) Q) s"
  "wlp (seq m l) Q s = wlp m (\<lambda>_. wlp l Q) s"
  by (simp_all add: wlp_def ret_def throw_def bnd_def seq_def split: prod.splits outcome.splits)

lemma wlp_mono: "wlp m Q s \<Longrightarrow> (\<And>a s'. Q a s' \<Longrightarrow> Q' a s') \<Longrightarrow> wlp m Q' s"
  by (auto simp: wlp_def split: prod.splits outcome.splits)

definition finished :: "'a option \<Rightarrow> bool" where
  "finished r \<longleftrightarrow> r \<noteq> None"

lemma finished_simps [simp]: "finished (Some x)" "\<not> finished None"
  by (simp_all add: finished_def)

lemma wlp_bndo:
  assumes "wlp m (\<lambda>r s'. finished r \<and> wlp (k (the r)) Q s') s"
  shows "wlp (bndo m k) Q s"
  using assms unfolding bndo_def wlp_simps
  by (rule wlp_mono) (auto simp: finished_def split: option.splits)

definition typesLeft :: "('r \<Rightarrow> bytes) \<Rightarrow> 'r frame \<Rightarrow> nat" where
  "typesLeft view f = (case fr_fieldTypes f of None \<Rightarrow> 0 | Some c \<Rightarrow> length (view (cu_data c)))"

text \<open>An action that does not give back type bytes.\<close>

abbreviation shrinks :: "('r \<Rightarrow> bytes) \<Rightarrow> ('r frame, 'a) act \<Rightarrow> bool" where
  "shrinks view m \<equiv> \<forall>f. wlp m (\<lambda>_ f'. typesLeft view f' \<le> typesLeft view f) f"

lemma shrinks_simps:
  "shrinks view (onFieldIds k)" "shrinks view (onFieldLengths k)" "shrinks view (onValue tag k)"
  "shrinks view (requireStructuredCursor tag)" "shrinks view (ret a)" "shrinks view (throw e)"
  by (auto simp: wlp_def onFieldIds_def onFieldLengths_def onValue_def requireStructuredCursor_def typesLeft_def
      ret_def throw_def split: option.splits prod.splits outcome.splits list.splits if_splits)

lemma shrinks_bnd:
  assumes "shrinks view m" and "\<And>a. shrinks view (k a)"
  shows "shrinks view (bnd m k)"
proof
  fix f
  show "wlp (bnd m k) (\<lambda>_ f'. typesLeft view f' \<le> typesLeft view f) f"
    unfolding wlp_simps
    by (rule wlp_mono [OF assms(1) [THEN spec]], rule wlp_mono [OF assms(2) [THEN spec]]) simp
qed

lemma shrinks_value: "shrinks view (readStructuredValue R X ty tag)"
  unfolding readStructuredValue_def readLengthControl_def
  by (simp add: shrinks_bnd shrinks_simps del: all_simps)

lemma shrinks_field: "shrinks view (readStructuredField R X field tag m)"
proof -
  have add: "shrinks view (addValues R X field tag n m t)" for n m t
    by (induction n arbitrary: m t) (auto intro!: shrinks_bnd simp: shrinks_value shrinks_simps del: allI)
  show ?thesis
    unfolding readStructuredField_def readLengthControl_def
    by (auto intro!: shrinks_bnd simp: shrinks_value shrinks_simps add del: allI)
qed

lemma types_read:
  assumes "reader_ok R view"
  shows "wlp (onFieldTypes (cursorLE32 R)) (\<lambda>_ f'. typesLeft view f' + 4 \<le> typesLeft view f) f"
proof (cases "fr_fieldTypes f")
  case (Some c)
  show ?thesis
  proof (cases "4 \<le> length (view (cu_data c))")
    case True
    with readLE_ok(1) [OF assms] obtain r where
      "sr_readLE R 4 (cu_data c) = (Inr (take 4 (view (cu_data c))), r)" "view r = drop 4 (view (cu_data c))" by blast
    then show ?thesis
      using Some True by (simp add: wlp_def onFieldTypes_def cursorLE32_def cursorLE_def bnd_def ret_def typesLeft_def)
  next
    case False
    with readLE_ok(2) [OF assms] obtain e r where "sr_readLE R 4 (cu_data c) = (Inl e, r)" by blast
    then show ?thesis using Some by (simp add: wlp_def onFieldTypes_def cursorLE32_def cursorLE_def bnd_def)
  qed
qed (simp add: wlp_def onFieldTypes_def)

lemma atEnd_keeps: "wlp (typesAtEnd R) (\<lambda>_ f'. typesLeft view f' = typesLeft view f) f"
  by (simp add: wlp_def typesAtEnd_def onFieldTypes_def typesLeft_def split: option.split)

text \<open>A body that gives a result and no type bytes back, repeated.\<close>

lemma repeatO_progress:
  assumes "\<And>x f. typesLeft view f \<le> b \<Longrightarrow> wlp (body x) (\<lambda>r f'. finished r \<and> typesLeft view f' \<le> typesLeft view f) f"
    and "typesLeft view f \<le> b"
  shows "wlp (repeatO n body x) (\<lambda>r f'. finished r \<and> typesLeft view f' \<le> typesLeft view f) f"
  using assms(2)
proof (induction n arbitrary: x f)
  case (Suc n)
  have "wlp (bndo (body x) (repeatO n body)) (\<lambda>r f'. finished r \<and> typesLeft view f' \<le> typesLeft view f) f"
    by (rule wlp_bndo, rule wlp_mono [OF assms(1) [OF Suc.prems]])
      (use Suc.prems in \<open>fastforce intro: wlp_mono [OF Suc.IH]\<close>)
  then show ?case by simp
qed (simp add: wlp_simps)

lemma keep:
  assumes "shrinks view n" and "typesLeft view f1 + 4 \<le> b"
  shows "wlp n (\<lambda>_ f2. typesLeft view f2 + 4 \<le> b) f1"
  by (rule wlp_mono [OF assms(1) [THEN spec, of f1]]) (use assms(2) in simp)

lemma loop_progress:
  assumes R: "reader_ok R view"
  shows "typesLeft view f < 4 * fuel \<Longrightarrow>
    wlp (readLoop R X fuel desc h m tot) (\<lambda>r f'. finished r \<and> typesLeft view f' \<le> typesLeft view f) f"
proof (induction fuel arbitrary: desc h m tot f)
  case (Suc fuel)
  let ?Q = "\<lambda>r f'. finished r \<and> typesLeft view f' \<le> typesLeft view f"
  have IH: "wlp (readLoop R X fuel desc h m tot) (\<lambda>r f'. finished r \<and> typesLeft view f' \<le> typesLeft view f1) f1"
    if "typesLeft view f1 + 4 \<le> typesLeft view f" for desc h m tot f1
    using that Suc.prems by (intro Suc.IH) simp
  have tail: "wlp (readLoop R X fuel desc h m tot) ?Q f1" if "typesLeft view f1 + 4 \<le> typesLeft view f" for desc h m tot f1
    by (rule wlp_mono [OF IH [OF that]]) (use that in auto)
  have nested: "wlp (bndo (readLoop R X fuel desc' h' m' 0) k) ?Q f1"
    if "typesLeft view f1 + 4 \<le> typesLeft view f"
      "\<And>x f2. typesLeft view f2 + 4 \<le> typesLeft view f \<Longrightarrow> wlp (k x) ?Q f2" for desc' h' m' f1 k
    by (rule wlp_bndo, rule wlp_mono [OF IH [OF that(1)]]) (use that(1) in \<open>auto intro!: that(2)\<close>)
  show ?case
    unfolding readLoop.simps Let_def wlp_simps
    apply (rule wlp_mono [OF atEnd_keeps [where view = view]])
    apply (split if_split, intro conjI impI)
     apply (simp add: wlp_simps)
    apply (simp only: wlp_simps)
    apply (rule wlp_mono [OF types_read [OF R]])
    apply (split if_split, intro conjI impI)
     apply (simp add: wlp_simps)
    apply (simp only: wlp_simps)
    apply (rule wlp_mono [OF keep [where view = view, OF shrinks_simps(1)]])
     apply simp
    apply (split option.split, intro conjI impI allI)
     apply (simp add: wlp_simps)
    apply (split if_split, intro conjI impI)
     apply (simp add: wlp_simps)
    apply (split if_split, intro conjI impI)
     apply (split if_split, intro conjI impI)
      apply (rule nested, assumption)
      apply (simp add: split_beta tail)
     apply (simp only: wlp_simps readLengthControl_def)
     apply (rule wlp_mono [OF keep [where view = view, OF shrinks_simps(2)]], assumption)
     apply (rule wlp_bndo)
     apply (rule wlp_mono [OF repeatO_progress [where view = view and b = "typesLeft view f - 4"]])
       apply (simp add: split_beta)
       apply (rule wlp_bndo)
       apply (rule wlp_mono [OF IH])
        apply linarith
       apply (simp add: wlp_simps split_beta)
      apply simp
     apply (simp add: split_beta tail)
    apply (simp only: wlp_simps)
    apply (rule wlp_mono [OF keep [where view = view, OF shrinks_simps(4)]], assumption)
    apply (simp only: wlp_simps)
    apply (rule wlp_mono [OF keep [where view = view, OF shrinks_field]], assumption)
    apply (simp add: split_beta tail)
    done
qed (simp add: wlp_def)

text \<open>C32. Rebuilding a message from any frame that decoded comes to an end, whatever the streams
  hold: neither the loop over the fields nor the recursion into nested messages can go on for
  ever.\<close>

theorem decode_terminates:
  assumes R: "reader_ok R view" and frame: "decodeStructuredFrame D tcode R bs = Inr f"
  shows "fst (readStructuredMessage R X m h f) \<noteq> Ret None"
proof -
  obtain outs where outs: "D bs = Inr outs"
    using frame by (auto simp: decodeStructuredFrame_def split: sum.splits)
  note res = decodeFrame_result [OF R frame outs]
  obtain c where c: "fr_fieldTypes f = Some c" using res(3) by auto
  have "length (view (cu_data c)) \<le> length (ow_bytes (cu_output c))"
    using res(1) c by (auto simp: controls_ok_def from_control_def option_rel_Some1 headerless_def)
  then have "typesLeft view f < 4 * decodeFuel f" by (simp add: typesLeft_def decodeFuel_def c)
  from loop_progress [OF R this, of X "rf_type X m" h m 0] show ?thesis
    unfolding readStructuredMessage_def wlp_def
    by (cases "readLoop R X (decodeFuel f) (rf_type X m) h m 0 f") auto
qed

text \<open>Messages as lists of the values set, with one field.\<close>

definition list_reflect :: "((u32 \<times> fval) list, unit) reflect" where
  "list_reflect = \<lparr>rf_type = (\<lambda>_. ()), rf_find = (\<lambda>_ n. if n = 7
       then Some \<lparr>fd_number = 7, fd_cpp_type = CPPTYPE_INT32, fd_repeated = False, fd_message_type = ()\<rparr> else None),
     rf_set = (\<lambda>f v m. m @ [(fd_number f, v)]), rf_add = (\<lambda>f v m. m @ [(fd_number f, v)]),
     rf_mutable = (\<lambda>_ _. []), rf_put = (\<lambda>_ x m. m @ x), rf_newElement = (\<lambda>_ _. []),
     rf_append = (\<lambda>_ x m. m @ x), rf_width = (\<lambda>_. 4), rf_stop = 0\<rparr>"

lemma decode_terminates_witness:
  "fst (readStructuredMessage listReader list_reflect [] kStructuredRootPathHash
     \<lparr>fr_fieldIds = Some ((outputCursor listReader (control_output 1 [7]))\<lparr>cu_data := bytes32 7\<rparr>),
      fr_fieldTypes = Some ((outputCursor listReader (control_output 2 [1]))\<lparr>cu_data := bytes32 1\<rparr>),
      fr_fieldLengths = Some ((outputCursor listReader (control_output 3 []))\<lparr>cu_data := []\<rparr>),
      fr_values = [5 \<mapsto> outputCursor listReader (sample_outputs ! 3)], fr_orderedValues = []\<rparr>) \<noteq> Ret None"
  by (rule decode_terminates [OF listReader_ok sample_frame])

end
