(* ===== verification/Structured_Roundtrip.thy ===== *)
theory Structured_Roundtrip
  imports Structured_Decode
begin

text \<open>
  The format that \<open>readStructuredMessage\<close> reads, as an encoder of message contents into
  streams, and the theorem that reading inverts it.
\<close>

section \<open>Message contents\<close>

text \<open>The fields of a message in the order they are written; a message is a list of them.\<close>

datatype 't content =
    Leaf "'t fdesc" fval
  | Leaves "'t fdesc" "fval list"
  | Node "'t fdesc" "'t content list"
  | Nodes "'t fdesc" "'t content list list"

text \<open>The message that results from setting these contents in a message.\<close>

fun build :: "('m, 't) reflect \<Rightarrow> 't content \<Rightarrow> 'm \<Rightarrow> 'm" where
  "build X (Leaf d v) m = rf_set X d v m"
| "build X (Leaves d vs) m = fold (rf_add X d) vs m"
| "build X (Node d cs) m = rf_put X d (fold (build X) cs (rf_mutable X d m)) m"
| "build X (Nodes d css) m = fold (\<lambda>cs m. rf_append X d (fold (build X) cs (rf_newElement X d m)) m) css m"

section \<open>Streams\<close>

record streams =
  s_types :: "u32 list"
  s_ids :: "u32 list"
  s_lengths :: "u32 list"
  s_data :: "jint \<Rightarrow> bytes"
  s_strings :: "jint \<Rightarrow> u32 list"

definition no_streams :: streams where
  "no_streams = \<lparr>s_types = [], s_ids = [], s_lengths = [], s_data = (\<lambda>_. []), s_strings = (\<lambda>_. [])\<rparr>"

definition join :: "streams \<Rightarrow> streams \<Rightarrow> streams" where
  "join a b = \<lparr>s_types = s_types a @ s_types b, s_ids = s_ids a @ s_ids b, s_lengths = s_lengths a @ s_lengths b,
     s_data = (\<lambda>t. s_data a t @ s_data b t), s_strings = (\<lambda>t. s_strings a t @ s_strings b t)\<rparr>"

lemma join_no_streams [simp]: "join no_streams a = a" "join a no_streams = a"
  by (simp_all add: join_def no_streams_def)

lemma join_assoc [simp]: "join (join a b) c = join a (join b c)"
  by (simp add: join_def)

definition put_type :: "u32 \<Rightarrow> streams" where "put_type w = no_streams\<lparr>s_types := [w]\<rparr>"
definition put_id :: "u32 \<Rightarrow> streams" where "put_id w = no_streams\<lparr>s_ids := [w]\<rparr>"
definition put_length :: "u32 \<Rightarrow> streams" where "put_length w = no_streams\<lparr>s_lengths := [w]\<rparr>"

definition put_value :: "jint \<Rightarrow> fval \<Rightarrow> streams" where
  "put_value tag v = (case v of
      FScalar bs \<Rightarrow> no_streams\<lparr>s_data := (\<lambda>_. [])(tag := bs)\<rparr>
    | FString bs \<Rightarrow> no_streams\<lparr>s_lengths := [word_of_nat (length bs)], s_data := (\<lambda>_. [])(tag := bs),
        s_strings := (\<lambda>_. [])(tag := [word_of_nat (length bs)])\<rparr>)"

definition put_field :: "'t fdesc \<Rightarrow> streams" where
  "put_field d = join (put_type (cpp_code (fd_cpp_type d))) (put_id (fd_number d))"

fun encode :: "('m, 't) reflect \<Rightarrow> u32 \<Rightarrow> 't content \<Rightarrow> streams" where
  "encode X h (Leaf d v) = join (put_field d) (put_value (structuredFieldTag h (fd_number d)) v)"
| "encode X h (Leaves d vs) = join (put_field d) (join (put_length (word_of_nat (length vs)))
     (foldr (\<lambda>v. join (put_value (structuredFieldTag h (fd_number d)) v)) vs no_streams))"
| "encode X h (Node d cs) = join (put_field d)
     (foldr (\<lambda>c. join (encode X (structuredExtendPathHash h (fd_number d)) c)) cs (put_type (rf_stop X)))"
| "encode X h (Nodes d css) = join (put_field d) (join (put_length (word_of_nat (length css)))
     (foldr (\<lambda>cs. join (foldr (\<lambda>c. join (encode X (structuredExtendPathHash h (fd_number d)) c)) cs
       (put_type (rf_stop X)))) css no_streams))"

definition encodeAll :: "('m, 't) reflect \<Rightarrow> u32 \<Rightarrow> 't content list \<Rightarrow> streams \<Rightarrow> streams" where
  "encodeAll X h cs rest = foldr (\<lambda>c. join (encode X h c)) cs rest"

text \<open>The tags of the value streams that contents use, and those that hold strings.\<close>

fun tags :: "u32 \<Rightarrow> 't content \<Rightarrow> jint set" where
  "tags h (Leaf d v) = {structuredFieldTag h (fd_number d)}"
| "tags h (Leaves d vs) = {structuredFieldTag h (fd_number d)}"
| "tags h (Node d cs) = (\<Union>c \<in> set cs. tags (structuredExtendPathHash h (fd_number d)) c)"
| "tags h (Nodes d css) = (\<Union>cs \<in> set css. \<Union>c \<in> set cs. tags (structuredExtendPathHash h (fd_number d)) c)"

fun stringTags :: "u32 \<Rightarrow> 't content \<Rightarrow> jint set" where
  "stringTags h (Leaf d v) = (if fd_cpp_type d = CPPTYPE_STRING then {structuredFieldTag h (fd_number d)} else {})"
| "stringTags h (Leaves d vs) = (if fd_cpp_type d = CPPTYPE_STRING then {structuredFieldTag h (fd_number d)} else {})"
| "stringTags h (Node d cs) = (\<Union>c \<in> set cs. stringTags (structuredExtendPathHash h (fd_number d)) c)"
| "stringTags h (Nodes d css)
     = (\<Union>cs \<in> set css. \<Union>c \<in> set cs. stringTags (structuredExtendPathHash h (fd_number d)) c)"

section \<open>Well-typed contents\<close>

definition wf_value :: "('m, 't) reflect \<Rightarrow> cpp_type \<Rightarrow> fval \<Rightarrow> bool" where
  "wf_value X ty v = (case v of
      FScalar bs \<Rightarrow> ty \<noteq> CPPTYPE_STRING \<and> ty \<noteq> CPPTYPE_MESSAGE \<and> length bs = rf_width X ty
    | FString bs \<Rightarrow> ty = CPPTYPE_STRING \<and> length bs < 2 ^ 32)"

definition known :: "('m, 't) reflect \<Rightarrow> 't \<Rightarrow> 't fdesc \<Rightarrow> bool" where
  "known X t d \<longleftrightarrow> rf_find X t (fd_number d) = Some d"

fun wf_content :: "('m, 't) reflect \<Rightarrow> 't \<Rightarrow> 't content \<Rightarrow> bool" where
  "wf_content X t (Leaf d v) \<longleftrightarrow> known X t d \<and> \<not> fd_repeated d \<and> wf_value X (fd_cpp_type d) v"
| "wf_content X t (Leaves d vs) \<longleftrightarrow> known X t d \<and> fd_repeated d \<and> fd_cpp_type d \<noteq> CPPTYPE_MESSAGE
     \<and> length vs < 2 ^ 32 \<and> list_all (wf_value X (fd_cpp_type d)) vs"
| "wf_content X t (Node d cs) \<longleftrightarrow> known X t d \<and> \<not> fd_repeated d \<and> fd_cpp_type d = CPPTYPE_MESSAGE
     \<and> list_all (wf_content X (fd_message_type d)) cs"
| "wf_content X t (Nodes d css) \<longleftrightarrow> known X t d \<and> fd_repeated d \<and> fd_cpp_type d = CPPTYPE_MESSAGE
     \<and> length css < 2 ^ 32 \<and> list_all (list_all (wf_content X (fd_message_type d))) css"

text \<open>
  What the theorem needs of protobuf: a submessage has the type its field declares, and \<open>kStop\<close>
  is no type of a field.
\<close>

definition reflect_ok :: "('m, 't) reflect \<Rightarrow> bool" where
  "reflect_ok X \<longleftrightarrow> (\<forall>d m. rf_type X (rf_mutable X d m) = fd_message_type d)
     \<and> (\<forall>d m. rf_type X (rf_newElement X d m) = fd_message_type d) \<and> (\<forall>ty. rf_stop X \<noteq> cpp_code ty)"

section \<open>Frames that hold streams\<close>

definition holds :: "('r \<Rightarrow> bytes) \<Rightarrow> jint set \<Rightarrow> jint set \<Rightarrow> 'r frame \<Rightarrow> streams \<Rightarrow> bool" where
  "holds view T S f s \<longleftrightarrow>
     (\<exists>c. fr_fieldTypes f = Some c \<and> view (cu_data c) = concat (map bytes32 (s_types s)))
   \<and> (\<exists>c. fr_fieldIds f = Some c \<and> view (cu_data c) = concat (map bytes32 (s_ids s)))
   \<and> (\<exists>c. fr_fieldLengths f = Some c \<and> view (cu_data c) = concat (map bytes32 (s_lengths s)))
   \<and> (\<forall>t \<in> T. \<exists>c. fr_values f t = Some c \<and> view (cu_data c) = s_data s t
        \<and> drop (cu_stringIndex c) (ow_stringLengths (cu_output c)) = s_strings s t
        \<and> (t \<in> S \<longrightarrow> ow_type (cu_output c) = ZL_string))"

text \<open>An action that returns a value and leaves the rest of the streams.\<close>

definition gives :: "('r \<Rightarrow> bytes) \<Rightarrow> jint set \<Rightarrow> jint set \<Rightarrow> ('r frame, 'a) act \<Rightarrow> 'r frame \<Rightarrow> 'a \<Rightarrow> streams \<Rightarrow> bool" where
  "gives view T S m f a s \<longleftrightarrow> (\<exists>f'. m f = (Ret a, f') \<and> holds view T S f' s)"

lemma gives_ret: "holds view T S f s \<Longrightarrow> gives view T S (ret a) f a s"
  by (simp add: gives_def ret_def)

lemma gives_bnd:
  assumes "gives view T S m f a s" and "\<And>f'. holds view T S f' s \<Longrightarrow> gives view T S (k a) f' b s'"
  shows "gives view T S (bnd m k) f b s'"
  using assms by (auto simp: gives_def bnd_def)

lemma gives_seq:
  assumes "gives view T S m f a s" and "\<And>f'. holds view T S f' s \<Longrightarrow> gives view T S k f' b s'"
  shows "gives view T S (seq m k) f b s'"
  unfolding seq_def by (rule gives_bnd [OF assms(1)]) (rule assms(2))

text \<open>A reader of messages that returns a message, with whatever count of bytes.\<close>

definition reads :: "('r \<Rightarrow> bytes) \<Rightarrow> jint set \<Rightarrow> jint set \<Rightarrow> ('r frame, ('m \<times> nat) option) act \<Rightarrow> 'r frame
    \<Rightarrow> 'm \<Rightarrow> streams \<Rightarrow> bool" where
  "reads view T S m f x s \<longleftrightarrow> (\<exists>n. gives view T S m f (Some (x, n)) s)"

lemma reads_ret: "holds view T S f s \<Longrightarrow> reads view T S (ret (Some (x, n))) f x s"
  by (auto simp: reads_def intro: gives_ret)

lemma reads_bnd:
  assumes "gives view T S m f a s" and "\<And>f'. holds view T S f' s \<Longrightarrow> reads view T S (k a) f' x s'"
  shows "reads view T S (bnd m k) f x s'"
  using assms by (fastforce simp: reads_def gives_def bnd_def)

lemma reads_seq:
  assumes "gives view T S m f a s" and "\<And>f'. holds view T S f' s \<Longrightarrow> reads view T S k f' x s'"
  shows "reads view T S (seq m k) f x s'"
  unfolding seq_def by (rule reads_bnd [OF assms(1)]) (rule assms(2))

lemma reads_bndo:
  assumes "reads view T S m f x s" and "\<And>n f'. holds view T S f' s \<Longrightarrow> reads view T S (k (x, n)) f' y s'"
  shows "reads view T S (bndo m k) f y s'"
  using assms(1) unfolding reads_def [of _ _ _ m]
  by (elim exE) (auto simp: bndo_def assms(2) intro!: reads_bnd)

lemma cursorLE_ok:
  assumes "reader_ok R view" and "view (cu_data c) = bs @ r"
  shows "\<exists>x. cursorLE R (length bs) c = (Ret bs, c\<lparr>cu_data := x\<rparr>) \<and> view x = r"
    and "\<exists>x. cursorRead R (length bs) c = (Ret bs, c\<lparr>cu_data := x\<rparr>) \<and> view x = r"
proof -
  have "length bs \<le> length (view (cu_data c))" using assms(2) by simp
  from readLE_ok(1) [OF assms(1) this] read_ok(1) [OF assms(1) this]
  show "\<exists>x. cursorLE R (length bs) c = (Ret bs, c\<lparr>cu_data := x\<rparr>) \<and> view x = r"
    "\<exists>x. cursorRead R (length bs) c = (Ret bs, c\<lparr>cu_data := x\<rparr>) \<and> view x = r"
    using assms(2) by (auto simp: cursorLE_def cursorRead_def)
qed

lemma cursorLE32_ok:
  assumes "reader_ok R view" and "view (cu_data c) = bytes32 w @ r"
  shows "\<exists>x. cursorLE32 R c = (Ret w, c\<lparr>cu_data := x\<rparr>) \<and> view x = r"
proof -
  have "hd (words32 (bytes32 w)) = w" using words32_append_bytes32 [of w "[]"] by simp
  then show ?thesis using cursorLE_ok(1) [OF assms] by (auto simp: cursorLE32_def bnd_def ret_def)
qed

lemmas put_defs = put_type_def put_id_def put_length_def no_streams_def join_def

lemma gives_type:
  assumes "reader_ok R view" and "holds view T S f (join (put_type w) s)"
  shows "gives view T S (onFieldTypes (cursorLE32 R)) f w s"
    and "gives view T S (typesAtEnd R) f False (join (put_type w) s)"
proof -
  obtain c where c: "fr_fieldTypes f = Some c" "view (cu_data c) = bytes32 w @ concat (map bytes32 (s_types s))"
    using assms(2) by (auto simp: holds_def put_defs)
  from cursorLE32_ok [OF assms(1) c(2)] show "gives view T S (onFieldTypes (cursorLE32 R)) f w s"
    using assms(2) c by (auto simp: gives_def onFieldTypes_def holds_def put_defs)
  have "\<not> sr_atEnd R (cu_data c)" using assms(1) c(2) by (simp add: reader_ok_def bytes32_def)
  then show "gives view T S (typesAtEnd R) f False (join (put_type w) s)"
    using assms(2) c by (simp add: gives_def typesAtEnd_def onFieldTypes_def holds_def)
qed

lemma gives_end:
  assumes "reader_ok R view" and "holds view T S f s" and "s_types s = []"
  shows "gives view T S (typesAtEnd R) f True s"
  using assms by (auto simp: gives_def typesAtEnd_def onFieldTypes_def holds_def reader_ok_def)

lemma gives_id:
  assumes "reader_ok R view" and "holds view T S f (join (put_id w) s)"
  shows "gives view T S (onFieldIds (cursorLE32 R)) f w s"
proof -
  obtain c where c: "fr_fieldIds f = Some c" "view (cu_data c) = bytes32 w @ concat (map bytes32 (s_ids s))"
    using assms(2) by (auto simp: holds_def put_defs)
  from cursorLE32_ok [OF assms(1) c(2)] show ?thesis
    using assms(2) c by (auto simp: gives_def onFieldIds_def holds_def put_defs)
qed

lemma gives_length:
  assumes "reader_ok R view" and "holds view T S f (join (put_length w) s)"
  shows "gives view T S (readLengthControl R) f w s"
proof -
  obtain c where c: "fr_fieldLengths f = Some c" "view (cu_data c) = bytes32 w @ concat (map bytes32 (s_lengths s))"
    using assms(2) by (auto simp: holds_def put_defs)
  from cursorLE32_ok [OF assms(1) c(2)] show ?thesis
    using assms(2) c by (auto simp: gives_def readLengthControl_def onFieldLengths_def holds_def put_defs)
qed

lemma gives_require:
  assumes "holds view T S f s" and "t \<in> T"
  shows "gives view T S (requireStructuredCursor t) f () s"
  using assms by (auto simp: gives_def requireStructuredCursor_def holds_def)

text \<open>The value stream of a tag, read from its cursor.\<close>

lemma gives_onValue:
  assumes "holds view T S f s0" and "t \<in> T"
    and "\<And>c. fr_values f t = Some c \<Longrightarrow> view (cu_data c) = s_data s0 t \<Longrightarrow>
      drop (cu_stringIndex c) (ow_stringLengths (cu_output c)) = s_strings s0 t \<Longrightarrow>
      (t \<in> S \<Longrightarrow> ow_type (cu_output c) = ZL_string) \<Longrightarrow>
      \<exists>c'. m c = (Ret a, c') \<and> view (cu_data c') = s_data s t \<and> cu_output c' = cu_output c
        \<and> drop (cu_stringIndex c') (ow_stringLengths (cu_output c)) = s_strings s t"
    and "s_types s = s_types s0" "s_ids s = s_ids s0" "s_lengths s = s_lengths s0"
    and "\<And>u. u \<noteq> t \<Longrightarrow> s_data s u = s_data s0 u \<and> s_strings s u = s_strings s0 u"
  shows "gives view T S (onValue t m) f a s"
proof -
  obtain c where c: "fr_values f t = Some c" "view (cu_data c) = s_data s0 t"
      "drop (cu_stringIndex c) (ow_stringLengths (cu_output c)) = s_strings s0 t"
      "t \<in> S \<longrightarrow> ow_type (cu_output c) = ZL_string"
    using assms(1,2) unfolding holds_def by blast
  then obtain c' where "m c = (Ret a, c')" "view (cu_data c') = s_data s t" "cu_output c' = cu_output c"
      "drop (cu_stringIndex c') (ow_stringLengths (cu_output c)) = s_strings s t"
    using assms(3) [OF c(1-3)] by blast
  then show ?thesis
    using assms(1,4-7) c by (auto simp: gives_def onValue_def holds_def)
qed

definition value_size :: "fval \<Rightarrow> nat" where
  "value_size v = (case v of FScalar bs \<Rightarrow> length bs | FString bs \<Rightarrow> length bs + 4)"

lemma gives_value:
  fixes R :: "'r reader" and f :: "'r frame"
  assumes R: "reader_ok R view" and wf: "wf_value X ty v" and t: "t \<in> T" "ty = CPPTYPE_STRING \<Longrightarrow> t \<in> S"
    and holds: "holds view T S f (join (put_value t v) s)"
  shows "gives view T S (readStructuredValue R X ty t) f (v, value_size v) s"
proof (cases v)
  case (FScalar bs)
  then have ty: "ty \<noteq> CPPTYPE_STRING" "rf_width X ty = length bs" using wf by (simp_all add: wf_value_def)
  have "gives view T S (onValue t (cursorLE R (rf_width X ty))) f bs s"
    by (rule gives_onValue [OF holds t(1)])
      (use cursorLE_ok(1) [OF R] in \<open>fastforce simp: FScalar put_value_def put_defs ty\<close>)+
  then show ?thesis
    unfolding readStructuredValue_def using ty
    by (auto intro!: gives_bnd gives_ret simp: FScalar value_size_def)
next
  case (FString bs)
  then have ty: "ty = CPPTYPE_STRING" "length bs < 2 ^ 32" using wf by (simp_all add: wf_value_def)
  let ?n = "word_of_nat (length bs) :: u32"
  have n: "unat ?n = length bs" using ty(2) by (simp add: unat_of_nat take_bit_nat_eq_self)
  let ?s1 = "join (no_streams\<lparr>s_data := (\<lambda>_. [])(t := bs), s_strings := (\<lambda>_. [])(t := [?n])\<rparr>) s"
  have "join (put_value t v) s = join (put_length ?n) ?s1"
    by (simp add: FString put_value_def put_defs)
  then have len: "gives view T S (readLengthControl R) f ?n ?s1"
    using gives_length [OF R] holds by simp
  have val: "gives view T S (onValue t (readStringValue R ?n)) f1 bs s" if f1: "holds view T S f1 ?s1" for f1
  proof (rule gives_onValue [OF f1 t(1)])
    fix c :: "'r cursor"
    assume c: "view (cu_data c) = s_data ?s1 t"
      "drop (cu_stringIndex c) (ow_stringLengths (cu_output c)) = s_strings ?s1 t"
      "t \<in> S \<Longrightarrow> ow_type (cu_output c) = ZL_string"
    let ?i = "cu_stringIndex c" and ?ls = "ow_stringLengths (cu_output c)"
    have drop: "drop ?i ?ls = ?n # s_strings s t" using c(2) by (simp add: put_defs)
    then have i: "?i < length ?ls" by (metis drop_all leI list.distinct(1))
    then have "?ls ! ?i = ?n" "drop (Suc ?i) ?ls = s_strings s t"
      using drop by (metis Cons_nth_drop_Suc list.inject)+
    moreover have "view (cu_data (c\<lparr>cu_stringIndex := Suc ?i\<rparr>)) = bs @ s_data s t"
      using c(1) by (simp add: put_defs)
    from cursorLE_ok(2) [OF R this] obtain x where
      "cursorRead R (length bs) (c\<lparr>cu_stringIndex := Suc ?i\<rparr>) = (Ret bs, c\<lparr>cu_stringIndex := Suc ?i, cu_data := x\<rparr>)"
      "view x = s_data s t" by auto
    ultimately show "\<exists>c'. readStringValue R ?n c = (Ret bs, c') \<and> view (cu_data c') = s_data s t
      \<and> cu_output c' = cu_output c \<and> drop (cu_stringIndex c') (ow_stringLengths (cu_output c)) = s_strings s t"
      using i c(3) t(2) ty(1) by (simp add: readStringValue_def n)
  qed (simp_all add: put_defs)
  show ?thesis
    unfolding readStructuredValue_def if_P [OF ty(1)]
    by (rule gives_bnd [OF len], rule gives_bnd [OF val])
      (auto intro!: gives_ret simp: n FString value_size_def)
qed


section \<open>Fields\<close>

declare readLoop.simps [simp del]

lemma foldr_join: "foldr (\<lambda>x. join (g x)) xs (join a b) = join (foldr (\<lambda>x. join (g x)) xs a) b"
  by (induction xs) simp_all

lemma foldr_join_end: "join (foldr (\<lambda>x. join (g x)) xs a) b = foldr (\<lambda>x. join (g x)) xs (join a b)"
  by (simp add: foldr_join)

lemma s_types_join [simp]: "s_types (join a b) = s_types a @ s_types b"
  by (simp add: join_def)

lemma s_types_put [simp]:
  "s_types (put_type w) = [w]" "s_types (put_length w) = []" "s_types no_streams = []" "s_types (put_value t v) = []"
  "s_types (put_field d) = [cpp_code (fd_cpp_type d)]"
  by (simp_all add: put_defs put_value_def put_field_def split: fval.split)

text \<open>The head of a field: its type and its id.\<close>

lemma reads_field:
  assumes R: "reader_ok R view" and X: "reflect_ok X" and d: "known X desc d"
    and holds: "holds view T S f (join (put_field d) s)"
    and body: "\<And>f'. holds view T S f' s \<Longrightarrow> reads view T S
      (if fd_cpp_type d = CPPTYPE_MESSAGE then
         let childHash = structuredExtendPathHash h (fd_number d) in
         if \<not> fd_repeated d then
           bndo (readLoop R X fuel (rf_type X (rf_mutable X d m)) childHash (rf_mutable X d m) 0)
             (\<lambda>(nested, size). readLoop R X fuel desc h (rf_put X d nested m) (tot + 8 + size))
         else
           bnd (readLengthControl R) (\<lambda>count.
           bndo (repeatO (unat count)
               (\<lambda>(m, tot). bndo (readLoop R X fuel (rf_type X (rf_newElement X d m)) childHash
                    (rf_newElement X d m) 0)
                  (\<lambda>(nested, size). ret (Some (rf_append X d nested m, tot + size))))
               (m, tot + 12))
             (\<lambda>(m, tot). readLoop R X fuel desc h m tot))
       else
         let tag = structuredFieldTag h (fd_number d) in
         seq (requireStructuredCursor tag)
        (bnd (readStructuredField R X d tag m) (\<lambda>(m, size).
         readLoop R X fuel desc h m (tot + 8 + size)))) f' x s'"
  shows "reads view T S (readLoop R X (Suc fuel) desc h m tot) f x s'"
proof -
  have nostop: "cpp_code (fd_cpp_type d) \<noteq> rf_stop X" using X by (metis reflect_ok_def)
  have h1: "holds view T S f (join (put_type (cpp_code (fd_cpp_type d))) (join (put_id (fd_number d)) s))"
    using holds by (simp add: put_field_def)
  show ?thesis
    unfolding readLoop.simps
    apply (rule reads_bnd [OF gives_type(2) [OF R h1]])
    apply (simp only: if_False)
    apply (rule reads_bnd [OF gives_type(1) [OF R]], assumption)
    apply (simp only: nostop if_False)
    apply (rule reads_bnd [OF gives_id [OF R]], assumption)
    using d body by (simp add: known_def)
qed

lemma gives_addValues:
  assumes R: "reader_ok R view" and t: "t \<in> T" "fd_cpp_type d = CPPTYPE_STRING \<Longrightarrow> t \<in> S"
  shows "list_all (wf_value X (fd_cpp_type d)) vs \<Longrightarrow> holds view T S f (foldr (\<lambda>v. join (put_value t v)) vs s) \<Longrightarrow>
    gives view T S (addValues R X d t (length vs) m tot) f (fold (rf_add X d) vs m, tot + sum_list (map value_size vs)) s"
proof (induction vs arbitrary: f m tot)
  case (Cons v vs)
  have rest: "gives view T S (addValues R X d t (length vs) (rf_add X d v m) (tot + value_size v)) f'
      (fold (rf_add X d) vs (rf_add X d v m), tot + value_size v + sum_list (map value_size vs)) s"
    if "holds view T S f' (foldr (\<lambda>v. join (put_value t v)) vs s)" for f'
    using Cons.prems(1) by (intro Cons.IH that) simp
  show ?case
    using Cons.prems rest by (auto intro!: gives_bnd [OF gives_value [OF R _ t, where v = v]] simp: add.assoc)
qed (simp add: gives_ret)

lemma reads_repeat:
  assumes "\<And>x m tot f s. x \<in> set xs \<Longrightarrow> holds view T S f (join (g x) s) \<Longrightarrow>
      reads view T S (body (m, tot)) f (k x m) s"
    and "holds view T S f (foldr (\<lambda>x. join (g x)) xs s)"
  shows "reads view T S (repeatO (length xs) body (m, tot)) f (fold k xs m) s"
  using assms
proof (induction xs arbitrary: f m tot)
  case (Cons x xs)
  have "holds view T S f (join (g x) (foldr (\<lambda>x. join (g x)) xs s))" using Cons.prems(2) by simp
  from Cons.prems(1) [OF _ this] Cons.prems(1) Cons.IH show ?case
    by (auto intro!: reads_bndo)
qed (simp add: reads_ret)

section \<open>Reading inverts the encoding\<close>

lemma encodeAll_Cons [simp]: "encodeAll X h (c # cs) e = join (encode X h c) (encodeAll X h cs e)"
  by (simp add: encodeAll_def)

lemma encodeAll_Nil [simp]: "encodeAll X h [] e = e"
  by (simp add: encodeAll_def)

lemma join_encodeAll: "join (encodeAll X h cs e) s = encodeAll X h cs (join e s)"
  by (simp add: encodeAll_def foldr_join_end)

lemma encode_Node: "encode X h (Node d cs)
     = join (put_field d) (encodeAll X (structuredExtendPathHash h (fd_number d)) cs (put_type (rf_stop X)))"
  by (simp add: encodeAll_def)

lemma encode_Nodes: "encode X h (Nodes d css)
     = join (put_field d) (join (put_length (word_of_nat (length css)))
       (foldr (\<lambda>cs. join (encodeAll X (structuredExtendPathHash h (fd_number d)) cs (put_type (rf_stop X)))) css no_streams))"
  by (simp add: encodeAll_def)

definition types_count :: "('m, 't) reflect \<Rightarrow> u32 \<Rightarrow> 't content list \<Rightarrow> nat" where
  "types_count X h cs = length (s_types (encodeAll X h cs no_streams))"

lemma types_encodeAll: "s_types (encodeAll X h cs e) = s_types (encodeAll X h cs no_streams) @ s_types e"
  using join_encodeAll [of X h cs no_streams e] by (metis join_no_streams(1) s_types_join)

lemma types_count_Cons: "types_count X h (c # cs) = length (s_types (encode X h c)) + types_count X h cs"
  by (simp add: types_count_def)

lemma types_member: "cs \<in> set css \<Longrightarrow>
    types_count X h cs < length (s_types (foldr (\<lambda>cs. join (encodeAll X h cs (put_type w))) css e))"
  by (induction css) (auto simp: types_count_def types_encodeAll [where e = "put_type w"])

text \<open>What the contents of a message use.\<close>

definition fits :: "('m, 't) reflect \<Rightarrow> jint set \<Rightarrow> jint set \<Rightarrow> 't \<Rightarrow> u32 \<Rightarrow> 't content list \<Rightarrow> bool" where
  "fits X T S t h cs \<longleftrightarrow> (\<forall>c \<in> set cs. wf_content X t c \<and> tags h c \<subseteq> T \<and> stringTags h c \<subseteq> S)"

lemma fits_Cons: "fits X T S t h (c # cs) \<longleftrightarrow>
    wf_content X t c \<and> tags h c \<subseteq> T \<and> stringTags h c \<subseteq> S \<and> fits X T S t h cs"
  by (auto simp: fits_def)

lemma fits_Node: "fits X T S t h (Node d cs # rest) \<Longrightarrow>
    fits X T S (fd_message_type d) (structuredExtendPathHash h (fd_number d)) cs"
  by (auto simp: fits_def list_all_iff UN_subset_iff)

lemma fits_Nodes: "fits X T S t h (Nodes d css # rest) \<Longrightarrow> cs \<in> set css \<Longrightarrow>
    fits X T S (fd_message_type d) (structuredExtendPathHash h (fd_number d)) cs"
  by (auto simp: fits_def list_all_iff UN_subset_iff)

text \<open>The end of a message: the stop marker, or the end of the type stream.\<close>

definition ends :: "('m, 't) reflect \<Rightarrow> streams \<Rightarrow> streams \<Rightarrow> bool" where
  "ends X e r \<longleftrightarrow> e = join (put_type (rf_stop X)) r \<or> (s_types e = [] \<and> r = e)"

lemma reads_ends:
  assumes R: "reader_ok R view" and e: "ends X e r" and holds: "holds view T S f e"
  shows "reads view T S (readLoop R X (Suc fuel) t h m tot) f m r"
proof (cases "e = join (put_type (rf_stop X)) r")
  case True
  note h = holds [unfolded True]
  show ?thesis
    unfolding readLoop.simps
    apply (rule reads_bnd [OF gives_type(2) [OF R h]])
    apply (simp only: if_False)
    apply (rule reads_bnd [OF gives_type(1) [OF R]], assumption)
    by (simp add: reads_ret)
next
  case False
  then have "s_types e = []" "r = e" using e by (auto simp: ends_def)
  then show ?thesis
    unfolding readLoop.simps
    by (intro reads_bnd [OF gives_end [OF R holds]]) (simp_all add: reads_ret)
qed

lemma types_encode: "0 < length (s_types (encode X h c))"
  by (cases c) simp_all

lemma reads_loop:
  assumes R: "reader_ok R view" and X: "reflect_ok X"
  shows "fits X T S t h cs \<Longrightarrow> holds view T S f (encodeAll X h cs e) \<Longrightarrow> ends X e r \<Longrightarrow> types_count X h cs < fuel \<Longrightarrow>
    reads view T S (readLoop R X fuel t h m tot) f (fold (build X) cs m) r"
proof (induction fuel arbitrary: t h cs f e r m tot)
  case (Suc fuel)
  show ?case
  proof (cases cs)
    case Nil
    then show ?thesis using reads_ends [OF R Suc.prems(3)] Suc.prems(2) by simp
  next
    case (Cons c rest)
    let ?s = "encodeAll X h rest e"
    have fits: "wf_content X t c" "tags h c \<subseteq> T" "stringTags h c \<subseteq> S" "fits X T S t h rest"
      using Suc.prems(1) Cons by (simp_all add: fits_Cons)
    have fuel: "length (s_types (encode X h c)) + types_count X h rest \<le> fuel"
      using Suc.prems(4) Cons by (simp add: types_count_Cons)
    have rest: "reads view T S (readLoop R X fuel t h m tot) f' (fold (build X) rest m) r"
      if "holds view T S f' ?s" for f' m tot
      using fuel types_encode [of X h c] by (intro Suc.IH [OF fits(4) that Suc.prems(3)]) linarith
    have holds: "holds view T S f (join (encode X h c) ?s)" using Suc.prems(2) Cons by simp
    show ?thesis
    proof (cases c)
      case (Leaf d v)
      have d: "known X t d" "\<not> fd_repeated d" "wf_value X (fd_cpp_type d) v" "fd_cpp_type d \<noteq> CPPTYPE_MESSAGE"
        using fits(1) Leaf by (auto simp: wf_value_def split: fval.splits)
      have tag: "structuredFieldTag h (fd_number d) \<in> T"
        "fd_cpp_type d = CPPTYPE_STRING \<Longrightarrow> structuredFieldTag h (fd_number d) \<in> S"
        using fits(2,3) Leaf by auto
      show ?thesis
        apply (simp add: Cons Leaf)
        apply (rule reads_field [OF R X d(1), where s = "join (put_value (structuredFieldTag h (fd_number d)) v) ?s"])
        using holds apply (simp add: Leaf)
        apply (simp add: d(2,4) Let_def readStructuredField_def)
        apply (rule reads_seq [OF gives_require [OF _ tag(1)]], assumption)
        apply (rule reads_bnd [OF gives_bnd [OF gives_value [OF R d(3) tag]]], assumption+)
         apply (simp, erule gives_ret)
        apply (simp add: rest)
        done
    next
      case (Leaves d vs)
      let ?tag = "structuredFieldTag h (fd_number d)" and ?n = "word_of_nat (length vs) :: u32"
      let ?vs = "foldr (\<lambda>v. join (put_value ?tag v)) vs ?s"
      have d: "known X t d" "fd_repeated d" "list_all (wf_value X (fd_cpp_type d)) vs" "fd_cpp_type d \<noteq> CPPTYPE_MESSAGE"
        "unat ?n = length vs"
        using fits(1) Leaves by (simp_all add: unat_of_nat take_bit_nat_eq_self)
      have tag: "?tag \<in> T" "fd_cpp_type d = CPPTYPE_STRING \<Longrightarrow> ?tag \<in> S"
        using fits(2,3) Leaves by auto
      have field: "gives view T S (readStructuredField R X d ?tag m) f1
          (fold (rf_add X d) vs m, 4 + sum_list (map value_size vs)) ?s"
        if "holds view T S f1 (join (put_length ?n) ?vs)" for f1
        unfolding readStructuredField_def
        using d by (auto intro!: gives_bnd [OF gives_length [OF R that]] gives_addValues [OF R tag])
      show ?thesis
        apply (simp add: Cons Leaves)
        apply (rule reads_field [OF R X d(1), where s = "join (put_length ?n) ?vs"])
        using holds apply (simp add: Leaves foldr_join_end)
        apply (simp add: d(2,4) Let_def)
        apply (rule reads_seq [OF gives_require [OF _ tag(1)]], assumption)
        apply (rule reads_bnd [OF field], assumption)
        apply (simp add: rest)
        done
    next
      case (Node d cs')
      let ?h = "structuredExtendPathHash h (fd_number d)"
      let ?e = "join (put_type (rf_stop X)) ?s"
      have d: "known X t d" "\<not> fd_repeated d" "fd_cpp_type d = CPPTYPE_MESSAGE" using fits(1) Node by simp_all
      have nested: "reads view T S (readLoop R X fuel (rf_type X (rf_mutable X d m)) ?h (rf_mutable X d m) 0) f'
          (fold (build X) cs' (rf_mutable X d m)) ?s"
        if "holds view T S f' (encodeAll X ?h cs' ?e)" for f'
      proof (rule Suc.IH [OF _ that])
        show "fits X T S (rf_type X (rf_mutable X d m)) ?h cs'"
          using fits_Node Suc.prems(1) X by (simp add: Cons Node reflect_ok_def)
        show "types_count X ?h cs' < fuel"
          using fuel types_encodeAll [of X ?h cs' "put_type (rf_stop X)"]
          by (simp add: Node encode_Node types_count_def del: encode.simps)
      qed (simp add: ends_def)
      show ?thesis
        apply (simp add: Cons Node)
        apply (rule reads_field [OF R X d(1), where s = "encodeAll X ?h cs' ?e"])
        using holds apply (simp add: Node encode_Node join_encodeAll del: encode.simps)
        apply (simp add: d(2,3) Let_def)
        apply (rule reads_bndo [OF nested], assumption)
        apply (simp add: rest)
        done
    next
      case (Nodes d css)
      let ?h = "structuredExtendPathHash h (fd_number d)" and ?n = "word_of_nat (length css) :: u32"
      let ?g = "\<lambda>cs. encodeAll X ?h cs (put_type (rf_stop X))"
      let ?e = "foldr (\<lambda>cs. join (?g cs)) css ?s"
      let ?k = "\<lambda>cs m. rf_append X d (fold (build X) cs (rf_newElement X d m)) m"
      have d: "known X t d" "fd_repeated d" "fd_cpp_type d = CPPTYPE_MESSAGE" "unat ?n = length css"
        using fits(1) Nodes by (simp_all add: unat_of_nat take_bit_nat_eq_self)
      have types: "length (s_types (foldr (\<lambda>cs. join (?g cs)) css no_streams)) < fuel"
        using fuel by (simp add: Nodes encode_Nodes del: encode.simps)
      have element: "reads view T S (readLoop R X fuel (rf_type X (rf_newElement X d m)) ?h (rf_newElement X d m) 0) f'
          (fold (build X) cs (rf_newElement X d m)) s"
        if "holds view T S f' (join (?g cs) s)" "cs \<in> set css" for f' s cs m
      proof (rule Suc.IH)
        show "fits X T S (rf_type X (rf_newElement X d m)) ?h cs"
          using fits_Nodes Suc.prems(1) X that(2) by (simp add: Cons Nodes reflect_ok_def)
        show "types_count X ?h cs < fuel"
          by (rule less_trans [OF types_member [OF that(2)] types])
        show "holds view T S f' (encodeAll X ?h cs (join (put_type (rf_stop X)) s))"
          using that(1) by (simp add: join_encodeAll)
      qed (simp add: ends_def)
      have elements: "reads view T S (repeatO (length css)
             (\<lambda>(m, tot). bndo (readLoop R X fuel (rf_type X (rf_newElement X d m)) ?h (rf_newElement X d m) 0)
                  (\<lambda>(nested, size). ret (Some (rf_append X d nested m, tot + size)))) (m, tot)) f' (fold ?k css m) ?s"
        if "holds view T S f' ?e" for f' m tot
        by (rule reads_repeat [OF _ that]) (auto intro!: reads_bndo [OF element] reads_ret)
      show ?thesis
        apply (simp add: Cons Nodes)
        apply (rule reads_field [OF R X d(1), where s = "join (put_length ?n) ?e"])
        using holds apply (simp add: Nodes encode_Nodes foldr_join_end del: encode.simps)
        apply (simp add: d(2,3) Let_def)
        apply (rule reads_bnd [OF gives_length [OF R]], assumption)
        apply (simp only: d(4))
        apply (rule reads_bndo [OF elements], assumption)
        apply (simp add: rest)
        done
    qed
  qed
qed simp


section \<open>Frames of an encoding\<close>

lemma value_strings: "t \<noteq> u \<or> ty \<noteq> CPPTYPE_STRING \<Longrightarrow> wf_value X ty v \<Longrightarrow> s_strings (put_value u v) t = []"
  by (auto simp: put_value_def no_streams_def wf_value_def split: fval.splits)

lemma strings_foldr:
  "(\<And>x. x \<in> set xs \<Longrightarrow> s_strings (g x) t = []) \<Longrightarrow> s_strings (foldr (\<lambda>x. join (g x)) xs e) t = s_strings e t"
  by (induction xs) (simp_all add: join_def)

lemma strings_put [simp]:
  "s_strings (put_type w) t = []" "s_strings (put_length w) t = []" "s_strings no_streams t = []"
  "s_strings (put_field d) t = []"
  by (simp_all add: put_defs put_field_def)

lemma strings_join [simp]: "s_strings (join a b) t = s_strings a t @ s_strings b t"
  by (simp add: join_def)

lemma strings_encode: "wf_content X ty c \<Longrightarrow> t \<notin> stringTags h c \<Longrightarrow> s_strings (encode X h c) t = []"
proof (induction c arbitrary: h ty)
  case (Leaf d v)
  then show ?case using value_strings [where v = v and ty = "fd_cpp_type d" and X = X] by (auto split: if_splits)
next
  case (Leaves d vs)
  then have "s_strings (put_value (structuredFieldTag h (fd_number d)) v) t = []" if "v \<in> set vs" for v
    using that value_strings [where v = v and ty = "fd_cpp_type d" and X = X] by (auto simp: list_all_iff split: if_splits)
  then show ?case by (simp add: strings_foldr)
next
  case (Node d cs)
  then have "s_strings (encode X h' c) t = []" if "c \<in> set cs" "h' = structuredExtendPathHash h (fd_number d)" for c h'
    using that by (auto simp: list_all_iff)
  then show ?case by (simp add: strings_foldr)
next
  case (Nodes d css)
  then have "s_strings (encode X h' c) t = []"
    if "cs \<in> set css" "c \<in> set cs" "h' = structuredExtendPathHash h (fd_number d)" for cs c h'
    using that Nodes.IH [where ty = "fd_message_type d", OF that(1,2)] by (auto simp: list_all_iff)
  then show ?case by (simp add: strings_foldr)
qed

lemma strings_encodeAll: "fits X T S ty h cs \<Longrightarrow> t \<notin> S \<Longrightarrow> s_strings (encodeAll X h cs no_streams) t = []"
  unfolding encodeAll_def by (subst strings_foldr) (auto simp: fits_def intro!: strings_encode)

lemma tags_no_control: "t \<in> tags h c \<Longrightarrow> t \<notin> controlTags"
proof (induction c arbitrary: h)
  have "0 < sint t \<Longrightarrow> t \<notin> controlTags" for t by (auto simp: controlTags_def structured_consts)
  then show "t \<in> tags h (Leaf d v) \<Longrightarrow> t \<notin> controlTags" "t \<in> tags h (Leaves d vs) \<Longrightarrow> t \<notin> controlTags" for h d v vs
    by (auto simp: tag_positive)
qed auto

definition value_output :: "jint set \<Rightarrow> streams \<Rightarrow> jint \<Rightarrow> st_output" where
  "value_output S s t = \<lparr>so_type = (if t \<in> S then ZL_string else ZL_serial), so_eltWidth = 1,
     so_numElts = (if t \<in> S then length (s_strings s t) else length (s_data s t)),
     so_content = s_data s t, so_stringLens = s_strings s t, so_tag = Some t\<rparr>"

definition frame_outputs :: "jint set \<Rightarrow> jint list \<Rightarrow> streams \<Rightarrow> st_output list" where
  "frame_outputs S ts s = control_output kStructuredControlFieldIds (s_ids s)
     # control_output kStructuredControlFieldTypes (s_types s)
     # control_output kStructuredControlFieldLengths (s_lengths s) # map (value_output S s) ts"

lemma control_assigned:
  assumes R: "reader_ok R view"
  obtains x where "view x = concat (map bytes32 ws)"
    "\<And>f. assignOutput R (control_output k ws) f = assignControl k ((outputCursor R (control_output k ws))\<lparr>cu_data := x\<rparr>) f"
proof -
  let ?c = "outputCursor R (control_output k ws)"
  have "view (cu_data ?c) = bytes32 kStructuredControlMagic @ bytes32 k @ concat (map bytes32 ws)"
    using R by (simp add: reader_ok_def control_output_def)
  from cursorLE32_ok [OF R this] obtain y where
    y: "cursorLE32 R ?c = (Ret kStructuredControlMagic, ?c\<lparr>cu_data := y\<rparr>)" "view y = bytes32 k @ concat (map bytes32 ws)"
    by blast
  have "view (cu_data (?c\<lparr>cu_data := y\<rparr>)) = bytes32 k @ concat (map bytes32 ws)" using y(2) by simp
  from cursorLE32_ok [OF R this] obtain x where
    x: "cursorLE32 R (?c\<lparr>cu_data := y\<rparr>) = (Ret k, ?c\<lparr>cu_data := x\<rparr>)" "view x = concat (map bytes32 ws)" by auto
  have "stripped R ?c = Inr (?c\<lparr>cu_data := x\<rparr>)"
    using y x by (simp add: stripped_def stripStructuredControlHeader_def bnd_def ret_def)
  moreover have "hasControlMagic (so_content (control_output k ws))" "so_tag (control_output k ws) = None"
    "words32 (so_content (control_output k ws)) ! 1 = k"
    by (simp_all add: hasControlMagic_def control_output_def)
  ultimately show thesis
    using that [OF x(2)] by (simp add: assignOutput_def Let_def)
qed

lemma emplaced: "\<exists>vs. emplaceValue t c f = f\<lparr>fr_values := vs\<rparr>"
proof (cases "fr_values f t")
  case (Some c')
  then have "emplaceValue t c f = f\<lparr>fr_values := fr_values f\<rparr>" by (simp add: emplaceValue_def)
  then show ?thesis by blast
qed (auto simp: emplaceValue_def)

lemma values_assigned:
  "set ts \<inter> controlTags = {} \<Longrightarrow> \<exists>vs. assignOutputs R (map (value_output S s) ts) f = Inr (f\<lparr>fr_values := vs\<rparr>)"
proof (induction ts arbitrary: f)
  case Nil
  have "f = f\<lparr>fr_values := fr_values f\<rparr>" by simp
  then show ?case by (metis assignOutputs.simps(1) list.map(1))
next
  case (Cons t ts)
  have t: "so_tag (value_output S s t) = Some t" by (simp add: value_output_def)
  have "assignOutput R (value_output S s t) f = Inr (emplaceValue t (outputCursor R (value_output S s t)) f)"
    using Cons.prems t by (auto simp: assignOutput_def Let_def controlTags_def)
  moreover obtain vs where "emplaceValue t (outputCursor R (value_output S s t)) f = f\<lparr>fr_values := vs\<rparr>"
    using emplaced [of t _ f] by blast
  moreover obtain vs' where "assignOutputs R (map (value_output S s) ts) (f\<lparr>fr_values := vs\<rparr>) = Inr (f\<lparr>fr_values := vs'\<rparr>)"
    using Cons.IH [of "f\<lparr>fr_values := vs\<rparr>"] Cons.prems by auto
  ultimately show ?case by auto
qed

lemma frame_decodes:
  assumes R: "reader_ok R view" and D: "D bs = Inr (frame_outputs S ts s)" and ts: "set ts \<inter> controlTags = {}"
    and S: "\<And>t. t \<notin> S \<Longrightarrow> s_strings s t = []"
  shows "\<exists>f. decodeStructuredFrame D tcode R bs = Inr f \<and> holds view (set ts) S f s
    \<and> length (s_types s) < decodeFuel f"
proof -
  have view_open: "view (sr_open R b) = b" for b using R by (simp add: reader_ok_def)
  obtain x1 where x1: "view x1 = concat (map bytes32 (s_ids s))"
    "\<And>f. assignOutput R (control_output kStructuredControlFieldIds (s_ids s)) f = assignControl kStructuredControlFieldIds
      ((outputCursor R (control_output kStructuredControlFieldIds (s_ids s)))\<lparr>cu_data := x1\<rparr>) f"
    using control_assigned [OF R] by metis
  obtain x2 where x2: "view x2 = concat (map bytes32 (s_types s))"
    "\<And>f. assignOutput R (control_output kStructuredControlFieldTypes (s_types s)) f = assignControl kStructuredControlFieldTypes
      ((outputCursor R (control_output kStructuredControlFieldTypes (s_types s)))\<lparr>cu_data := x2\<rparr>) f"
    using control_assigned [OF R] by metis
  obtain x3 where x3: "view x3 = concat (map bytes32 (s_lengths s))"
    "\<And>f. assignOutput R (control_output kStructuredControlFieldLengths (s_lengths s)) f = assignControl kStructuredControlFieldLengths
      ((outputCursor R (control_output kStructuredControlFieldLengths (s_lengths s)))\<lparr>cu_data := x3\<rparr>) f"
    using control_assigned [OF R] by metis
  define f0 where "f0 = emptyFrame
     \<lparr>fr_fieldIds := Some ((outputCursor R (control_output kStructuredControlFieldIds (s_ids s)))\<lparr>cu_data := x1\<rparr>),
      fr_fieldTypes := Some ((outputCursor R (control_output kStructuredControlFieldTypes (s_types s)))\<lparr>cu_data := x2\<rparr>),
      fr_fieldLengths := Some ((outputCursor R (control_output kStructuredControlFieldLengths (s_lengths s)))\<lparr>cu_data := x3\<rparr>)\<rparr>"
  obtain vs where vs: "assignOutputs R (map (value_output S s) ts) f0 = Inr (f0\<lparr>fr_values := vs\<rparr>)"
    using values_assigned [OF ts] by blast
  let ?f = "f0\<lparr>fr_values := vs\<rparr>"
  have "assignOutputs R (frame_outputs S ts s) emptyFrame = assignOutputs R (map (value_output S s) ts) f0"
    using x1(2) x2(2) x3(2) by (simp add: frame_outputs_def assignControl_def structured_consts f0_def)
  then have run: "decodeStructuredFrame D tcode R bs = Inr ?f"
    by (simp add: decodeStructuredFrame_def D vs) (simp add: f0_def emptyFrame_def)
  have find: "find (tagged t) (frame_outputs S ts s) = Some (value_output S s t)" if "t \<in> set ts" for t
  proof -
    have "find (tagged t) (map (value_output S s) ts) = Some (value_output S s t)"
      using that by (induction ts) (auto simp: tagged_def value_output_def)
    then show ?thesis by (simp add: frame_outputs_def tagged_def control_output_def)
  qed
  have vals: "fr_values ?f t = Some (outputCursor R (value_output S s t))" if "t \<in> set ts" for t
    using decodeFrame_result(6) [OF R run D] find [OF that] ts that by auto
  have "holds view (set ts) S ?f s"
    unfolding holds_def
    using x1(1) x2(1) x3(1) vals S
    by (simp add: f0_def newCursor_def copyStructuredOutput_def value_output_def view_open)
  moreover have "length (concat (map bytes32 ws)) = 4 * length ws" for ws by (induction ws) simp_all
  then have "length (s_types s) < decodeFuel ?f"
    by (simp add: decodeFuel_def f0_def control_output_def)
  ultimately show ?thesis using run by blast
qed

text \<open>C33. Decompressing a structured payload gives back the message it was written from: from the
  control streams and the value streams of any well-typed contents the decoder rebuilds exactly the
  message that setting these contents makes, nested and repeated fields included, and also when
  several fields share a stream because their tags collide.\<close>

theorem structured_roundtrip:
  assumes R: "reader_ok R view" and X: "reflect_ok X" and wf: "list_all (wf_content X (rf_type X m)) cs"
    and ts: "set ts = (\<Union>c \<in> set cs. tags h c)"
    and D: "D bs = Inr (frame_outputs (\<Union>c \<in> set cs. stringTags h c) ts (encodeAll X h cs no_streams))"
  shows "\<exists>f n. decodeStructuredFrame D tcode R bs = Inr f
    \<and> fst (readStructuredMessage R X m h f) = Ret (Some (fold (build X) cs m, n))"
proof -
  let ?S = "\<Union>c \<in> set cs. stringTags h c"
  have fits: "fits X (set ts) ?S (rf_type X m) h cs" using wf by (auto simp: fits_def ts list_all_iff)
  have S: "\<And>t. t \<notin> ?S \<Longrightarrow> s_strings (encodeAll X h cs no_streams) t = []" by (rule strings_encodeAll [OF fits])
  have disjoint: "set ts \<inter> controlTags = {}" using tags_no_control by (auto simp: ts)
  obtain f where f: "decodeStructuredFrame D tcode R bs = Inr f"
      "holds view (set ts) ?S f (encodeAll X h cs no_streams)" "types_count X h cs < decodeFuel f"
    unfolding types_count_def using frame_decodes [where tcode = tcode and D = D and bs = bs, OF R D disjoint] S by blast
  have "ends X no_streams no_streams" by (simp add: ends_def no_streams_def)
  from reads_loop [OF R X fits f(2) this f(3), of m 0] show ?thesis
    using f(1) by (auto simp: readStructuredMessage_def reads_def gives_def)
qed

text \<open>A nested message with a repeated string and a number, in protobuf's numbering.\<close>

definition sample_fdesc :: "u32 \<Rightarrow> unit fdesc option" where
  "sample_fdesc n =
     (if n = 1 then Some \<lparr>fd_number = 1, fd_cpp_type = CPPTYPE_UINT32, fd_repeated = False, fd_message_type = ()\<rparr>
      else if n = 2 then Some \<lparr>fd_number = 2, fd_cpp_type = CPPTYPE_STRING, fd_repeated = True, fd_message_type = ()\<rparr>
      else if n = 3 then Some \<lparr>fd_number = 3, fd_cpp_type = CPPTYPE_MESSAGE, fd_repeated = True, fd_message_type = ()\<rparr>
      else None)"

text \<open>Messages are the text of the calls that made them.\<close>

datatype sample_msg = Fresh | Setting u32 fval sample_msg | Adding u32 fval sample_msg | Putting u32 sample_msg sample_msg

definition sample_reflect :: "(sample_msg, unit) reflect" where
  "sample_reflect = \<lparr>rf_type = (\<lambda>_. ()), rf_find = (\<lambda>_. sample_fdesc),
     rf_set = (\<lambda>f v. Setting (fd_number f) v), rf_add = (\<lambda>f v. Adding (fd_number f) v),
     rf_mutable = (\<lambda>_ _. Fresh), rf_put = (\<lambda>f. Putting (fd_number f)), rf_newElement = (\<lambda>_ _. Fresh),
     rf_append = (\<lambda>f. Putting (fd_number f)), rf_width = (\<lambda>_. 4), rf_stop = 0\<rparr>"

definition sample_contents :: "unit content list" where
  "sample_contents = [Leaf (the (sample_fdesc 1)) (FScalar (bytes32 7)),
     Nodes (the (sample_fdesc 3)) [[Leaves (the (sample_fdesc 2)) [FString [104, 105], FString []]], []]]"

definition sample_payload :: "st_output list" where
  "sample_payload = frame_outputs (\<Union>c \<in> set sample_contents. stringTags kStructuredRootPathHash c)
     [structuredFieldTag kStructuredRootPathHash 1, structuredFieldTag (structuredExtendPathHash kStructuredRootPathHash 3) 2]
     (encodeAll sample_reflect kStructuredRootPathHash sample_contents no_streams)"

lemma structured_roundtrip_witness:
  "\<exists>f n. decodeStructuredFrame (\<lambda>_. Inr sample_payload) (\<lambda>_. 0) listReader [] = Inr f
    \<and> fst (readStructuredMessage listReader sample_reflect Fresh kStructuredRootPathHash f)
      = Ret (Some (Putting 3 Fresh (Putting 3 (Adding 2 (FString []) (Adding 2 (FString [104, 105]) Fresh))
          (Setting 1 (FScalar (bytes32 7)) Fresh)), n))"
proof -
  have ok: "reflect_ok sample_reflect"
  proof -
    have "cpp_code ty \<noteq> 0" for ty by (cases ty) simp_all
    then show ?thesis by (simp add: reflect_ok_def sample_reflect_def)
  qed
  have wf: "list_all (wf_content sample_reflect (rf_type sample_reflect Fresh)) sample_contents"
    by (simp add: sample_contents_def sample_fdesc_def known_def wf_value_def sample_reflect_def)
  have tags: "set [structuredFieldTag kStructuredRootPathHash 1,
      structuredFieldTag (structuredExtendPathHash kStructuredRootPathHash 3) 2]
      = (\<Union>c \<in> set sample_contents. tags kStructuredRootPathHash c)"
    by (auto simp: sample_contents_def sample_fdesc_def)
  have built: "fold (build sample_reflect) sample_contents Fresh
     = Putting 3 Fresh (Putting 3 (Adding 2 (FString []) (Adding 2 (FString [104, 105]) Fresh))
          (Setting 1 (FScalar (bytes32 7)) Fresh))"
    by (simp add: sample_contents_def sample_fdesc_def sample_reflect_def)
  show ?thesis
    using structured_roundtrip [OF listReader_ok ok wf tags, of "\<lambda>_. Inr sample_payload" "[]"]
    by (simp add: sample_payload_def built)
qed

end
