(* ===== verification/Training_Registry.thy ===== *)
theory Training_Registry
  imports OZ_Prelude
begin

text \<open>
  \<open>JNI/OpenZLProtobuf.cpp\<close>: the registry that collects protobuf payloads of a message type until
  a compressor is trained on them (\<open>CompressorTrainingRegistry\<close>).  The critical sections that
  \<open>maybeAugmentTraining\<close> and \<open>applyTrainedCompressor\<close> run under the lock of the type's state are
  functions on that state; training happens between two of them.
\<close>

section \<open>The state of a message type\<close>

definition kMinTrainingSamples :: nat where "kMinTrainingSamples = 4"
definition kMaxTrainingSamples :: nat where "kMaxTrainingSamples = 24"
definition kMinTrainingSampleBytes :: nat where "kMinTrainingSampleBytes = 1024"
definition kTargetTrainingCorpusBytes :: nat where "kTargetTrainingCorpusBytes = 65536"

lemmas training_consts = kMinTrainingSamples_def kMaxTrainingSamples_def kMinTrainingSampleBytes_def
  kTargetTrainingCorpusBytes_def

record training =
  trainingComplete :: bool
  trainingInProgress :: bool
  generation :: nat
  totalBytes :: nat
  samples :: "bytes list"
  serialized :: bytes
  minSamples :: nat
  targetBytes :: nat

definition initialTraining :: training where
  "initialTraining = \<lparr>trainingComplete = False, trainingInProgress = False, generation = 0,
     totalBytes = 0, samples = [], serialized = [], minSamples = kMinTrainingSamples,
     targetBytes = kTargetTrainingCorpusBytes\<rparr>"

section \<open>Critical sections\<close>

text \<open>A payload shorter than a sample has to be is not offered at all.\<close>

definition ignoresPayload :: "nat \<Rightarrow> bool" where
  "ignoresPayload payloadLength \<longleftrightarrow> payloadLength < kMinTrainingSampleBytes"

text \<open>What a payload is offered for: nothing, applying what is trained already, or training.\<close>

record offer =
  of_applyExisting :: bool
  of_samples :: "bytes list"
  of_minSamples :: nat

definition addSample :: "bytes \<Rightarrow> training \<Rightarrow> training" where
  "addSample payload s =
     (if length (samples s) < kMaxTrainingSamples
      then s\<lparr>samples := samples s @ [payload], totalBytes := totalBytes s + length payload\<rparr>
      else s)"

definition thresholdReached :: "training \<Rightarrow> bool" where
  "thresholdReached s \<longleftrightarrow> length (samples s) \<ge> minSamples s \<or> totalBytes s \<ge> targetBytes s"

definition offerSample :: "bytes \<Rightarrow> nat \<Rightarrow> training \<Rightarrow> offer \<times> training" where
  "offerSample payload appliedGeneration s =
     (let result = \<lparr>of_applyExisting = False, of_samples = [], of_minSamples = minSamples s\<rparr> in
      if trainingComplete s then
        (result\<lparr>of_applyExisting := serialized s \<noteq> [] \<and> generation s > appliedGeneration\<rparr>, s)
      else if \<not> trainingInProgress s then
        let s = addSample payload s in
        if thresholdReached s \<and> samples s \<noteq> [] then
          (result\<lparr>of_samples := samples s\<rparr>,
           s\<lparr>trainingInProgress := True, samples := [], totalBytes := 0\<rparr>)
        else (result, s)
      else (result, s))"

text \<open>The result of training; empty when it failed.\<close>

definition publishTrained :: "bytes \<Rightarrow> training \<Rightarrow> bool \<times> training" where
  "publishTrained trained s =
     (let s = s\<lparr>trainingInProgress := False\<rparr> in
      if trained \<noteq> [] then
        (True, s\<lparr>serialized := trained, trainingComplete := True, generation := Suc (generation s)\<rparr>)
      else (False, s\<lparr>trainingComplete := False\<rparr>))"

definition fetchTrained :: "nat \<Rightarrow> training \<Rightarrow> (bytes \<times> nat) option" where
  "fetchTrained appliedGeneration s =
     (if \<not> trainingComplete s then None
      else if serialized s = [] then None
      else if generation s \<le> appliedGeneration then None
      else Some (serialized s, generation s))"

definition setMinSamples :: "nat \<Rightarrow> training \<Rightarrow> training" where
  "setMinSamples n s = s\<lparr>minSamples := (if n = 0 then 1 else n)\<rparr>"

section \<open>Threads\<close>

text \<open>
  A thread either trains on the samples it took, or is outside.  A payload shorter than the
  minimum is not offered.  The result of training is arbitrary.
\<close>

type_synonym threads = "nat \<Rightarrow> bytes list option"

inductive training_step :: "training \<times> threads \<Rightarrow> training \<times> threads \<Rightarrow> bool" where
  collect: "pc t = None \<Longrightarrow> kMinTrainingSampleBytes \<le> length payload \<Longrightarrow>
     offerSample payload appliedGeneration s = (r, s') \<Longrightarrow> of_samples r = [] \<Longrightarrow>
     training_step (s, pc) (s', pc)"
| start: "pc t = None \<Longrightarrow> kMinTrainingSampleBytes \<le> length payload \<Longrightarrow>
     offerSample payload appliedGeneration s = (r, s') \<Longrightarrow> of_samples r \<noteq> [] \<Longrightarrow>
     training_step (s, pc) (s', pc(t \<mapsto> of_samples r))"
| finish: "pc t = Some taken \<Longrightarrow> publishTrained trained s = (published, s') \<Longrightarrow>
     training_step (s, pc) (s', pc(t := None))"
| configure: "0 < n \<Longrightarrow> training_step (s, pc) (setMinSamples n s, pc)"

inductive training_reach :: "training \<times> threads \<Rightarrow> bool" where
  initial: "training_reach (initialTraining, \<lambda>_. None)"
| later: "training_reach c \<Longrightarrow> training_step c c' \<Longrightarrow> training_reach c'"

definition training_inv :: "training \<Rightarrow> threads \<Rightarrow> bool" where
  "training_inv s pc \<longleftrightarrow>
     (if trainingInProgress s then \<exists>t x. pc = [t \<mapsto> x] else pc = Map.empty)
   \<and> (trainingInProgress s \<longrightarrow> samples s = [] \<and> \<not> trainingComplete s)
   \<and> totalBytes s = sum_list (map length (samples s)) \<and> length (samples s) \<le> kMaxTrainingSamples
   \<and> (if trainingComplete s then generation s = 1 \<and> serialized s \<noteq> [] else generation s = 0 \<and> serialized s = [])
   \<and> 0 < minSamples s"

lemma offer_cases:
  assumes "offerSample payload g s = (r, s')"
  obtains (complete) "trainingComplete s" "s' = s" "of_samples r = []"
  | (busy) "\<not> trainingComplete s" "trainingInProgress s" "s' = s" "of_samples r = []"
  | (kept) "\<not> trainingComplete s" "\<not> trainingInProgress s" "s' = addSample payload s" "of_samples r = []"
      "\<not> thresholdReached (addSample payload s) \<or> samples (addSample payload s) = []"
  | (taken) "\<not> trainingComplete s" "\<not> trainingInProgress s"
      "s' = (addSample payload s)\<lparr>trainingInProgress := True, samples := [], totalBytes := 0\<rparr>"
      "of_samples r = samples (addSample payload s)" "of_samples r \<noteq> []"
  using assms by (auto simp: offerSample_def Let_def split: if_splits)

lemma addSample_keeps [simp]:
  "trainingComplete (addSample p s) = trainingComplete s" "trainingInProgress (addSample p s) = trainingInProgress s"
  "generation (addSample p s) = generation s" "serialized (addSample p s) = serialized s"
  "minSamples (addSample p s) = minSamples s" "targetBytes (addSample p s) = targetBytes s"
  by (simp_all add: addSample_def)

lemma addSample_corpus:
  "totalBytes s = sum_list (map length (samples s)) \<Longrightarrow>
     totalBytes (addSample p s) = sum_list (map length (samples (addSample p s)))"
  "length (samples s) \<le> kMaxTrainingSamples \<Longrightarrow> length (samples (addSample p s)) \<le> kMaxTrainingSamples"
  by (simp_all add: addSample_def)

lemma training_inv_step:
  assumes "training_inv s pc" and "training_step (s, pc) (s', pc')"
  shows "training_inv s' pc'"
  using assms(2)
proof (cases rule: training_step.cases)
  case (collect t payload g r)
  from collect(4) show ?thesis
    by (cases rule: offer_cases) (use assms(1) collect in \<open>auto simp: training_inv_def addSample_corpus\<close>)
next
  case (start t payload g r)
  from start(4) show ?thesis
    by (cases rule: offer_cases) (use assms(1) start in \<open>auto simp: training_inv_def addSample_corpus\<close>)
next
  case (finish t taken trained published)
  then obtain x where "trainingInProgress s" "pc = [t \<mapsto> x]"
    using assms(1) by (auto simp: training_inv_def split: if_splits)
  then show ?thesis
    using assms(1) finish by (auto simp: training_inv_def publishTrained_def Let_def split: if_splits)
next
  case configure
  then show ?thesis using assms(1) by (simp add: training_inv_def setMinSamples_def)
qed

lemma training_inv_reach: "training_reach c \<Longrightarrow> training_inv (fst c) (snd c)"
proof (induction rule: training_reach.induct)
  case initial
  show ?case by (simp add: training_inv_def initialTraining_def training_consts)
next
  case (later c c')
  then show ?case by (metis prod.collapse training_inv_step)
qed

section \<open>Properties\<close>

text \<open>C27. Whatever payloads the threads offer and however long they train: at most one thread trains a
  type at a time, no samples are gathered meanwhile, a trained compressor is published at most
  once, and the corpus never exceeds 24 samples and knows its size.\<close>

theorem training_exclusive:
  assumes "training_reach (s, pc)"
  shows "(\<exists>t. dom pc \<subseteq> {t}) \<and> (trainingInProgress s \<longleftrightarrow> dom pc \<noteq> {})
    \<and> (trainingInProgress s \<longrightarrow> samples s = []) \<and> generation s = (if trainingComplete s then 1 else 0)
    \<and> (trainingComplete s \<longleftrightarrow> serialized s \<noteq> []) \<and> length (samples s) \<le> 24
    \<and> totalBytes s = sum_list (map length (samples s))"
  using training_inv_reach [OF assms] unfolding training_inv_def training_consts
  by (auto split: if_splits)

definition sample_payload :: bytes where
  "sample_payload = replicate 1024 0"

definition one_sample :: training where
  "one_sample = initialTraining\<lparr>samples := [sample_payload], totalBytes := 1024\<rparr>"

lemma sample_payload_length [simp]: "length sample_payload = 1024"
  by (simp add: sample_payload_def)

lemma reach_one: "training_reach (one_sample, Map.empty)"
proof (rule training_reach.later [OF training_reach.initial])
  have "offerSample sample_payload 0 initialTraining
      = (\<lparr>of_applyExisting = False, of_samples = [], of_minSamples = 4\<rparr>, one_sample)"
    by (simp add: offerSample_def initialTraining_def one_sample_def addSample_def thresholdReached_def
        training_consts Let_def)
  then show "training_step (initialTraining, Map.empty) (one_sample, Map.empty)"
    by (rule training_step.collect [rotated 2]) (simp_all add: training_consts)
qed

lemma training_exclusive_witness:
  "(\<exists>t. dom (Map.empty :: threads) \<subseteq> {t}) \<and> (trainingInProgress one_sample \<longleftrightarrow> dom (Map.empty :: threads) \<noteq> {})
    \<and> generation one_sample = (if trainingComplete one_sample then 1 else 0)
    \<and> (trainingComplete one_sample \<longleftrightarrow> serialized one_sample \<noteq> []) \<and> length (samples one_sample) \<le> 24
    \<and> totalBytes one_sample = sum_list (map length (samples one_sample))"
  using training_exclusive [OF reach_one] by blast

text \<open>C28. A trained compressor stays: no later step of any thread replaces or withdraws it.\<close>

theorem trained_stable:
  assumes "training_reach (s, pc)" and "trainingComplete s" and "training_step (s, pc) (s', pc')"
  shows "trainingComplete s' \<and> serialized s' = serialized s \<and> generation s' = generation s"
  using assms(3)
proof (cases rule: training_step.cases)
  case (finish t taken trained published)
  have "training_inv s pc" using training_inv_reach [OF assms(1)] by simp
  then have False using finish(2) assms(2) by (auto simp: training_inv_def split: if_splits)
  then show ?thesis ..
qed (use assms(2) in \<open>auto simp: offerSample_def setMinSamples_def Let_def\<close>)

text \<open>A training that a thread finished with the result \<open>[1]\<close>.\<close>

definition taken_sample :: training where
  "taken_sample = initialTraining\<lparr>minSamples := 1, trainingInProgress := True\<rparr>"

definition trained_sample :: training where
  "trained_sample = initialTraining\<lparr>minSamples := 1, trainingComplete := True, generation := 1, serialized := [1]\<rparr>"

lemma reach_trained: "training_reach (trained_sample, Map.empty)"
proof -
  let ?s1 = "initialTraining\<lparr>minSamples := 1\<rparr>"
  have "training_reach (setMinSamples 1 initialTraining, Map.empty)"
    by (rule training_reach.later [OF training_reach.initial training_step.configure]) simp
  then have 1: "training_reach (?s1, Map.empty)" by (simp add: setMinSamples_def)
  let ?r = "\<lparr>of_applyExisting = False, of_samples = [sample_payload], of_minSamples = 1\<rparr>"
  have "offerSample sample_payload 0 ?s1 = (?r, taken_sample)"
    by (simp add: offerSample_def initialTraining_def addSample_def thresholdReached_def training_consts
        taken_sample_def Let_def)
  then have "training_step (?s1, Map.empty) (taken_sample, Map.empty(0 \<mapsto> of_samples ?r))"
    by (intro training_step.start [where payload = sample_payload and appliedGeneration = 0])
      (simp_all add: training_consts)
  then have 2: "training_reach (taken_sample, [0 \<mapsto> [sample_payload]])"
    using training_reach.later [OF 1] by simp
  have "publishTrained [1] taken_sample = (True, trained_sample)"
    by (simp add: publishTrained_def taken_sample_def trained_sample_def initialTraining_def)
  then have "training_step (taken_sample, [0 \<mapsto> [sample_payload]]) (trained_sample, [0 \<mapsto> [sample_payload]](0 := None))"
    by (intro training_step.finish) simp_all
  then show ?thesis using training_reach.later [OF 2] by simp
qed

lemma trained_stable_witness:
  "trainingComplete (setMinSamples 7 trained_sample)
    \<and> serialized (setMinSamples 7 trained_sample) = serialized trained_sample
    \<and> generation (setMinSamples 7 trained_sample) = generation trained_sample"
  by (rule trained_stable [OF reach_trained _ training_step.configure]) (simp_all add: trained_sample_def)

text \<open>Protobuf payloads converted one after the other, and what the registry sees of them.\<close>

definition offerAll :: "nat \<Rightarrow> bytes list \<Rightarrow> training \<Rightarrow> training" where
  "offerAll g = fold (\<lambda>p s. if ignoresPayload (length p) then s else snd (offerSample p g s))"

lemma offerAll_Cons: "offerAll g (p # ps) s
    = offerAll g ps (if ignoresPayload (length p) then s else snd (offerSample p g s))"
  by (simp add: offerAll_def)

lemma offerAll_busy: "trainingInProgress s \<Longrightarrow> \<not> trainingComplete s \<Longrightarrow> offerAll g ps s = s"
  by (induction ps) (simp_all add: offerAll_def offerSample_def Let_def)

lemma offerAll_ignored: "\<forall>p \<in> set ps. length p < 1024 \<Longrightarrow> offerAll g ps s = s"
  by (induction ps) (simp_all add: offerAll_def ignoresPayload_def training_consts)

lemma offerAll_starts:
  assumes "\<not> trainingComplete s" "\<not> trainingInProgress s" and "minSamples s \<le> 24"
    and "length (samples s) < minSamples s"
    and "minSamples s \<le> length (samples s) + length (filter (\<lambda>p. 1024 \<le> length p) ps)"
  shows "trainingInProgress (offerAll g ps s)"
  using assms
proof (induction ps arbitrary: s)
  case (Cons p ps)
  let ?s = "addSample p s"
  have len: "length (samples ?s) = Suc (length (samples s))"
    using Cons.prems(3,4) by (simp add: addSample_def training_consts)
  consider "length p < 1024" | "1024 \<le> length p" "thresholdReached ?s" | "1024 \<le> length p" "\<not> thresholdReached ?s"
    by linarith
  then show ?case
  proof cases
    case 1
    then show ?thesis
      using Cons.prems by (simp add: offerAll_Cons ignoresPayload_def training_consts Cons.IH)
  next
    case 2
    then have "snd (offerSample p g s) = ?s\<lparr>trainingInProgress := True, samples := [], totalBytes := 0\<rparr>"
      using Cons.prems(1,2) len by (auto simp: offerSample_def Let_def)
    then show ?thesis
      using Cons.prems(1) 2(1) by (simp add: offerAll_Cons offerAll_busy ignoresPayload_def training_consts)
  next
    case 3
    then have off: "snd (offerSample p g s) = ?s" using Cons.prems(1,2) by (simp add: offerSample_def Let_def)
    have less: "Suc (length (samples s)) < minSamples s" using 3(2) len by (simp add: thresholdReached_def)
    then have "trainingInProgress (offerAll g ps ?s)"
      using Cons.prems 3(1) len by (intro Cons.IH) simp_all
    then show ?thesis using 3(1) by (simp add: offerAll_Cons off ignoresPayload_def training_consts)
  qed
qed simp

text \<open>C29. If the minimum is at most 24, training starts by the time that as many protobuf payloads
  of at least 1 KiB were converted, the samples gathered already included, in whatever order shorter payloads
  come between them; those leave the registry as it is.\<close>

theorem training_starts:
  assumes "\<not> trainingComplete s" "\<not> trainingInProgress s" and "minSamples s \<le> 24"
    and "length (samples s) < minSamples s"
    and "minSamples s \<le> length (samples s) + length (filter (\<lambda>p. 1024 \<le> length p) ps)"
    and "\<forall>p \<in> set short. length p < 1024"
  shows "trainingInProgress (offerAll g ps s) \<and> offerAll g short s = s"
  using offerAll_starts [OF assms(1-5)] offerAll_ignored [OF assms(6)] by blast

lemma training_starts_witness:
  "trainingInProgress (offerAll 0 ([1] # replicate 4 sample_payload) initialTraining)
    \<and> offerAll 0 (replicate 7 [1]) initialTraining = initialTraining"
  by (rule training_starts) (simp_all add: initialTraining_def training_consts)

text \<open>C30. With a minimum above 24 the corpus can fill up for ever: once 24 samples are gathered and
  they do not reach the byte target, no payload changes the state or starts a training.\<close>

theorem training_stalls:
  assumes "24 < minSamples s" "length (samples s) = 24" "totalBytes s < targetBytes s"
    and "\<not> trainingComplete s" "\<not> trainingInProgress s"
  shows "snd (offerSample payload g s) = s \<and> of_samples (fst (offerSample payload g s)) = []
    \<and> offerAll g ps s = s"
proof -
  have "addSample p s = s" for p using assms(2) by (simp add: addSample_def training_consts)
  then have off: "offerSample p g s = (\<lparr>of_applyExisting = False, of_samples = [], of_minSamples = minSamples s\<rparr>, s)" for p
    using assms by (simp add: offerSample_def thresholdReached_def Let_def)
  have "offerAll g ps s = s" by (induction ps) (simp_all add: offerAll_def off)
  then show ?thesis by (simp add: off)
qed

text \<open>A full corpus of the smallest payloads.\<close>

definition full_corpus :: training where
  "full_corpus = initialTraining\<lparr>minSamples := 25, samples := replicate 24 sample_payload, totalBytes := 24576\<rparr>"

lemma training_stalls_witness:
  "snd (offerSample sample_payload 0 full_corpus) = full_corpus
    \<and> of_samples (fst (offerSample sample_payload 0 full_corpus)) = []
    \<and> offerAll 0 [sample_payload, sample_payload] full_corpus = full_corpus"
  by (rule training_stalls) (simp_all add: full_corpus_def initialTraining_def training_consts)

end
