(* ===== verification/Proto_Library.thy ===== *)
theory Proto_Library
  imports Compressor_Oneoff Training_Registry
begin

text \<open>
  \<open>JNI/OpenZLProtobuf.cpp\<close>: message descriptors, messages and serializers of the protobuf
  bridge, with the caches that keep them and the compressors trained on the way.  Protobuf and
  OpenZL's protobuf tools are a parameter, the record \<open>proto\<close>.
\<close>

section \<open>Protobuf and the serializers as a parameter\<close>

datatype pparam = PCompressionLevel | PMinStreamSize

text \<open>
  \<open>'s\<close> is a serializer, \<open>'d\<close> a deserializer, \<open>'m\<close> a message, \<open>'k\<close> a compressor, \<open>'i\<close> an input
  of a training, \<open>'b\<close> the descriptor databases with the pool built on them, and \<open>'t\<close> a message
  descriptor.  \<open>pl_updateCompressor\<close> is a change of the compressor a serializer points to.
  Members that throw return the exception.
\<close>

record ('s, 'd, 'm, 'k, 'i, 'b, 't) proto =
  pl_newSerializer :: 's
  pl_getCompressor :: "'s \<Rightarrow> 'k option"
  pl_updateCompressor :: "'k \<Rightarrow> 's \<Rightarrow> 's"
  pl_setCompressor :: "'k \<Rightarrow> 's \<Rightarrow> cpp_exn option \<times> 's"
  pl_serialize :: "'m \<Rightarrow> 's \<Rightarrow> (cpp_exn + bytes) \<times> 's"
  pl_trainingInputs :: "'m \<Rightarrow> 's \<Rightarrow> (cpp_exn + 'i list) \<times> 's"
  pl_newDeserializer :: 'd
  pl_deserialize :: "bytes \<Rightarrow> 'm \<Rightarrow> 'd \<Rightarrow> cpp_exn option \<times> 'm \<times> 'd"
  pl_newCompressor :: 'k
  pl_setParameter :: "pparam \<Rightarrow> nat \<Rightarrow> 'k \<Rightarrow> cpp_exn option \<times> 'k"
  pl_loadCompressor :: "bytes \<Rightarrow> 'k \<Rightarrow> cpp_exn option \<times> 'k"
  pl_compressorJson :: "'k \<Rightarrow> cpp_exn + string"
  pl_registerGraph :: "'k \<Rightarrow> nat \<times> 'k"
  pl_selectStartingGraph :: "nat \<Rightarrow> 'k \<Rightarrow> cpp_exn option \<times> 'k"
  pl_train :: "train_params \<Rightarrow> (bytes \<Rightarrow> cpp_exn + 'k) option \<Rightarrow> 'i list list \<Rightarrow> 'k \<Rightarrow> cpp_exn + bytes list"
  pl_clear :: "'m \<Rightarrow> 'm"
  pl_parse :: "bytes \<Rightarrow> 'm \<Rightarrow> bool \<times> 'm"
  pl_toBytes :: "'m \<Rightarrow> bytes option"
  pl_fromJson :: "bytes \<Rightarrow> 'm \<Rightarrow> string option \<times> 'm"
  pl_toJson :: "'m \<Rightarrow> string + bytes"
  pl_new :: "'m \<Rightarrow> 'm"
  pl_parseSet :: "bytes \<Rightarrow> (string \<times> bytes) list option"
  pl_addFile :: "string \<times> bytes \<Rightarrow> 'b \<Rightarrow> bool \<times> 'b"
  pl_findFile :: "string \<Rightarrow> 'b \<Rightarrow> bool \<times> 'b"
  pl_findType :: "string \<Rightarrow> 'b \<Rightarrow> 't option \<times> 'b"
  pl_generatedType :: "string \<Rightarrow> 't option"
  pl_inPool :: "'t \<Rightarrow> bool"
  pl_prototype :: "'t \<Rightarrow> 'b \<Rightarrow> 'm option"
  pl_generatedPrototype :: "'t \<Rightarrow> 'm option"

section \<open>State\<close>

record 's entry =
  en_serializer :: 's
  en_appliedGeneration :: nat

record perf =
  pf_enabled :: bool
  pf_ns :: "u64 list"
  pf_calls :: u64

text \<open>
  The process as the protobuf bridge sees it: the thread-local caches of the running thread, the
  training states and the descriptors shared by all threads, the performance counters, and the
  durations the clock is going to measure.
\<close>

record ('s, 'd, 'm, 'b) process = jvm +
  serializers :: "string \<Rightarrow> 's entry option"
  explicitSerializers :: "bytes \<Rightarrow> 's option"
  deserializers :: "string \<Rightarrow> 'd option"
  messages :: "string \<Rightarrow> 'm option"
  trainings :: "string \<Rightarrow> training option"
  descriptors :: 'b
  directIntoPerf :: perf
  durations :: "u64 list"

text \<open>Objects of C++ that are in a cache; what is not there is a dangling reference.\<close>

definition needed :: "('w \<Rightarrow> 'a option) \<Rightarrow> ('w, 'a) act" where
  "needed f w = (case f w of None \<Rightarrow> (Undef, w) | Some a \<Rightarrow> (Ret a, w))"

section \<open>Descriptors and messages\<close>

fun addFiles :: "('s, 'd, 'm, 'k, 'i, 'b, 't) proto \<Rightarrow> (string \<times> bytes) list \<Rightarrow> 'b \<Rightarrow> bool \<times> 'b" where
  "addFiles P [] b = (False, b)"
| "addFiles P (f # fs) b = (let (new, b) = pl_addFile P f b; (rest, b) = addFiles P fs b in (new \<or> rest, b))"

fun loadFiles :: "('s, 'd, 'm, 'k, 'i, 'b, 't) proto \<Rightarrow> (string \<times> bytes) list \<Rightarrow> 'b \<Rightarrow> cpp_exn option \<times> 'b" where
  "loadFiles P [] b = (None, b)"
| "loadFiles P (f # fs) b = (let (found, b) = pl_findFile P (fst f) b in
     if \<not> found then (Some (RuntimeError (''Failed to load descriptor: '' @ fst f)), b) else loadFiles P fs b)"

definition registerDescriptorSet :: "('s, 'd, 'm, 'k, 'i, 'b, 't) proto \<Rightarrow> (string \<times> bytes) list
    \<Rightarrow> (('s, 'd, 'm, 'b, 'z) process_scheme, unit) act" where
  "registerDescriptorSet P fs w =
     (let (added, b) = addFiles P fs (descriptors w);
          (r, b) = (if added then loadFiles P fs b else (None, b));
          w = w\<lparr>descriptors := b\<rparr> in
      case r of None \<Rightarrow> (Ret (), w) | Some e \<Rightarrow> (Throw e, w))"

definition findDescriptor :: "('s, 'd, 'm, 'k, 'i, 'b, 't) proto \<Rightarrow> string
    \<Rightarrow> (('s, 'd, 'm, 'b, 'z) process_scheme, 't option) act" where
  "findDescriptor P type w =
     (if type = [] then (Ret None, w)
      else let (desc, b) = pl_findType P type (descriptors w); w = w\<lparr>descriptors := b\<rparr> in
        case desc of Some d \<Rightarrow> (Ret (Some d), w) | None \<Rightarrow> (Ret (pl_generatedType P type), w))"

definition hasType :: "('s, 'd, 'm, 'k, 'i, 'b, 't) proto \<Rightarrow> string
    \<Rightarrow> (('s, 'd, 'm, 'b, 'z) process_scheme, bool) act" where
  "hasType P type = bnd (findDescriptor P type) (\<lambda>d. ret (d \<noteq> None))"

definition newMessage :: "('s, 'd, 'm, 'k, 'i, 'b, 't) proto \<Rightarrow> string
    \<Rightarrow> (('s, 'd, 'm, 'b, 'z) process_scheme, 'm) act" where
  "newMessage P type =
     (if type = [] then throw (RuntimeError ''Protobuf message type must not be empty'') else
      bnd (findDescriptor P type) (\<lambda>desc. case desc of
        None \<Rightarrow> throw (RuntimeError (''Unknown protobuf message type: '' @ type))
      | Some d \<Rightarrow>
      bnd (gets (\<lambda>w. if pl_inPool P d then pl_prototype P d (descriptors w) else pl_generatedPrototype P d)) (\<lambda>p.
      case p of
        None \<Rightarrow> throw (RuntimeError (''Unable to create prototype for protobuf message type: '' @ type))
      | Some m \<Rightarrow> ret (pl_new P m))))"

text \<open>The message stays in the cache; the result is its content.\<close>

definition setMessage :: "string \<Rightarrow> 'm \<Rightarrow> (('s, 'd, 'm, 'b, 'z) process_scheme, unit) act" where
  "setMessage type m = modify (\<lambda>w. w\<lparr>messages := (messages w)(type \<mapsto> m)\<rparr>)"

definition reusableMessage :: "('s, 'd, 'm, 'k, 'i, 'b, 't) proto \<Rightarrow> string
    \<Rightarrow> (('s, 'd, 'm, 'b, 'z) process_scheme, 'm) act" where
  "reusableMessage P type =
     bnd (gets (\<lambda>w. messages w type)) (\<lambda>cached.
     bnd (case cached of Some m \<Rightarrow> ret m | None \<Rightarrow> newMessage P type) (\<lambda>m.
     seq (setMessage type (pl_clear P m)) (ret (pl_clear P m))))"

section \<open>Serializers\<close>

definition configureSerializer :: "('s, 'd, 'm, 'k, 'i, 'b, 't) proto \<Rightarrow> 's \<Rightarrow> 's" where
  "configureSerializer P s = (case pl_getCompressor P s of
      None \<Rightarrow> s
    | Some k \<Rightarrow> (case pl_setParameter P PCompressionLevel 1 k of
        (Some e, k) \<Rightarrow> pl_updateCompressor P k s
      | (None, k) \<Rightarrow> pl_updateCompressor P (snd (pl_setParameter P PMinStreamSize 0 k)) s))"

definition newSerializer :: "('s, 'd, 'm, 'k, 'i, 'b, 't) proto \<Rightarrow> ('z jvm_scheme, 's) act" where
  "newSerializer P = bnd fault (\<lambda>f. if f then throw BadAlloc else ret (pl_newSerializer P))"

text \<open>The compressor of serialized bytes, on a default-constructed one.\<close>

definition loadedCompressor :: "('s, 'd, 'm, 'k, 'i, 'b, 't) proto \<Rightarrow> bytes \<Rightarrow> ('z jvm_scheme, 'k) act" where
  "loadedCompressor P bs = bnd fault (\<lambda>f. if f then throw BadAlloc else
     case pl_loadCompressor P bs (pl_newCompressor P) of (Some e, _) \<Rightarrow> throw e | (None, k) \<Rightarrow> ret k)"

definition setCompressor :: "('s, 'd, 'm, 'k, 'i, 'b, 't) proto \<Rightarrow> 'k \<Rightarrow> 's \<Rightarrow> ('z jvm_scheme, 's) act" where
  "setCompressor P k s = (case pl_setCompressor P k s of (Some e, _) \<Rightarrow> throw e | (None, s) \<Rightarrow> ret s)"

text \<open>\<open>CompressorTrainingRegistry::state\<close>.\<close>

definition trainingState :: "string \<Rightarrow> (('s, 'd, 'm, 'b, 'z) process_scheme, training) act" where
  "trainingState type w = (case trainings w type of
      Some s \<Rightarrow> (Ret s, w)
    | None \<Rightarrow> (Ret initialTraining, w\<lparr>trainings := (trainings w)(type \<mapsto> initialTraining)\<rparr>))"

definition setTraining :: "string \<Rightarrow> training \<Rightarrow> (('s, 'd, 'm, 'b, 'z) process_scheme, unit) act" where
  "setTraining type s = modify (\<lambda>w. w\<lparr>trainings := (trainings w)(type \<mapsto> s)\<rparr>)"

definition setEntry :: "string \<Rightarrow> 's entry \<Rightarrow> (('s, 'd, 'm, 'b, 'z) process_scheme, unit) act" where
  "setEntry type e = modify (\<lambda>w. w\<lparr>serializers := (serializers w)(type \<mapsto> e)\<rparr>)"

text \<open>
  A failure is ignored.  When \<open>setCompressor\<close> throws, the serializer keeps what the call left.
\<close>

definition applyTrainedCompressor :: "('s, 'd, 'm, 'k, 'i, 'b, 't) proto \<Rightarrow> string
    \<Rightarrow> (('s, 'd, 'm, 'b, 'z) process_scheme, unit) act" where
  "applyTrainedCompressor P type =
     bnd (trainingState type) (\<lambda>st.
     bnd (needed (\<lambda>w. serializers w type)) (\<lambda>e.
     case fetchTrained (en_appliedGeneration e) st of
       None \<Rightarrow> ret ()
     | Some (bs, gen) \<Rightarrow> try_catch
        (bnd (loadedCompressor P bs) (\<lambda>k.
         case pl_setCompressor P k (en_serializer e) of
           (Some x, s) \<Rightarrow> seq (setEntry type (e\<lparr>en_serializer := s\<rparr>)) (throw x)
         | (None, s) \<Rightarrow>
             setEntry type (e\<lparr>en_serializer := configureSerializer P s, en_appliedGeneration := gen\<rparr>)))
        (\<lambda>_. ret ())))"

definition serializerEntryForType :: "('s, 'd, 'm, 'k, 'i, 'b, 't) proto \<Rightarrow> string
    \<Rightarrow> (('s, 'd, 'm, 'b, 'z) process_scheme, unit) act" where
  "serializerEntryForType P type =
     bnd (gets (\<lambda>w. serializers w type)) (\<lambda>cached.
     seq (case cached of
         Some e \<Rightarrow> ret ()
       | None \<Rightarrow> bnd (newSerializer P) (\<lambda>s.
           setEntry type \<lparr>en_serializer = configureSerializer P s, en_appliedGeneration = 0\<rparr>))
     (applyTrainedCompressor P type))"

definition deserializerForType :: "('s, 'd, 'm, 'k, 'i, 'b, 't) proto \<Rightarrow> string
    \<Rightarrow> (('s, 'd, 'm, 'b, 'z) process_scheme, unit) act" where
  "deserializerForType P type =
     bnd (gets (\<lambda>w. deserializers w type)) (\<lambda>cached. case cached of
       Some d \<Rightarrow> ret ()
     | None \<Rightarrow> bnd fault (\<lambda>f. if f then throw BadAlloc else
         modify (\<lambda>w. w\<lparr>deserializers := (deserializers w)(type \<mapsto> pl_newDeserializer P)\<rparr>)))"

section \<open>Training\<close>

text \<open>Samples that do not parse are skipped; the message is parsed into again and again.\<close>

fun sampleInputs :: "('s, 'd, 'm, 'k, 'i, 'b, 't) proto \<Rightarrow> bytes list \<Rightarrow> 'm \<Rightarrow> 's \<Rightarrow> cpp_exn + 'i list list" where
  "sampleInputs P [] m s = Inr []"
| "sampleInputs P (x # xs) m s = (case pl_parse P x m of
      (False, m) \<Rightarrow> sampleInputs P xs m s
    | (True, m) \<Rightarrow> (case pl_trainingInputs P m s of
        (Inl e, _) \<Rightarrow> Inl e
      | (Inr inputs, s) \<Rightarrow> (case sampleInputs P xs m s of Inl e \<Rightarrow> Inl e | Inr rest \<Rightarrow> Inr (inputs # rest))))"

definition trainCompressorFromSamples :: "('s, 'd, 'm, 'k, 'i, 'b, 't) proto \<Rightarrow> string \<Rightarrow> bytes list \<Rightarrow> nat
    \<Rightarrow> (('s, 'd, 'm, 'b, 'z) process_scheme, bytes) act" where
  "trainCompressorFromSamples P type xs least =
     (if length xs < least then ret [] else
      bnd (newSerializer P) (\<lambda>s. let s = configureSerializer P s in
      bnd (newMessage P type) (\<lambda>prototype.
      bnd (lift_exn (sampleInputs P xs prototype s)) (\<lambda>multiInputs.
      if multiInputs = [] then ret [] else
      bnd (needed (\<lambda>_. pl_getCompressor P s)) (\<lambda>k.
      bnd (lift_exn (pl_train P \<lparr>tp_threads = None, tp_numSamples = Some (length multiInputs),
             tp_maxTimeSecs = None, tp_pareto = False\<rparr> None multiInputs k)) (\<lambda>trained.
      ret (if trained = [] then [] else hd trained)))))))"

datatype protocol = Proto | Zl | Json

text \<open>\<open>payload\<close> reads the memory behind \<open>payloadPtr\<close>, which is not null in any call.\<close>

definition maybeAugmentTraining :: "('s, 'd, 'm, 'k, 'i, 'b, 't) proto \<Rightarrow> string \<Rightarrow> protocol
    \<Rightarrow> (('s, 'd, 'm, 'b, 'z) process_scheme, bytes) act \<Rightarrow> nat
    \<Rightarrow> (('s, 'd, 'm, 'b, 'z) process_scheme, unit) act" where
  "maybeAugmentTraining P type inputProtocol payload len =
     (if inputProtocol \<noteq> Proto then ret () else
      if ignoresPayload len then ret () else
      bnd payload (\<lambda>sample.
      bnd (trainingState type) (\<lambda>st.
      bnd (needed (\<lambda>w. serializers w type)) (\<lambda>e.
      let (offered, st) = offerSample sample (en_appliedGeneration e) st in
      seq (setTraining type st)
     (if of_applyExisting offered then applyTrainedCompressor P type else
      if of_samples offered = [] then ret () else
      bnd (try_catch (trainCompressorFromSamples P type (of_samples offered) (of_minSamples offered))
             (\<lambda>_. ret [])) (\<lambda>trained.
      bnd (trainingState type) (\<lambda>st.
      let (publish, st) = publishTrained trained st in
      seq (setTraining type st)
     (if publish then applyTrainedCompressor P type else ret ()))))))))"

end
