(* ===== verification/Structured_Clusters.thy ===== *)
theory Structured_Clusters
  imports Structured_Roundtrip Proto_Library
begin

text \<open>
  \<open>JNI/OpenZLProtobuf.cpp\<close>: the compressor of a structured message type, which clusters the
  streams of its fields by their tags (\<open>createStructuredCompressorForType\<close>).  OpenZL's clustering
  graph and the descriptors of protobuf are parameters.
\<close>

section \<open>Successors and clusters\<close>

definition kStructuredSerialCodecIdx :: nat where "kStructuredSerialCodecIdx = 0"
definition kStructuredStructCodecIdx :: nat where "kStructuredStructCodecIdx = 1"
definition kStructuredNumericCodecIdx :: nat where "kStructuredNumericCodecIdx = 2"
definition kStructuredStringCodecIdx :: nat where "kStructuredStringCodecIdx = 3"

record type_successor =
  ts_type :: zl_type
  ts_eltWidth :: nat
  ts_successorIdx :: nat
  ts_clusteringCodecIdx :: nat

definition makeStructuredTypeSuccessor :: "zl_type \<Rightarrow> nat \<Rightarrow> nat \<Rightarrow> type_successor" where
  "makeStructuredTypeSuccessor ty eltWidth codecIdx =
     \<lparr>ts_type = ty, ts_eltWidth = eltWidth, ts_successorIdx = 0, ts_clusteringCodecIdx = codecIdx\<rparr>"

fun makeStructuredFieldSuccessor :: "cpp_type \<Rightarrow> cpp_exn + type_successor" where
  "makeStructuredFieldSuccessor CPPTYPE_INT32 = Inr (makeStructuredTypeSuccessor ZL_numeric 4 kStructuredNumericCodecIdx)"
| "makeStructuredFieldSuccessor CPPTYPE_UINT32 = Inr (makeStructuredTypeSuccessor ZL_numeric 4 kStructuredNumericCodecIdx)"
| "makeStructuredFieldSuccessor CPPTYPE_FLOAT = Inr (makeStructuredTypeSuccessor ZL_numeric 4 kStructuredNumericCodecIdx)"
| "makeStructuredFieldSuccessor CPPTYPE_ENUM = Inr (makeStructuredTypeSuccessor ZL_numeric 4 kStructuredNumericCodecIdx)"
| "makeStructuredFieldSuccessor CPPTYPE_INT64 = Inr (makeStructuredTypeSuccessor ZL_numeric 8 kStructuredNumericCodecIdx)"
| "makeStructuredFieldSuccessor CPPTYPE_UINT64 = Inr (makeStructuredTypeSuccessor ZL_numeric 8 kStructuredNumericCodecIdx)"
| "makeStructuredFieldSuccessor CPPTYPE_DOUBLE = Inr (makeStructuredTypeSuccessor ZL_numeric 8 kStructuredNumericCodecIdx)"
| "makeStructuredFieldSuccessor CPPTYPE_BOOL = Inr (makeStructuredTypeSuccessor ZL_numeric 1 kStructuredNumericCodecIdx)"
| "makeStructuredFieldSuccessor CPPTYPE_STRING = Inr (makeStructuredTypeSuccessor ZL_string 0 kStructuredStringCodecIdx)"
| "makeStructuredFieldSuccessor CPPTYPE_MESSAGE
     = Inl (RuntimeError ''Unsupported structured protobuf field type for clustering'')"

type_synonym tagged = "jint \<times> type_successor"

text \<open>
  The loop over the fields of a descriptor and its recursion into nested messages; \<open>fieldsOf\<close>
  lists the fields of a descriptor, \<open>acc\<close> is the vector \<open>taggedClusters\<close>.  \<open>None\<close> is a recursion
  that does not end, which in C++ overflows the stack.
\<close>

partial_function (option) collectStructuredFieldClusters :: "('t \<Rightarrow> 't fdesc list) \<Rightarrow> 't fdesc list \<Rightarrow> u32
    \<Rightarrow> tagged list \<Rightarrow> (cpp_exn + tagged list) option" where
  "collectStructuredFieldClusters fieldsOf descs h acc = (case descs of
      [] \<Rightarrow> Some (Inr acc)
    | field # rest \<Rightarrow>
        if fd_cpp_type field = CPPTYPE_MESSAGE then
          Option.bind (collectStructuredFieldClusters fieldsOf (fieldsOf (fd_message_type field))
              (structuredExtendPathHash h (fd_number field)) acc)
            (\<lambda>r. case r of Inl e \<Rightarrow> Some (Inl e)
               | Inr acc \<Rightarrow> collectStructuredFieldClusters fieldsOf rest h acc)
        else (case makeStructuredFieldSuccessor (fd_cpp_type field) of
            Inl e \<Rightarrow> Some (Inl e)
          | Inr successor \<Rightarrow> collectStructuredFieldClusters fieldsOf rest h
              (acc @ [(structuredFieldTag h (fd_number field), successor)])))"

section \<open>The compressor of a type\<close>

text \<open>\<open>ZL_ClusteringConfig\<close>; every cluster has one member tag and there are no defaults per type.\<close>

record cluster =
  ct_typeSuccessor :: type_successor
  ct_memberTags :: "jint list"

text \<open>
  The rest of OpenZL that the structured interface uses.  \<open>'k\<close> is a compressor, \<open>'c\<close> a compression
  context, \<open>'t\<close> a message descriptor; a stream to compress is what the decompressor hands out
  again, its type, width, elements, lengths and tag.  \<open>cg_refuses\<close> is the exception of the
  constructor of an \<open>Input\<close>, if it throws.
\<close>

datatype cparam = StickyParameters | CompressionLevel | FormatVersion

record ('k, 'c, 't) clustering =
  cg_fields :: "'t \<Rightarrow> 't fdesc list"
  cg_buildACEGraph :: "'k \<Rightarrow> nat \<times> 'k"
  cg_registerGraph :: "cluster list \<Rightarrow> nat list \<Rightarrow> 'k \<Rightarrow> nat \<times> 'k"
  cg_newCCtx :: 'c
  cg_setParameter :: "cparam \<Rightarrow> nat \<Rightarrow> 'c \<Rightarrow> cpp_exn option \<times> 'c"
  cg_maxFormatVersion :: nat
  cg_refCompressor :: "'k \<Rightarrow> 'c \<Rightarrow> cpp_exn option \<times> 'c"
  cg_refuses :: "zl_type \<Rightarrow> nat \<Rightarrow> nat \<Rightarrow> cpp_exn option"
  cg_compress :: "st_output list \<Rightarrow> 'c \<Rightarrow> (cpp_exn + bytes) \<times> 'c"
  cg_train :: "train_params \<Rightarrow> (bytes \<Rightarrow> cpp_exn + 'k) \<Rightarrow> st_output list list \<Rightarrow> 'k \<Rightarrow> cpp_exn + bytes list"

definition controlClusters :: "tagged list" where
  "controlClusters = (let controlSuccessor = makeStructuredTypeSuccessor ZL_numeric 4 kStructuredNumericCodecIdx in
     [(kStructuredFieldIdTag, controlSuccessor), (kStructuredFieldTypeTag, controlSuccessor),
      (kStructuredFieldLengthTag, controlSuccessor)])"

definition clustersOf :: "tagged list \<Rightarrow> cluster list" where
  "clustersOf = map (\<lambda>(tag, successor). \<lparr>ct_typeSuccessor = successor, ct_memberTags = [tag]\<rparr>)"

text \<open>From the descriptor on: \<open>None\<close> is the recursion that does not end.\<close>

definition structuredCompressor :: "('s, 'd, 'm, 'k, 'i, 'b, 't) proto \<Rightarrow> ('k, 'c, 't) clustering \<Rightarrow> 't
    \<Rightarrow> (cpp_exn + 'k) option" where
  "structuredCompressor P G descriptor =
     (case cg_buildACEGraph G (pl_newCompressor P) of (ace, k) \<Rightarrow>
      case collectStructuredFieldClusters (cg_fields G) (cg_fields G descriptor) kStructuredRootPathHash controlClusters of
        None \<Rightarrow> None
      | Some (Inl e) \<Rightarrow> Some (Inl e)
      | Some (Inr taggedClusters) \<Rightarrow> Some
         (case cg_registerGraph G (clustersOf taggedClusters) [ace] k of (graphId, k) \<Rightarrow>
          case pl_selectStartingGraph P graphId k of
            (Some e, _) \<Rightarrow> Inl e
          | (None, k) \<Rightarrow> (case pl_setParameter P PCompressionLevel 1 k of
              (Some e, _) \<Rightarrow> Inl e
            | (None, k) \<Rightarrow> (case pl_setParameter P PMinStreamSize 0 k of
                (Some e, _) \<Rightarrow> Inl e
              | (None, k) \<Rightarrow> Inr k))))"

definition structuredDescriptor :: "('s, 'd, 'm, 'k, 'i, 'b, 't) proto \<Rightarrow> string
    \<Rightarrow> (('s, 'd, 'm, 'b, 'z) process_scheme, 't) act" where
  "structuredDescriptor P type = bnd (findDescriptor P type) (\<lambda>d. case d of
      None \<Rightarrow> throw (RuntimeError (''Unknown protobuf message type: '' @ type))
    | Some t \<Rightarrow> ret t)"

definition createStructuredCompressorForType :: "('s, 'd, 'm, 'k, 'i, 'b, 't) proto \<Rightarrow> ('k, 'c, 't) clustering
    \<Rightarrow> string \<Rightarrow> (('s, 'd, 'm, 'b, 'z) process_scheme, 'k) act" where
  "createStructuredCompressorForType P G type =
     bnd (structuredDescriptor P type) (\<lambda>descriptor.
     bnd fault (\<lambda>f. if f then throw BadAlloc else
     case structuredCompressor P G descriptor of None \<Rightarrow> undef | Some r \<Rightarrow> lift_exn r))"

section \<open>The recursion over nested messages\<close>

lemma collect_Nil: "collectStructuredFieldClusters F [] h acc = Some (Inr acc)"
  by (subst collectStructuredFieldClusters.simps) simp

lemma collect_Cons: "collectStructuredFieldClusters F (field # rest) h acc =
     (if fd_cpp_type field = CPPTYPE_MESSAGE then
        Option.bind (collectStructuredFieldClusters F (F (fd_message_type field))
            (structuredExtendPathHash h (fd_number field)) acc)
          (\<lambda>r. case r of Inl e \<Rightarrow> Some (Inl e) | Inr acc \<Rightarrow> collectStructuredFieldClusters F rest h acc)
      else (case makeStructuredFieldSuccessor (fd_cpp_type field) of
          Inl e \<Rightarrow> Some (Inl e)
        | Inr successor \<Rightarrow> collectStructuredFieldClusters F rest h
            (acc @ [(structuredFieldTag h (fd_number field), successor)])))"
  by (subst collectStructuredFieldClusters.simps) simp

lemmas collect_simps = collect_Nil collect_Cons

lemma successor_of_scalar: "ty \<noteq> CPPTYPE_MESSAGE \<Longrightarrow> \<exists>s. makeStructuredFieldSuccessor ty = Inr s"
  by (cases ty) simp_all

text \<open>The message types of the fields of a type.\<close>

definition nesting :: "('t \<Rightarrow> 't fdesc list) \<Rightarrow> ('t \<times> 't) set" where
  "nesting F = {(u, t). \<exists>d \<in> set (F t). fd_cpp_type d = CPPTYPE_MESSAGE \<and> fd_message_type d = u}"

lemma collect_nested:
  "collectStructuredFieldClusters F descs h acc = Some r \<Longrightarrow> (\<exists>out. r = Inr out)
     \<and> (\<forall>d \<in> set descs. fd_cpp_type d = CPPTYPE_MESSAGE \<longrightarrow> fd_message_type d \<in> Wellfounded.acc (nesting F))"
proof (induct rule: collectStructuredFieldClusters.raw_induct [rotated, consumes 1, case_names step])
  case (step collect fieldsOf descs h acc r)
  note IH = step(1) and body = step(2)
  show ?case
  proof (cases descs)
    case (Cons field rest)
    show ?thesis
    proof (cases "fd_cpp_type field = CPPTYPE_MESSAGE")
      case True
      then obtain r' where nested: "collect fieldsOf (fieldsOf (fd_message_type field))
            (structuredExtendPathHash h (fd_number field)) acc = Some r'"
          and r': "(case r' of Inl e \<Rightarrow> Some (Inl e) | Inr acc \<Rightarrow> collect fieldsOf rest h acc) = Some r"
        using body Cons by (auto simp: bind_eq_Some_conv)
      obtain acc' where "r' = Inr acc'" using IH [OF nested] by blast
      then have rest: "collect fieldsOf rest h acc' = Some r" using r' by simp
      have "fd_message_type field \<in> Wellfounded.acc (nesting fieldsOf)"
        by (rule accI) (use IH [OF nested] in \<open>auto simp: nesting_def\<close>)
      then show ?thesis using IH [OF rest] Cons by simp
    next
      case False
      then obtain s where "makeStructuredFieldSuccessor (fd_cpp_type field) = Inr s" using successor_of_scalar by blast
      then show ?thesis using body IH Cons False by auto
    qed
  qed (use body in auto)
qed

lemma collect_total:
  "(\<And>d h acc. d \<in> set descs \<Longrightarrow> fd_cpp_type d = CPPTYPE_MESSAGE \<Longrightarrow>
      \<exists>r. collectStructuredFieldClusters F (F (fd_message_type d)) h acc = Some r) \<Longrightarrow>
    \<exists>r. collectStructuredFieldClusters F descs h acc = Some r"
proof (induction descs arbitrary: acc)
  case (Cons d descs)
  have rest: "\<exists>r. collectStructuredFieldClusters F descs h acc = Some r" for acc
    using Cons by auto
  show ?case
  proof (cases "fd_cpp_type d = CPPTYPE_MESSAGE")
    case True
    then obtain r where "collectStructuredFieldClusters F (F (fd_message_type d))
        (structuredExtendPathHash h (fd_number d)) acc = Some r" using Cons.prems [of d] by auto
    then show ?thesis using rest True by (cases r) (auto simp: collect_Cons)
  next
    case False
    then show ?thesis using rest successor_of_scalar [OF False] by (auto simp: collect_Cons)
  qed
qed (simp add: collect_Nil)

lemma collect_of_acc:
  "t \<in> Wellfounded.acc (nesting F) \<Longrightarrow> \<exists>r. collectStructuredFieldClusters F (F t) h acc = Some r"
proof (induct arbitrary: h acc rule: Wellfounded.acc.induct)
  case (accI t)
  have "\<exists>r. collectStructuredFieldClusters F (F (fd_message_type d)) h acc = Some r"
    if "d \<in> set (F t)" "fd_cpp_type d = CPPTYPE_MESSAGE" for d h acc
    using accI(2) [of "fd_message_type d" h acc] that unfolding nesting_def by blast
  then show ?case by (rule collect_total)
qed

text \<open>C37. The collection of the clusters of a message type returns exactly when no infinite chain of
  message types, each the type of a field of the one before, starts at it: for a type that
  contains a recursive type, itself or another, the recursion has no end.\<close>

theorem collect_returns:
  "(\<exists>r. collectStructuredFieldClusters F (F t) h acc = Some r) \<longleftrightarrow> t \<in> Wellfounded.acc (nesting F)"
proof
  assume "\<exists>r. collectStructuredFieldClusters F (F t) h acc = Some r"
  then show "t \<in> Wellfounded.acc (nesting F)"
    using collect_nested [of F "F t" h acc] by (elim exE) (rule accI, auto simp: nesting_def)
qed (rule collect_of_acc)

section \<open>Every stream has its cluster\<close>

text \<open>The clusters of the scalar fields of a type, its nested messages included.\<close>

inductive leaf :: "('t \<Rightarrow> 't fdesc list) \<Rightarrow> 't \<Rightarrow> u32 \<Rightarrow> tagged \<Rightarrow> bool" for F where
  scalar: "d \<in> set (F t) \<Longrightarrow> makeStructuredFieldSuccessor (fd_cpp_type d) = Inr s
    \<Longrightarrow> leaf F t h (structuredFieldTag h (fd_number d), s)"
| nested: "d \<in> set (F t) \<Longrightarrow> fd_cpp_type d = CPPTYPE_MESSAGE
    \<Longrightarrow> leaf F (fd_message_type d) (structuredExtendPathHash h (fd_number d)) x \<Longrightarrow> leaf F t h x"

definition leaves :: "('t \<Rightarrow> 't fdesc list) \<Rightarrow> 't fdesc list \<Rightarrow> u32 \<Rightarrow> tagged set" where
  "leaves F ds h = {x. \<exists>d \<in> set ds.
     (\<exists>s. makeStructuredFieldSuccessor (fd_cpp_type d) = Inr s \<and> x = (structuredFieldTag h (fd_number d), s))
   \<or> (fd_cpp_type d = CPPTYPE_MESSAGE \<and> leaf F (fd_message_type d) (structuredExtendPathHash h (fd_number d)) x)}"

lemma message_successor: "makeStructuredFieldSuccessor ty = Inl e \<Longrightarrow> ty = CPPTYPE_MESSAGE"
  by (cases ty) simp_all

lemma leaves_of_type: "leaves F (F t) h = {x. leaf F t h x}"
  unfolding leaves_def by (intro Collect_cong) (subst leaf.simps, blast)

lemma collect_exact:
  "collectStructuredFieldClusters F ds h acc = Some (Inr out) \<Longrightarrow> set out = set acc \<union> leaves F ds h"
proof -
  assume "collectStructuredFieldClusters F ds h acc = Some (Inr out)"
  then have "\<forall>out'. Inr out = (Inr out' :: cpp_exn + tagged list) \<longrightarrow> set out' = set acc \<union> leaves F ds h"
  proof (induct rule: collectStructuredFieldClusters.raw_induct [rotated, consumes 1, case_names step])
    case (step collect F ds h acc r)
    note IH = step(1) and body = step(2)
    show ?case
    proof (intro allI impI)
      fix out'
      assume r: "r = Inr out'"
      show "set out' = set acc \<union> leaves F ds h"
      proof (cases ds)
        case (Cons d rest)
        have leaves: "leaves F ds h = leaves F [d] h \<union> leaves F rest h"
          unfolding leaves_def Cons by (auto simp del: split_paired_Ex)
        show ?thesis
        proof (cases "makeStructuredFieldSuccessor (fd_cpp_type d)")
          case (Inl e)
          note message = message_successor [OF Inl]
          then obtain r' where r': "collect F (F (fd_message_type d)) (structuredExtendPathHash h (fd_number d)) acc = Some r'"
              "(case r' of Inl e \<Rightarrow> Some (Inl e) | Inr acc \<Rightarrow> collect F rest h acc) = Some r"
            using body Cons by (auto simp: bind_eq_Some_conv)
          then obtain acc' where "r' = Inr acc'" using r by (cases r') auto
          then have nested: "collect F (F (fd_message_type d)) (structuredExtendPathHash h (fd_number d)) acc
                = Some (Inr acc')" and rest: "collect F rest h acc' = Some r"
            using r' by simp_all
          have "leaves F [d] h = leaves F (F (fd_message_type d)) (structuredExtendPathHash h (fd_number d))"
            by (simp add: leaves_of_type) (simp add: leaves_def Inl message)
          then show ?thesis using IH [OF nested] IH [OF rest] r leaves by auto
        next
          case (Inr s)
          then have scalar: "fd_cpp_type d \<noteq> CPPTYPE_MESSAGE" by auto
          then have "collect F rest h (acc @ [(structuredFieldTag h (fd_number d), s)]) = Some r"
            using body Cons Inr by simp
          moreover have "leaves F [d] h = {(structuredFieldTag h (fd_number d), s)}" by (simp add: leaves_def Inr scalar)
          ultimately show ?thesis using IH r leaves by auto
        qed
      qed (use body r in \<open>simp add: leaves_def\<close>)
    qed
  qed
  then show ?thesis by simp
qed

abbreviation fieldsKnown :: "('m, 't) reflect \<Rightarrow> ('t \<Rightarrow> 't fdesc list) \<Rightarrow> bool" where
  "fieldsKnown X F \<equiv> \<forall>t d. known X t d \<longrightarrow> d \<in> set (F t)"

definition stringSuccessor :: type_successor where
  "stringSuccessor = makeStructuredTypeSuccessor ZL_string 0 kStructuredStringCodecIdx"

lemma tags_leaf:
  assumes F: "fieldsKnown X F"
  shows "wf_content X t c \<Longrightarrow> tag \<in> tags h c \<Longrightarrow> \<exists>s. leaf F t h (tag, s)"
    and "wf_content X t c \<Longrightarrow> tag \<in> stringTags h c \<Longrightarrow> leaf F t h (tag, stringSuccessor)"
proof (induction c arbitrary: t h)
  case (Leaf d v)
  { case 1
    then have "fd_cpp_type d \<noteq> CPPTYPE_MESSAGE" by (auto simp: wf_value_def split: fval.splits)
    then show ?case using 1 F successor_of_scalar by (fastforce intro: leaf.scalar)
  next
    case 2
    then have "makeStructuredFieldSuccessor (fd_cpp_type d) = Inr stringSuccessor"
      by (simp add: stringSuccessor_def split: if_splits)
    then show ?case using 2 F by (fastforce intro: leaf.scalar split: if_splits) }
next
  case (Leaves d vs)
  { case 1
    then show ?case using F successor_of_scalar by (fastforce intro: leaf.scalar)
  next
    case 2
    then have "makeStructuredFieldSuccessor (fd_cpp_type d) = Inr stringSuccessor"
      by (simp add: stringSuccessor_def split: if_splits)
    then show ?case using 2 F by (fastforce intro: leaf.scalar split: if_splits) }
next
  case (Node d cs)
  { case 1
    then show ?case using Node F by (fastforce simp: list_all_iff intro: leaf.nested)
  next
    case 2
    then show ?case using Node F by (fastforce simp: list_all_iff intro: leaf.nested) }
next
  case (Nodes d css)
  { case 1
    then show ?case using Nodes F by (fastforce simp: list_all_iff intro: leaf.nested)
  next
    case 2
    then show ?case using Nodes F by (fastforce simp: list_all_iff intro: leaf.nested) }
qed

text \<open>C38. Every value stream that well-typed contents of a message can produce has a cluster of its own
  tag in the configuration of the type's compressor, and the streams of strings have a cluster for
  strings: the collection of the clusters and the decoder compute the same tags.\<close>

theorem clusters_cover:
  assumes "fieldsKnown X F" and "wf_content X t c"
    and "collectStructuredFieldClusters F (F t) h controlClusters = Some (Inr out)"
  shows "tags h c \<subseteq> fst ` set out \<and> stringTags h c \<subseteq> {tag. (tag, stringSuccessor) \<in> set out}
    \<and> set controlClusters \<subseteq> set out"
  using collect_exact [OF assms(3)] tags_leaf [OF assms(1,2)] unfolding leaves_of_type by force

text \<open>A number and a list of strings.\<close>

definition flat_fields :: "unit fdesc list" where
  "flat_fields = [\<lparr>fd_number = 1, fd_cpp_type = CPPTYPE_UINT32, fd_repeated = False, fd_message_type = ()\<rparr>,
     \<lparr>fd_number = 2, fd_cpp_type = CPPTYPE_STRING, fd_repeated = True, fd_message_type = ()\<rparr>]"

definition flat_reflect :: "(sample_msg, unit) reflect" where
  "flat_reflect = sample_reflect\<lparr>rf_find := (\<lambda>_ n. find (\<lambda>d. fd_number d = n) flat_fields)\<rparr>"

definition flat_clusters :: "tagged list" where
  "flat_clusters = controlClusters @ [(structuredFieldTag 5 1, makeStructuredTypeSuccessor ZL_numeric 4 2),
     (structuredFieldTag 5 2, makeStructuredTypeSuccessor ZL_string 0 3)]"

lemma clusters_cover_witness:
  "tags 5 (Leaf (hd flat_fields) (FScalar (bytes32 7))) \<subseteq> fst ` set flat_clusters
    \<and> stringTags 5 (Leaf (hd flat_fields) (FScalar (bytes32 7))) \<subseteq> {tag. (tag, stringSuccessor) \<in> set flat_clusters}
    \<and> set controlClusters \<subseteq> set flat_clusters"
proof (rule clusters_cover [where F = "\<lambda>_. flat_fields" and X = flat_reflect and t = "()"])
  show "fieldsKnown flat_reflect (\<lambda>_. flat_fields)"
    by (auto simp: known_def flat_reflect_def find_Some_iff)
  show "wf_content flat_reflect () (Leaf (hd flat_fields) (FScalar (bytes32 7)))"
    by (simp add: known_def flat_reflect_def flat_fields_def sample_reflect_def wf_value_def)
  show "collectStructuredFieldClusters (\<lambda>_. flat_fields) flat_fields 5 controlClusters = Some (Inr flat_clusters)"
    by (simp add: collect_simps flat_fields_def flat_clusters_def kStructuredNumericCodecIdx_def kStructuredStringCodecIdx_def)
qed

end
