(* ===== verification/Structured_Sample.thy ===== *)
theory Structured_Sample
  imports Structured_Tags
begin

text \<open>
  \<open>JNI/OpenZLProtobuf.cpp\<close>: the parser of serialized samples of structured messages
  (\<open>parseStructuredSample\<close>).  The state of the parser is the list of bytes from \<open>cursor\<close> to
  \<open>end\<close>.  Failed allocations, which the callers turn into an exception like any other, are not
  among its outcomes.
\<close>

section \<open>Data\<close>

record sample_field =
  sf_tag :: jint
  sf_kind :: jint
  sf_values32 :: "u32 list"
  sf_values64 :: "u64 list"
  sf_bytes :: bytes
  sf_lengths :: "u32 list"

record sample_storage =
  ss_fieldIds :: "u32 list"
  ss_fieldTypes :: "u32 list"
  ss_fieldLengths :: "u32 list"
  ss_valueStreams :: "sample_field list"

section \<open>The parser\<close>

definition readStructuredSampleUInt32 :: "(bytes, u32) act" where
  "readStructuredSampleUInt32 cursor = (case cursor of
      a # b # c # d # rest \<Rightarrow> (Ret (le32 a b c d), rest)
    | _ \<Rightarrow> (Throw (RuntimeError ''Structured protobuf sample is truncated''), cursor))"

definition readStructuredSampleUInt64 :: "(bytes, u64) act" where
  "readStructuredSampleUInt64 =
     bnd readStructuredSampleUInt32 (\<lambda>lo. bnd readStructuredSampleUInt32 (\<lambda>hi. ret (le64 lo hi)))"

definition requireStructuredSampleBytes :: "nat \<Rightarrow> (bytes, unit) act" where
  "requireStructuredSampleBytes n cursor =
     (if n > length cursor
      then (Throw (RuntimeError ''Structured protobuf sample is truncated''), cursor)
      else (Ret (), cursor))"

text \<open>A loop that appends \<open>n\<close> results to a vector.\<close>

fun readMany :: "nat \<Rightarrow> ('s, 'a) act \<Rightarrow> ('s, 'a list) act" where
  "readMany 0 m = ret []"
| "readMany (Suc n) m = bnd m (\<lambda>x. bnd (readMany n m) (\<lambda>xs. ret (x # xs)))"

definition readStructuredSampleUInt32Vector :: "nat \<Rightarrow> (bytes, u32 list) act" where
  "readStructuredSampleUInt32Vector byteSize =
     (if byteSize mod 4 \<noteq> 0
      then throw (RuntimeError ''Structured protobuf control stream is misaligned'')
      else seq (requireStructuredSampleBytes byteSize)
        (readMany (byteSize div 4) readStructuredSampleUInt32))"

text \<open>\<open>bytes.assign(cursor, n); cursor += n\<close>, which checks nothing.\<close>

definition assignBytes :: "nat \<Rightarrow> (bytes, bytes) act" where
  "assignBytes n cursor =
     (if n > length cursor then (Undef, cursor) else (Ret (take n cursor), drop n cursor))"

definition kinds32 :: "jint list" where "kinds32 = [1, 3, 6, 8]"
definition kinds64 :: "jint list" where "kinds64 = [2, 4, 5]"

text \<open>The switch on the kind.\<close>

definition sampleFieldSwitch :: "jint \<Rightarrow> jint \<Rightarrow> u32 \<Rightarrow> u32 \<Rightarrow> (bytes, sample_field) act" where
  "sampleFieldSwitch tag kind dataSize lengthsSize =
     (let field = \<lparr>sf_tag = tag, sf_kind = kind, sf_values32 = [], sf_values64 = [],
                sf_bytes = [], sf_lengths = []\<rparr> in
       if kind \<in> set kinds32 then
         bnd (readStructuredSampleUInt32Vector (unat dataSize)) (\<lambda>vs. ret (field\<lparr>sf_values32 := vs\<rparr>))
       else if kind \<in> set kinds64 then
         if unat dataSize mod 8 \<noteq> 0
         then throw (RuntimeError ''Structured protobuf 64-bit stream is misaligned'')
         else bnd (readMany (unat dataSize div 8) readStructuredSampleUInt64) (\<lambda>vs.
           ret (field\<lparr>sf_values64 := vs\<rparr>))
       else if kind = 7 then
         bnd (assignBytes (unat dataSize)) (\<lambda>bs. ret (field\<lparr>sf_bytes := bs\<rparr>))
       else if kind = 9 then
         bnd (assignBytes (unat dataSize)) (\<lambda>bs.
         bnd (readStructuredSampleUInt32Vector (unat lengthsSize)) (\<lambda>ls.
         ret (field\<lparr>sf_bytes := bs, sf_lengths := ls\<rparr>)))
       else throw (RuntimeError ''Unsupported structured protobuf logical field kind''))"

text \<open>The bounds check adds two \<open>uint32_t\<close>, so it wraps around.\<close>

definition parseSampleField :: "(bytes, sample_field) act" where
  "parseSampleField =
     bnd readStructuredSampleUInt32 (\<lambda>tag.
     bnd readStructuredSampleUInt32 (\<lambda>kind.
     bnd readStructuredSampleUInt32 (\<lambda>dataSize.
     bnd readStructuredSampleUInt32 (\<lambda>lengthsSize.
     seq (requireStructuredSampleBytes (unat (dataSize + lengthsSize)))
    (bnd (sampleFieldSwitch tag kind dataSize lengthsSize) (\<lambda>field.
     if kind \<noteq> 9 \<and> lengthsSize \<noteq> 0
     then throw (RuntimeError ''Structured protobuf non-string field has lengths payload'')
     else ret field))))))"

definition atSampleEnd :: "(bytes, unit) act" where
  "atSampleEnd cursor = (if cursor \<noteq> []
     then (Throw (RuntimeError ''Structured protobuf sample contains trailing bytes''), cursor)
     else (Ret (), cursor))"

definition parseStructuredSample :: "(bytes, sample_storage) act" where
  "parseStructuredSample =
     bnd readStructuredSampleUInt32 (\<lambda>fieldIdsSize.
     bnd readStructuredSampleUInt32 (\<lambda>fieldTypesSize.
     bnd readStructuredSampleUInt32 (\<lambda>fieldLengthsSize.
     bnd readStructuredSampleUInt32 (\<lambda>fieldCount.
     bnd (readStructuredSampleUInt32Vector (unat fieldIdsSize)) (\<lambda>ids.
     bnd (readStructuredSampleUInt32Vector (unat fieldTypesSize)) (\<lambda>types.
     bnd (readStructuredSampleUInt32Vector (unat fieldLengthsSize)) (\<lambda>lens.
     bnd (readMany (unat fieldCount) parseSampleField) (\<lambda>fields.
     seq atSampleEnd (ret \<lparr>ss_fieldIds = ids, ss_fieldTypes = types, ss_fieldLengths = lens,
       ss_valueStreams = fields\<rparr>)))))))))"

section \<open>The format\<close>

text \<open>What a serialized sample looks like: a header of sizes, three control streams, the fields.\<close>

definition u32_size :: "'a list \<Rightarrow> nat \<Rightarrow> u32" where
  "u32_size xs width = word_of_nat (width * length xs)"

definition fieldData :: "sample_field \<Rightarrow> bytes" where
  "fieldData f = (if sf_kind f \<in> set kinds32 then concat (map bytes32 (sf_values32 f))
     else if sf_kind f \<in> set kinds64 then concat (map bytes64 (sf_values64 f)) else sf_bytes f)"

definition encodeField :: "sample_field \<Rightarrow> bytes" where
  "encodeField f =
     bytes32 (sf_tag f) @ bytes32 (sf_kind f) @ bytes32 (word_of_nat (length (fieldData f)))
     @ bytes32 (u32_size (sf_lengths f) 4) @ fieldData f @ concat (map bytes32 (sf_lengths f))"

definition encodeSample :: "sample_storage \<Rightarrow> bytes" where
  "encodeSample s =
     bytes32 (u32_size (ss_fieldIds s) 4) @ bytes32 (u32_size (ss_fieldTypes s) 4)
     @ bytes32 (u32_size (ss_fieldLengths s) 4) @ bytes32 (u32_size (ss_valueStreams s) 1)
     @ concat (map bytes32 (ss_fieldIds s)) @ concat (map bytes32 (ss_fieldTypes s))
     @ concat (map bytes32 (ss_fieldLengths s)) @ concat (map encodeField (ss_valueStreams s))"

definition wf_field :: "sample_field \<Rightarrow> bool" where
  "wf_field f \<longleftrightarrow>
     (sf_kind f \<in> set kinds32 \<and> sf_values64 f = [] \<and> sf_bytes f = [] \<and> sf_lengths f = []
        \<and> 4 * length (sf_values32 f) < 2 ^ 32)
   \<or> (sf_kind f \<in> set kinds64 \<and> sf_values32 f = [] \<and> sf_bytes f = [] \<and> sf_lengths f = []
        \<and> 8 * length (sf_values64 f) < 2 ^ 32)
   \<or> (sf_kind f = 7 \<and> sf_values32 f = [] \<and> sf_values64 f = [] \<and> sf_lengths f = []
        \<and> length (sf_bytes f) < 2 ^ 32)
   \<or> (sf_kind f = 9 \<and> sf_values32 f = [] \<and> sf_values64 f = []
        \<and> length (sf_bytes f) < 2 ^ 32 \<and> 4 * length (sf_lengths f) < 2 ^ 32)"

definition wf_sample :: "sample_storage \<Rightarrow> bool" where
  "wf_sample s \<longleftrightarrow> 4 * length (ss_fieldIds s) < 2 ^ 32 \<and> 4 * length (ss_fieldTypes s) < 2 ^ 32
     \<and> 4 * length (ss_fieldLengths s) < 2 ^ 32 \<and> length (ss_valueStreams s) < 2 ^ 32
     \<and> list_all wf_field (ss_valueStreams s)"

section \<open>Readers that invert an encoder\<close>

text \<open>
  A reader is exact for an encoder when it succeeds with \<open>x\<close> precisely on the inputs that begin
  with the encoding of an admissible \<open>x\<close>, and leaves the rest.
\<close>

locale exact_reader =
  fixes m :: "(bytes, 'a) act" and ok :: "'a \<Rightarrow> bool" and enc :: "'a \<Rightarrow> bytes"
  assumes exact: "m bs = (Ret x, r) \<longleftrightarrow> ok x \<and> bs = enc x @ r"
begin

lemma many: "readMany n m bs = (Ret xs, r) \<longleftrightarrow> length xs = n \<and> list_all ok xs \<and> bs = concat (map enc xs) @ r"
proof (induction n arbitrary: bs xs)
  case 0
  then show ?case by (auto simp: ret_def)
next
  case (Suc n)
  have "readMany (Suc n) m bs = (Ret xs, r) \<longleftrightarrow>
      (\<exists>y b ys. m bs = (Ret y, b) \<and> readMany n m b = (Ret ys, r) \<and> xs = y # ys)"
    by (auto simp: bnd_def ret_def split: prod.splits outcome.splits)
  also have "\<dots> \<longleftrightarrow> length xs = Suc n \<and> list_all ok xs \<and> bs = concat (map enc xs) @ r"
    by (auto simp: exact Suc.IH length_Suc_conv)
  finally show ?case .
qed

end

lemma bnd_Ret: "bnd m f s = (Ret b, r) \<longleftrightarrow> (\<exists>a s'. m s = (Ret a, s') \<and> f a s' = (Ret b, r))"
  by (auto simp: bnd_def split: prod.splits outcome.splits)

lemma seq_Ret: "seq m k s = (Ret b, r) \<longleftrightarrow> (\<exists>a s'. m s = (Ret a, s') \<and> k s' = (Ret b, r))"
  by (simp add: seq_def bnd_Ret)

lemma ret_Ret: "ret a s = (Ret b, r) \<longleftrightarrow> b = a \<and> r = s"
  by (auto simp: ret_def)

lemma throw_Ret: "\<not> throw e s = (Ret b, r)"
  by (simp add: throw_def)

lemmas act_Ret = bnd_Ret seq_Ret ret_Ret throw_Ret

interpretation u32_reader: exact_reader readStructuredSampleUInt32 "\<lambda>_. True" bytes32
proof
  fix bs x r
  have "readStructuredSampleUInt32 bs = (Ret x, r) \<longleftrightarrow> (\<exists>a b c d. bs = a # b # c # d # r \<and> x = le32 a b c d)"
    by (auto simp: readStructuredSampleUInt32_def split: list.splits)
  also have "\<dots> \<longleftrightarrow> bs = bytes32 x @ r"
  proof
    assume "bs = bytes32 x @ r"
    then show "\<exists>a b c d. bs = a # b # c # d # r \<and> x = le32 a b c d"
      by (intro exI conjI) (simp add: bytes32_def, rule le32_bytes32 [symmetric])
  qed auto
  finally show "readStructuredSampleUInt32 bs = (Ret x, r) \<longleftrightarrow> True \<and> bs = bytes32 x @ r" by simp
qed

interpretation u64_reader: exact_reader readStructuredSampleUInt64 "\<lambda>_. True" bytes64
proof
  fix bs x r
  have "bytes64 (le64 lo hi) = bytes32 lo @ bytes32 hi" for lo hi
  proof -
    have "\<not> bit (v :: u32) (k + n)" if "32 \<le> k" for v k n
      using that by (auto dest: bit_imp_le_length)
    then show ?thesis
      by (auto simp: bytes64_def le64_def bytes32_def intro!: bit_word_eqI simp: bit_simps)
  qed
  moreover obtain lo hi where x: "x = le64 lo hi" by (metis le64_bytes64)
  moreover have "le64 l h = le64 lo hi \<Longrightarrow> l = lo \<and> h = hi" for l h
    by (drule arg_cong [where f = bytes64]) (simp add: calculation(1) bytes32_def, metis le32_bytes32)
  ultimately show "readStructuredSampleUInt64 bs = (Ret x, r) \<longleftrightarrow> True \<and> bs = bytes64 x @ r"
    unfolding readStructuredSampleUInt64_def act_Ret u32_reader.exact
    by (metis append.assoc)
qed

lemma vector_exact:
  "readStructuredSampleUInt32Vector n bs = (Ret xs, r) \<longleftrightarrow> n = 4 * length xs \<and> bs = concat (map bytes32 xs) @ r"
  by (auto simp: readStructuredSampleUInt32Vector_def requireStructuredSampleBytes_def act_Ret
      u32_reader.many list.pred_True throw_Ret)

lemma assign_exact: "assignBytes n bs = (Ret xs, r) \<longleftrightarrow> n = length xs \<and> bs = xs @ r"
  by (auto simp: assignBytes_def)

lemma require_exact: "requireStructuredSampleBytes n bs = (Ret u, r) \<longleftrightarrow> n \<le> length bs \<and> r = bs"
  by (auto simp: requireStructuredSampleBytes_def)

text \<open>A size below \<open>2\<^sup>3\<^sup>2\<close> and its 32-bit word determine each other.\<close>

lemma unat_size: "unat (d :: u32) = n \<longleftrightarrow> n < 2 ^ 32 \<and> d = word_of_nat n"
proof -
  have "unat d < 2 ^ LENGTH(32)" by (rule unsigned_less)
  then show ?thesis by (auto simp: unat_of_nat take_bit_nat_eq_self)
qed

lemma unat_bound [simp]: "unat (d :: u32) < 4294967296"
  using unat_size [of d "unat d"] by simp

lemma unat_add_le: "unat (a + b :: u32) \<le> unat a + unat b"
  by (simp add: unat_word_ariths)

lemma bytes32_inj [simp]: "bytes32 a @ r = bytes32 b @ r' \<longleftrightarrow> a = b \<and> r = r'"
  by (metis list.inject words32_append_bytes32 same_append_eq)

lemma kinds_disjoint:
  "k \<in> set kinds32 \<Longrightarrow> k \<notin> set kinds64 \<and> k \<noteq> 7 \<and> k \<noteq> 9"
  "k \<in> set kinds64 \<Longrightarrow> k \<notin> set kinds32 \<and> k \<noteq> 7 \<and> k \<noteq> 9"
  "(7 :: jint) \<notin> set kinds32 \<union> set kinds64" "(9 :: jint) \<notin> set kinds32 \<union> set kinds64"
  by (auto simp: kinds32_def kinds64_def)

lemmas field_defs = act_Ret u32_reader.exact require_exact vector_exact
  u64_reader.many assign_exact list.pred_True Let_def

lemma switch_sound:
  assumes "sampleFieldSwitch tag kind d l bs = (Ret x, r)" and "kind \<noteq> 9 \<Longrightarrow> l = 0"
  shows "wf_field x \<and> sf_tag x = tag \<and> sf_kind x = kind \<and> d = word_of_nat (length (fieldData x))
    \<and> l = u32_size (sf_lengths x) 4 \<and> bs = fieldData x @ concat (map bytes32 (sf_lengths x)) @ r"
proof -
  consider "kind \<in> set kinds32" | "kind \<in> set kinds64" | "kind = 7" | "kind = 9"
    using assms(1) by (auto simp: sampleFieldSwitch_def throw_Ret Let_def split: if_splits)
  then show ?thesis
  proof cases
    case 1
    with assms kinds_disjoint(1) [of kind] show ?thesis
      by (clarsimp simp: sampleFieldSwitch_def field_defs)
        (simp add: wf_field_def fieldData_def u32_size_def unat_size)
  next
    case 2
    with assms kinds_disjoint(2) [of kind] show ?thesis
      by (clarsimp simp: sampleFieldSwitch_def field_defs split: if_splits)
        (auto simp: wf_field_def fieldData_def u32_size_def unat_size)
  next
    case 3
    with assms kinds_disjoint(3) show ?thesis
      by (clarsimp simp: sampleFieldSwitch_def field_defs)
        (simp add: wf_field_def fieldData_def u32_size_def unat_size)
  next
    case 4
    with assms(1) kinds_disjoint(4) show ?thesis
      by (clarsimp simp: sampleFieldSwitch_def field_defs)
        (simp add: wf_field_def fieldData_def u32_size_def unat_size)
  qed
qed

lemma parseField_sound:
  assumes "parseSampleField bs = (Ret x, r)"
  shows "wf_field x \<and> bs = encodeField x @ r"
proof -
  obtain tag kind d l rest where
    bs: "bs = bytes32 tag @ bytes32 kind @ bytes32 d @ bytes32 l @ rest" and
    l: "kind \<noteq> 9 \<Longrightarrow> l = 0" and
    run: "sampleFieldSwitch tag kind d l rest = (Ret x, r)"
    using assms unfolding parseSampleField_def act_Ret u32_reader.exact require_exact
    by (auto simp: act_Ret split: if_splits)
  from switch_sound [OF run l] show ?thesis by (simp add: bs encodeField_def)
qed

text \<open>The readers on encoded input, as rewrite rules.\<close>

lemma run_readers:
  "readStructuredSampleUInt32 (bytes32 w @ r) = (Ret w, r)"
  "n = 4 * length xs \<Longrightarrow> readStructuredSampleUInt32Vector n (concat (map bytes32 xs) @ r) = (Ret xs, r)"
  "n = length ys \<Longrightarrow> readMany n readStructuredSampleUInt64 (concat (map bytes64 ys) @ r) = (Ret ys, r)"
  "n = length bs \<Longrightarrow> assignBytes n (bs @ r) = (Ret bs, r)"
  "n \<le> length bs \<Longrightarrow> requireStructuredSampleBytes n bs = (Ret (), bs)"
  by (simp_all add: u32_reader.exact vector_exact u64_reader.many assign_exact require_exact list.pred_True)

lemmas run_acts = run_readers bnd_def seq_def ret_def

lemma parseField_complete:
  assumes "wf_field x"
  shows "parseSampleField (encodeField x @ r) = (Ret x, r)"
proof -
  have size: "unat (word_of_nat n :: u32) = n" if "n < 2 ^ 32" for n
    using that by (simp add: unat_size)
  have le: "unat (word_of_nat m + word_of_nat n :: u32) \<le> m + (n + k)" if "m < 2 ^ 32" "n < 2 ^ 32" for m n k
    using unat_add_le [of "word_of_nat m" "word_of_nat n"] that by (simp add: size)
  show ?thesis
    using assms unfolding wf_field_def
  proof (elim disjE conjE)
    assume "sf_kind x \<in> set kinds32" "sf_values64 x = []" "sf_bytes x = []" "sf_lengths x = []"
      "4 * length (sf_values32 x) < 2 ^ 32"
    then show ?thesis using kinds_disjoint(1) [of "sf_kind x"]
      by (simp add: parseSampleField_def sampleFieldSwitch_def encodeField_def fieldData_def u32_size_def size run_acts Let_def del: of_nat_mult)
  next
    assume "sf_kind x \<in> set kinds64" "sf_values32 x = []" "sf_bytes x = []" "sf_lengths x = []"
      "8 * length (sf_values64 x) < 2 ^ 32"
    then show ?thesis using kinds_disjoint(2) [of "sf_kind x"]
      by (simp add: parseSampleField_def sampleFieldSwitch_def encodeField_def fieldData_def u32_size_def size run_acts Let_def del: of_nat_mult)
  next
    assume "sf_kind x = 7" "sf_values32 x = []" "sf_values64 x = []" "sf_lengths x = []"
      "length (sf_bytes x) < 2 ^ 32"
    then show ?thesis using kinds_disjoint(3)
      by (simp add: parseSampleField_def sampleFieldSwitch_def encodeField_def fieldData_def u32_size_def size run_acts Let_def del: of_nat_mult)
  next
    assume "sf_kind x = 9" "sf_values32 x = []" "sf_values64 x = []"
      "length (sf_bytes x) < 2 ^ 32" "4 * length (sf_lengths x) < 2 ^ 32"
    then show ?thesis using kinds_disjoint(4) le
      by (simp add: parseSampleField_def sampleFieldSwitch_def encodeField_def fieldData_def u32_size_def size run_acts Let_def del: of_nat_mult)
  qed
qed

interpretation field_reader: exact_reader parseSampleField wf_field encodeField
  by unfold_locales (use parseField_sound parseField_complete in blast)

text \<open>C24. \<open>parseStructuredSample\<close> accepts exactly the serialized samples, and returns the sample
  that was serialized: it neither rejects a well-formed one nor accepts any other bytes.\<close>

theorem parseSample_exact:
  "parseStructuredSample bs = (Ret s, r) \<longleftrightarrow> wf_sample s \<and> bs = encodeSample s \<and> r = []"
proof
  assume "parseStructuredSample bs = (Ret s, r)"
  then show "wf_sample s \<and> bs = encodeSample s \<and> r = []"
    unfolding parseStructuredSample_def atSampleEnd_def
    by (auto simp: act_Ret u32_reader.exact vector_exact field_reader.many unat_size wf_sample_def
        encodeSample_def u32_size_def split: if_splits)
next
  assume "wf_sample s \<and> bs = encodeSample s \<and> r = []"
  then have s: "wf_sample s" and [simp]: "bs = encodeSample s" "r = []" by simp_all
  have size: "unat (word_of_nat n :: u32) = n" if "n < 2 ^ 32" for n
    using that by (simp add: unat_size)
  have fields: "readMany (length fs) parseSampleField (concat (map encodeField fs)) = (Ret fs, [])"
    if "list_all wf_field fs" for fs
    using that by (simp add: field_reader.many)
  show "parseStructuredSample bs = (Ret s, r)"
    using s unfolding wf_sample_def
    by (simp add: parseStructuredSample_def atSampleEnd_def encodeSample_def u32_size_def size run_acts
        fields del: of_nat_mult)
qed

section \<open>Reads past the end\<close>

lemma readMany_defined: "(\<And>s. fst (m s) \<noteq> Undef) \<Longrightarrow> fst (readMany n m s) \<noteq> Undef"
proof (induction n arbitrary: s)
  case (Suc n)
  then show ?case by (auto simp: bnd_def ret_def split: prod.splits outcome.splits) (metis fst_conv)+
qed (simp add: ret_def)

lemma u32_defined: "fst (readStructuredSampleUInt32 s) \<noteq> Undef"
  by (simp add: readStructuredSampleUInt32_def split: list.splits)

lemma u64_defined: "fst (readStructuredSampleUInt64 s) \<noteq> Undef"
  using u32_defined
  by (auto simp: readStructuredSampleUInt64_def bnd_def ret_def split: prod.splits outcome.splits) (metis fst_conv)+

lemma vector_defined: "fst (readStructuredSampleUInt32Vector n s) \<noteq> Undef"
  using readMany_defined [OF u32_defined]
  by (simp add: readStructuredSampleUInt32Vector_def requireStructuredSampleBytes_def seq_def bnd_def throw_def)

lemma fst_bnd_Undef: "fst (bnd m f s) = Undef \<longleftrightarrow> fst (m s) = Undef \<or> (\<exists>a s'. m s = (Ret a, s') \<and> fst (f a s') = Undef)"
  by (auto simp: bnd_def split: prod.splits outcome.splits)

lemma switch_Undef:
  "fst (sampleFieldSwitch tag kind d l bs) = Undef \<longleftrightarrow> (kind = 7 \<or> kind = 9) \<and> length bs < unat d"
  using kinds_disjoint(1) [of kind] kinds_disjoint(2) [of kind]
  by (simp add: sampleFieldSwitch_def Let_def fst_bnd_Undef vector_defined readMany_defined [OF u64_defined]
      ret_def throw_def) (auto simp: assignBytes_def)

text \<open>C25. Parsing a field is undefined exactly when a byte or string stream claims more bytes than the
  sample has left while the 32-bit sum of its two sizes, which is all that is checked, wraps
  around to a value that fits; a sample of 32 bytes can do that.\<close>

theorem parseField_overread:
  "(fst (parseSampleField (bytes32 tag @ bytes32 kind @ bytes32 d @ bytes32 l @ rest)) = Undef
     \<longleftrightarrow> (kind = 7 \<or> kind = 9) \<and> length rest < unat d \<and> unat (d + l) \<le> length rest)
   \<and> fst (parseStructuredSample (concat (map bytes32 [0, 0, 0, 1, 5, 7, 0xFFFFFFFF, 1]))) = Undef"
proof
  have split: "fst ((if c then throw e else ret y) s) \<noteq> Undef" for c e y s
    by (simp add: throw_def ret_def)
  show eq: "fst (parseSampleField (bytes32 tag @ bytes32 kind @ bytes32 d @ bytes32 l @ rest)) = Undef
     \<longleftrightarrow> (kind = 7 \<or> kind = 9) \<and> length rest < unat d \<and> unat (d + l) \<le> length rest" for tag kind d l rest
    unfolding parseSampleField_def seq_def fst_bnd_Undef u32_reader.exact
    by (simp add: u32_defined split switch_Undef) (auto simp: requireStructuredSampleBytes_def)
  have field: "fst (parseSampleField (bytes32 5 @ bytes32 7 @ bytes32 0xFFFFFFFF @ bytes32 1)) = Undef"
    using eq [of 5 7 "0xFFFFFFFF" 1 "[]"] by simp
  then obtain s' where "parseSampleField (bytes32 5 @ bytes32 7 @ bytes32 0xFFFFFFFF @ bytes32 1) = (Undef, s')"
    by (metis prod.collapse)
  then show "fst (parseStructuredSample (concat (map bytes32 [0, 0, 0, 1, 5, 7, 0xFFFFFFFF, 1]))) = Undef"
    by (simp add: parseStructuredSample_def run_acts readStructuredSampleUInt32Vector_def)
qed

end
