(* ===== verification/Proto_Convert.thy ===== *)
theory Proto_Convert
  imports Proto_Library
begin

text \<open>
  \<open>JNI/OpenZLProtobuf.cpp\<close>: conversion between the encodings of a protobuf message and the
  native methods around it.
\<close>

section \<open>Arguments and results\<close>

definition parseProtocol :: "jint \<Rightarrow> ('z jvm_scheme, protocol) act" where
  "parseProtocol i =
     (if i = 0 then ret Proto else if i = 1 then ret Zl else if i = 2 then ret Json
      else seq (throwIllegalArgument ''Unsupported protocol specified'') (ret Proto))"

definition copyArray :: "nat \<Rightarrow> ('z jvm_scheme, bytes) act" where
  "copyArray array =
     bnd (getArrayLength array) (\<lambda>length.
     bnd fault (\<lambda>f. if f then throw BadAlloc else
     if length = 0 then ret [] else
     bnd (getCritical array) (\<lambda>raw. case raw of
       None \<Rightarrow> seq (throwCached OutOfMemoryError ''Failed to access array contents'') (ret [])
     | Some p \<Rightarrow>
     bnd (readPin p 0 (jsize length)) (\<lambda>data.
     seq (releaseCritical array p JNI_ABORT) (ret data)))))"

text \<open>The casts of the size to \<open>jsize\<close> drop its high bits.\<close>

definition makeByteArray :: "bytes \<Rightarrow> ('z jvm_scheme, nat) act" where
  "makeByteArray data =
     (let size = word_of_nat (length data) in
      bnd (newByteArray size) (\<lambda>out.
      if out = 0 then seq (throwCached OutOfMemoryError ''Unable to allocate result array'') (ret 0) else
      seq (if data \<noteq> [] then setArrayRegion out (JByteArr (take (jsize size) data)) else ret ()) (ret out)))"

definition encodeRequiredLength :: "nat \<Rightarrow> jint" where
  "encodeRequiredLength required =
     (if required > 2147483646 then 0x80000000 else - word_of_nat required - 1)"

definition writeDirectBuffer :: "nat \<Rightarrow> jint \<Rightarrow> jint \<Rightarrow> bytes \<Rightarrow> ('z jvm_scheme, jint) act" where
  "writeDirectBuffer output pos len data =
     bnd (ensureDirectRange output pos len ''output'') (\<lambda>ok. if \<not> ok then ret 0 else
     if length data > 2147483647
     then seq (throwIllegalState ''Converted payload exceeds Java buffer limit'') (ret 0)
     else if length data > jsize len then ret (encodeRequiredLength (length data)) else
     bnd (getDirectBufferAddress output) (\<lambda>a. case a of
       None \<Rightarrow> seq (throwIllegalArgument ''output must be a direct ByteBuffer'') (ret 0)
     | Some a \<Rightarrow>
     seq (if data \<noteq> [] then writeDirect a (jsize pos) data else ret ())
       (ret (word_of_nat (length data)))))"

text \<open>
  A \<open>std::string\<close> made of a C string ends at its first null character.  Like that of the messages
  of exceptions and of the keys and nodes of the caches, its allocation does not fail in the model.
\<close>

definition requireMessageType :: "nat \<Rightarrow> ('z jvm_scheme, string) act" where
  "requireMessageType typeName =
     (if typeName = 0 then seq (throwCached NullPointerException ''messageType'') (ret []) else
      bnd (getStringUTFChars typeName) (\<lambda>chars. case chars of
        None \<Rightarrow> seq (throwCached OutOfMemoryError ''Failed to read messageType'') (ret [])
      | Some s \<Rightarrow>
      let out = takeWhile (\<lambda>c. c \<noteq> CHR 0x00) s in
      if out = [] then seq (throwIllegalArgument ''messageType must not be empty'') (ret [])
      else ret out))"

section \<open>Parsing and serialising\<close>

datatype parsed = Parsed | Refused string | Failed cpp_exn

definition parseMessage :: "('s, 'd, 'm, 'k, 'i, 'b, 't) proto \<Rightarrow> protocol \<Rightarrow> bytes \<Rightarrow> 'm \<Rightarrow> 'd
    \<Rightarrow> parsed \<times> 'm \<times> 'd" where
  "parseMessage P protocol payload m d = (case protocol of
      Proto \<Rightarrow> (case pl_parse P payload m of
          (True, m) \<Rightarrow> (Parsed, m, d) | (False, m) \<Rightarrow> (Refused ''Failed to parse protobuf payload'', m, d))
    | Zl \<Rightarrow> (case pl_deserialize P payload m d of
          (None, m, d) \<Rightarrow> (Parsed, m, d) | (Some e, m, d) \<Rightarrow> (Failed e, m, d))
    | Json \<Rightarrow> (case pl_fromJson P payload m of
          (None, m) \<Rightarrow> (Parsed, m, d)
        | (Some msg, m) \<Rightarrow> (Refused (''Failed to parse JSON payload: '' @ msg), m, d)))"

definition reportParsed :: "parsed \<Rightarrow> ('z jvm_scheme, unit) act" where
  "reportParsed r = (case r of
      Parsed \<Rightarrow> ret () | Refused msg \<Rightarrow> throwIllegalArgument msg | Failed e \<Rightarrow> throw e)"

text \<open>Into the cached message of the type, with the cached deserializer of the type.\<close>

definition parseIntoMessage :: "('s, 'd, 'm, 'k, 'i, 'b, 't) proto \<Rightarrow> protocol \<Rightarrow> bytes \<Rightarrow> string
    \<Rightarrow> (('s, 'd, 'm, 'b, 'z) process_scheme, unit) act" where
  "parseIntoMessage P protocol payload type =
     bnd (needed (\<lambda>w. messages w type)) (\<lambda>m.
     bnd (needed (\<lambda>w. deserializers w type)) (\<lambda>d.
     case parseMessage P protocol payload m d of (r, m, d) \<Rightarrow>
     seq (modify (\<lambda>w. w\<lparr>messages := (messages w)(type \<mapsto> m), deserializers := (deserializers w)(type \<mapsto> d)\<rparr>))
       (reportParsed r)))"

text \<open>Where a serializer lives: in the cache of its type, or in the cache of explicit compressors.\<close>

datatype ser_loc = OfType string | OfKey bytes

definition theSerializer :: "ser_loc \<Rightarrow> ('s, 'd, 'm, 'b, 'z) process_scheme \<Rightarrow> 's option" where
  "theSerializer loc w = (case loc of
      OfType type \<Rightarrow> map_option en_serializer (serializers w type) | OfKey key \<Rightarrow> explicitSerializers w key)"

definition putSerializer :: "ser_loc \<Rightarrow> 's \<Rightarrow> ('s, 'd, 'm, 'b, 'z) process_scheme
    \<Rightarrow> ('s, 'd, 'm, 'b, 'z) process_scheme" where
  "putSerializer loc s w = (case loc of
      OfType type \<Rightarrow> w\<lparr>serializers := (serializers w)(type := map_option (\<lambda>e. e\<lparr>en_serializer := s\<rparr>) (serializers w type))\<rparr>
    | OfKey key \<Rightarrow> w\<lparr>explicitSerializers := (explicitSerializers w)(key \<mapsto> s)\<rparr>)"

definition serialiseMessage :: "('s, 'd, 'm, 'k, 'i, 'b, 't) proto \<Rightarrow> protocol \<Rightarrow> string \<Rightarrow> ser_loc
    \<Rightarrow> (('s, 'd, 'm, 'b, 'z) process_scheme, bytes) act" where
  "serialiseMessage P protocol type loc =
     bnd (needed (\<lambda>w. messages w type)) (\<lambda>m. case protocol of
       Proto \<Rightarrow> (case pl_toBytes P m of
           Some out \<Rightarrow> ret out
         | None \<Rightarrow> seq (throwIllegalState ''Failed to serialise protobuf message'') (ret []))
     | Zl \<Rightarrow> bnd (needed (theSerializer loc)) (\<lambda>s. case pl_serialize P m s of
           (r, s) \<Rightarrow> seq (modify (putSerializer loc s)) (lift_exn r))
     | Json \<Rightarrow> (case pl_toJson P m of
           Inr json \<Rightarrow> ret json
         | Inl msg \<Rightarrow> seq (throwIllegalState (''Failed to serialise message to JSON: '' @ msg)) (ret [])))"

section \<open>Explicit compressors\<close>

definition explicitKey :: "string \<Rightarrow> bytes \<Rightarrow> bytes" where
  "explicitKey type bs = map of_char type @ 0 # bs"

definition explicitSerializer :: "('s, 'd, 'm, 'k, 'i, 'b, 't) proto \<Rightarrow> bytes \<Rightarrow> ('z jvm_scheme, 's) act" where
  "explicitSerializer P bs =
     bnd (newSerializer P) (\<lambda>s.
     bnd (loadedCompressor P bs) (\<lambda>k.
     bnd (setCompressor P k s) (\<lambda>s. ret (configureSerializer P s))))"

text \<open>\<open>None\<close> is \<open>nullptr\<close>.\<close>

definition serializerForExplicitCompressor :: "('s, 'd, 'm, 'k, 'i, 'b, 't) proto \<Rightarrow> string \<Rightarrow> nat
    \<Rightarrow> (('s, 'd, 'm, 'b, 'z) process_scheme, ser_loc option) act" where
  "serializerForExplicitCompressor P type compressorBytes =
     (if compressorBytes = 0 then ret None else
      bnd (copyArray compressorBytes) (\<lambda>bs.
      bnd exceptionCheck (\<lambda>exn. if exn then ret None else
      let key = explicitKey type bs in
      bnd (gets (\<lambda>w. explicitSerializers w key)) (\<lambda>cached.
      seq (case cached of
          Some s \<Rightarrow> ret ()
        | None \<Rightarrow> bnd (explicitSerializer P bs) (\<lambda>s.
            modify (\<lambda>w. w\<lparr>explicitSerializers := (explicitSerializers w)(key \<mapsto> s)\<rparr>)))
        (ret (Some (OfKey key)))))))"

definition chooseSerializer :: "('s, 'd, 'm, 'k, 'i, 'b, 't) proto \<Rightarrow> string \<Rightarrow> nat
    \<Rightarrow> (('s, 'd, 'm, 'b, 'z) process_scheme, ser_loc option) act" where
  "chooseSerializer P type compressorBytes =
     (if compressorBytes \<noteq> 0 then
        bnd (serializerForExplicitCompressor P type compressorBytes) (\<lambda>loc.
        bnd exceptionCheck (\<lambda>exn. ret (if exn then None else loc)))
      else seq (serializerEntryForType P type) (ret (Some (OfType type))))"

section \<open>Conversion\<close>

text \<open>\<open>ParseFromArray\<close> of the cached message; an empty payload is not parsed.\<close>

definition parsePayload :: "('s, 'd, 'm, 'k, 'i, 'b, 't) proto \<Rightarrow> string
    \<Rightarrow> (('s, 'd, 'm, 'b, 'z) process_scheme, bytes) act \<Rightarrow> nat
    \<Rightarrow> (('s, 'd, 'm, 'b, 'z) process_scheme, bool) act" where
  "parsePayload P type payload len =
     (if len = 0 then ret True else
      bnd payload (\<lambda>bs.
      bnd (needed (\<lambda>w. messages w type)) (\<lambda>m. case pl_parse P bs m of (ok, m) \<Rightarrow>
      seq (setMessage type m)
     (if ok then ret True
      else seq (throwIllegalArgument ''Failed to parse protobuf payload'') (ret False)))))"

text \<open>
  From the parsed message on; a caller-supplied compressor takes no part in the training.
  \<open>None\<close> means that an exception is pending.
\<close>

definition convertMessage :: "('s, 'd, 'm, 'k, 'i, 'b, 't) proto \<Rightarrow> protocol \<Rightarrow> protocol
    \<Rightarrow> (('s, 'd, 'm, 'b, 'z) process_scheme, bytes) act \<Rightarrow> nat \<Rightarrow> nat \<Rightarrow> string \<Rightarrow> ser_loc
    \<Rightarrow> (('s, 'd, 'm, 'b, 'z) process_scheme, bytes option) act" where
  "convertMessage P inProto outProto payload len compressorBytes type loc =
     seq (if compressorBytes = 0 then maybeAugmentTraining P type inProto payload len else ret ())
    (bnd (serialiseMessage P outProto type loc) (\<lambda>result.
     bnd exceptionCheck (\<lambda>exn. ret (if exn then None else Some result))))"

definition convertPayload :: "('s, 'd, 'm, 'k, 'i, 'b, 't) proto \<Rightarrow> protocol \<Rightarrow> protocol
    \<Rightarrow> (('s, 'd, 'm, 'b, 'z) process_scheme, bytes) act \<Rightarrow> nat \<Rightarrow> nat \<Rightarrow> string
    \<Rightarrow> (('s, 'd, 'm, 'b, 'z) process_scheme, nat) act" where
  "convertPayload P inProto outProto payload len compressorBytes type = try_catch
     (bnd (chooseSerializer P type compressorBytes) (\<lambda>loc. case loc of
        None \<Rightarrow> ret 0
      | Some loc \<Rightarrow>
      seq (deserializerForType P type)
     (bnd (reusableMessage P type) (\<lambda>_.
      bnd (if inProto = Proto then parsePayload P type payload len
           else bnd payload (\<lambda>bs. seq (parseIntoMessage P inProto bs type)
             (bnd exceptionCheck (\<lambda>exn. ret (\<not> exn))))) (\<lambda>ok. if \<not> ok then ret 0 else
      bnd (convertMessage P inProto outProto payload len compressorBytes type loc) (\<lambda>result. case result of
        None \<Rightarrow> ret 0
      | Some data \<Rightarrow> makeByteArray data))))))
     (\<lambda>e. seq (throwIllegalState (what e)) (ret 0))"

section \<open>Native methods\<close>

text \<open>An action whose caller leaves with \<open>r\<close> if an exception is pending afterwards.\<close>

definition checked :: "('z jvm_scheme, 'a) act \<Rightarrow> 'r \<Rightarrow> ('a \<Rightarrow> ('z jvm_scheme, 'r) act) \<Rightarrow> ('z jvm_scheme, 'r) act" where
  "checked m r k = bnd m (\<lambda>a. bnd exceptionCheck (\<lambda>exn. if exn then ret r else k a))"

text \<open>
  The payload stays pinned during the whole conversion; the guard releases it also when an
  exception leaves \<open>convertPayload\<close>.
\<close>

definition convertNative :: "('s, 'd, 'm, 'k, 'i, 'b, 't) proto \<Rightarrow> nat \<Rightarrow> jint \<Rightarrow> jint \<Rightarrow> nat \<Rightarrow> nat
    \<Rightarrow> (('s, 'd, 'm, 'b, 'z) process_scheme, nat) act" where
  "convertNative P payload inputProtocol outputProtocol compressorBytes messageType =
     (if payload = 0 then seq (throwCached NullPointerException ''payload'') (ret 0) else
      checked (parseProtocol inputProtocol) 0 (\<lambda>inProto.
      checked (parseProtocol outputProtocol) 0 (\<lambda>outProto.
      checked (requireMessageType messageType) 0 (\<lambda>type.
      bnd (getArrayLength payload) (\<lambda>len.
      bnd (getCritical payload) (\<lambda>raw. case raw of
        None \<Rightarrow> seq (throwCached OutOfMemoryError ''Failed to access payload contents'') (ret 0)
      | Some p \<Rightarrow>
      bnd (convertPayload P inProto outProto (readPin p 0 (jsize len)) (jsize len) compressorBytes type) (\<lambda>result.
      seq (releaseCritical payload p JNI_ABORT) (ret result))))))))"

definition configureTrainingNative :: "nat \<Rightarrow> jint \<Rightarrow> (('s, 'd, 'm, 'b, 'z) process_scheme, unit) act" where
  "configureTrainingNative messageType least =
     (if sint least \<le> 0 then ret () else
      checked (requireMessageType messageType) () (\<lambda>type.
      bnd (trainingState type) (\<lambda>st. setTraining type (setMinSamples (jsize least) st))))"

text \<open>The part the two direct conversions share; the measured durations are not used in the first.\<close>

definition measure_ns :: "(('s, 'd, 'm, 'b, 'z) process_scheme, u64) act" where
  "measure_ns w = (Ret (if durations w = [] then 0 else hd (durations w)), w\<lparr>durations := tl (durations w)\<rparr>)"

definition convertDirectNative :: "('s, 'd, 'm, 'k, 'i, 'b, 't) proto \<Rightarrow> nat \<Rightarrow> jint \<Rightarrow> jint \<Rightarrow> jint \<Rightarrow> nat \<Rightarrow> nat
    \<Rightarrow> (('s, 'd, 'm, 'b, 'z) process_scheme, nat) act" where
  "convertDirectNative P payload len inputProtocol outputProtocol compressorBytes messageType =
     (if payload = 0 then seq (throwCached NullPointerException ''payload'') (ret 0) else
      if jneg len then seq (throwIllegalArgument ''length must be non-negative'') (ret 0) else
      bnd (getDirectBufferAddress payload) (\<lambda>a. case a of
        None \<Rightarrow> seq (throwIllegalArgument ''payload must be a direct ByteBuffer'') (ret 0)
      | Some a \<Rightarrow>
      checked (parseProtocol inputProtocol) 0 (\<lambda>inProto.
      checked (parseProtocol outputProtocol) 0 (\<lambda>outProto.
      if inProto \<noteq> Proto
      then seq (throwIllegalArgument ''Direct conversion currently supports PROTO input only'') (ret 0) else
      checked (requireMessageType messageType) 0 (\<lambda>type. try_catch
       (bnd (chooseSerializer P type compressorBytes) (\<lambda>loc. case loc of
          None \<Rightarrow> ret 0
        | Some loc \<Rightarrow>
        bnd (reusableMessage P type) (\<lambda>m. seq (setMessage type (pl_clear P m))
       (bnd (parsePayload P type (readDirect a 0 (jsize len)) (jsize len)) (\<lambda>ok. if \<not> ok then ret 0 else
        bnd (convertMessage P inProto outProto (readDirect a 0 (jsize len)) (jsize len) compressorBytes type loc)
          (\<lambda>result. case result of None \<Rightarrow> ret 0 | Some data \<Rightarrow> makeByteArray data))))))
       (\<lambda>e. seq (throwIllegalState (what e)) (ret 0)))))))"

definition recordDirectIntoPerf :: "u64 \<Rightarrow> u64 \<Rightarrow> u64 \<Rightarrow> (('s, 'd, 'm, 'b, 'z) process_scheme, unit) act" where
  "recordDirectIntoPerf parseNs serializeNs writeNs = modify (\<lambda>w. let c = directIntoPerf w in
     if \<not> pf_enabled c then w
     else w\<lparr>directIntoPerf := c\<lparr>pf_ns := map2 (+) (pf_ns c) [parseNs, serializeNs, writeNs],
       pf_calls := pf_calls c + 1\<rparr>\<rparr>)"

definition convertDirectIntoNative :: "('s, 'd, 'm, 'k, 'i, 'b, 't) proto \<Rightarrow> nat \<Rightarrow> jint \<Rightarrow> jint \<Rightarrow> jint \<Rightarrow> nat \<Rightarrow> nat
    \<Rightarrow> nat \<Rightarrow> jint \<Rightarrow> jint \<Rightarrow> (('s, 'd, 'm, 'b, 'z) process_scheme, jint) act" where
  "convertDirectIntoNative P payload len inputProtocol outputProtocol compressorBytes messageType output outPos outLen =
     (if payload = 0 then seq (throwCached NullPointerException ''payload'') (ret 0) else
      if output = 0 then seq (throwCached NullPointerException ''output'') (ret 0) else
      if jneg len then seq (throwIllegalArgument ''length must be non-negative'') (ret 0) else
      if jneg outPos \<or> jneg outLen
      then seq (throwIllegalArgument ''output position/length must be non-negative'') (ret 0) else
      bnd (getDirectBufferAddress payload) (\<lambda>a. case a of
        None \<Rightarrow> seq (throwIllegalArgument ''payload must be a direct ByteBuffer'') (ret 0)
      | Some a \<Rightarrow>
      checked (parseProtocol inputProtocol) 0 (\<lambda>inProto.
      checked (parseProtocol outputProtocol) 0 (\<lambda>outProto.
      if inProto \<noteq> Proto
      then seq (throwIllegalArgument ''Direct conversion currently supports PROTO input only'') (ret 0) else
      checked (requireMessageType messageType) 0 (\<lambda>type. try_catch
       (bnd (chooseSerializer P type compressorBytes) (\<lambda>loc. case loc of
          None \<Rightarrow> ret 0
        | Some loc \<Rightarrow>
        bnd (reusableMessage P type) (\<lambda>m. seq (setMessage type (pl_clear P m))
       (bnd (parsePayload P type (readDirect a 0 (jsize len)) (jsize len)) (\<lambda>ok. if \<not> ok then ret 0 else
        bnd measure_ns (\<lambda>parseNs.
        bnd (convertMessage P inProto outProto (readDirect a 0 (jsize len)) (jsize len) compressorBytes type loc)
          (\<lambda>result. case result of None \<Rightarrow> ret 0 | Some data \<Rightarrow>
        bnd measure_ns (\<lambda>serializeNs.
        bnd (writeDirectBuffer output outPos outLen data) (\<lambda>written.
        bnd exceptionCheck (\<lambda>exn.
        seq (if \<not> exn \<and> sint written > 0
             then bnd measure_ns (recordDirectIntoPerf parseNs serializeNs) else ret ())
          (ret written)))))))))))
       (\<lambda>e. seq (throwIllegalState (what e)) (ret 0)))))))"

text \<open>The sum of offset and length is an \<open>int\<close>, which wraps on the supported hosts.\<close>

definition convertSliceNative :: "('s, 'd, 'm, 'k, 'i, 'b, 't) proto \<Rightarrow> nat \<Rightarrow> jint \<Rightarrow> jint \<Rightarrow> jint \<Rightarrow> jint \<Rightarrow> nat \<Rightarrow> nat
    \<Rightarrow> (('s, 'd, 'm, 'b, 'z) process_scheme, nat) act" where
  "convertSliceNative P payload offset len inputProtocol outputProtocol compressorBytes messageType =
     (if payload = 0 then seq (throwCached NullPointerException ''payload'') (ret 0) else
      if jneg offset \<or> jneg len
      then seq (throwIllegalArgument ''offset and length must be non-negative'') (ret 0) else
      bnd (getArrayLength payload) (\<lambda>payloadLength.
      if sint offset > sint payloadLength \<or> sint (offset + len) > sint payloadLength
      then seq (throwIllegalArgument ''offset/length exceed payload bounds'') (ret 0) else
      checked (parseProtocol inputProtocol) 0 (\<lambda>inProto.
      checked (parseProtocol outputProtocol) 0 (\<lambda>outProto.
      checked (requireMessageType messageType) 0 (\<lambda>type.
      bnd (getCritical payload) (\<lambda>raw. case raw of
        None \<Rightarrow> seq (throwCached OutOfMemoryError ''Failed to access payload contents'') (ret 0)
      | Some p \<Rightarrow>
      bnd fault (\<lambda>f. if f then
        seq (throwIllegalState (what BadAlloc)) (seq (releaseCritical payload p JNI_ABORT) (ret 0)) else
      bnd (readPin p (jsize offset) (jsize len)) (\<lambda>input.
      seq (releaseCritical payload p JNI_ABORT)
     (bnd exceptionCheck (\<lambda>exn. if exn then ret 0 else
      convertPayload P inProto outProto (ret input) (length input) compressorBytes type))))))))))"

end
