(* ===== verification/Structured_Inputs.thy ===== *)
theory Structured_Inputs
  imports Structured_Clusters Structured_Sample Proto_Convert
begin

text \<open>
  \<open>JNI/OpenZLProtobuf.cpp\<close>: the inputs of a structured compression, pinned from Java objects or
  parsed from a sample, and built into streams that refer to memory by address
  (\<open>pinStructuredBuffers\<close>, \<open>buildStructuredInputs\<close>).  Local references are not modelled, so
  releasing the pinned buffers, which only deletes such references, is not either.
\<close>

section \<open>State\<close>

text \<open>\<open>StructuredJNIRefs\<close>: which classes and fields have been resolved.\<close>

record structured_refs =
  inputsClass :: bool
  fieldIdsField :: bool
  fieldTypesField :: bool
  fieldLengthsField :: bool
  fieldsField :: bool
  fieldCountField :: bool
  fieldStreamClass :: bool
  fieldStreamTagField :: bool
  fieldStreamKindField :: bool
  fieldStreamDataField :: bool
  fieldStreamLengthsField :: bool
  byteAccumulatorClass :: bool
  dataField :: bool
  sizeField :: bool

text \<open>
  A thread-local vector that inputs refer to.  \<open>sv_block\<close> counts its reallocations: a pointer into
  an earlier block is dangling.
\<close>

datatype control = FieldIds | FieldTypes | FieldLengths

datatype scratch_key = OfPinned control | OfSample control

record scratch_vector =
  sv_contents :: "u32 list"
  sv_capacity :: nat
  sv_block :: nat

text \<open>\<open>StructuredSerializerCacheEntry\<close>; its compressor is the one the context refers to.\<close>

record 'c structured_entry =
  se_cctx :: 'c
  se_initialized :: bool

text \<open>The process with the caches of the structured interface.\<close>

record ('s, 'd, 'm, 'b, 'c) structured = "('s, 'd, 'm, 'b) process" +
  structuredRefs :: structured_refs
  structuredEntries :: "string \<Rightarrow> 'c structured_entry option"
  explicitStructured :: "bytes \<Rightarrow> 'c option"
  scratchVectors :: "scratch_key \<Rightarrow> scratch_vector"
  structuredPerf :: perf

section \<open>Classes and fields\<close>

text \<open>\<open>NewGlobalRef\<close> and \<open>GetFieldID\<close>, which fails with a pending exception; a result is whether it is not null.\<close>

definition newGlobalRef :: "('z jvm_scheme, bool) act" where
  "newGlobalRef = seq jni (bnd fault (\<lambda>f. ret (\<not> f)))"

definition getFieldID :: "string \<Rightarrow> ('z jvm_scheme, bool) act" where
  "getFieldID name = seq jni (bnd fault (\<lambda>f. if f then seq (raise NoSuchFieldError name) (ret False) else ret True))"

definition setRefs :: "(structured_refs \<Rightarrow> structured_refs) \<Rightarrow> (('s, 'd, 'm, 'b, 'c, 'z) structured_scheme, unit) act" where
  "setRefs f = modify (\<lambda>w. w\<lparr>structuredRefs := f (structuredRefs w)\<rparr>)"

text \<open>The three steps for one class: find it, keep a global reference, resolve its fields one after the other.\<close>

definition resolveClass :: "(bool \<Rightarrow> structured_refs \<Rightarrow> structured_refs)
    \<Rightarrow> (('s, 'd, 'm, 'b, 'c, 'z) structured_scheme, bool) act" where
  "resolveClass setClass = bnd findClass (\<lambda>found. if \<not> found then ret False else
     bnd newGlobalRef (\<lambda>g. seq (setRefs (setClass g)) (ret g)))"

fun resolveFields :: "(string \<times> (bool \<Rightarrow> structured_refs \<Rightarrow> structured_refs)) list
    \<Rightarrow> (('s, 'd, 'm, 'b, 'c, 'z) structured_scheme, bool) act" where
  "resolveFields [] = ret True"
| "resolveFields ((name, put) # rest) =
     bnd (getFieldID name) (\<lambda>id. seq (setRefs (put id)) (bnd (resolveFields rest) (\<lambda>ok. ret (id \<and> ok))))"

definition ensureStructuredJniRefs :: "(('s, 'd, 'm, 'b, 'c, 'z) structured_scheme, bool) act" where
  "ensureStructuredJniRefs =
     bnd (gets (\<lambda>w. inputsClass (structuredRefs w))) (\<lambda>known. if known then ret True else
     bnd (resolveClass (\<lambda>g r. r\<lparr>inputsClass := g\<rparr>)) (\<lambda>ok. if \<not> ok then ret False else
     bnd (resolveFields [(''fieldIds'', \<lambda>b r. r\<lparr>fieldIdsField := b\<rparr>), (''fieldTypes'', \<lambda>b r. r\<lparr>fieldTypesField := b\<rparr>),
        (''fieldLengths'', \<lambda>b r. r\<lparr>fieldLengthsField := b\<rparr>), (''fields'', \<lambda>b r. r\<lparr>fieldsField := b\<rparr>),
        (''fieldCount'', \<lambda>b r. r\<lparr>fieldCountField := b\<rparr>)]) (\<lambda>ok. if \<not> ok then ret False else
     bnd (resolveClass (\<lambda>g r. r\<lparr>fieldStreamClass := g\<rparr>)) (\<lambda>ok. if \<not> ok then ret False else
     bnd (resolveFields [(''tag'', \<lambda>b r. r\<lparr>fieldStreamTagField := b\<rparr>), (''kind'', \<lambda>b r. r\<lparr>fieldStreamKindField := b\<rparr>),
        (''data'', \<lambda>b r. r\<lparr>fieldStreamDataField := b\<rparr>), (''lengths'', \<lambda>b r. r\<lparr>fieldStreamLengthsField := b\<rparr>)])
       (\<lambda>ok. if \<not> ok then ret False else
     bnd (resolveClass (\<lambda>g r. r\<lparr>byteAccumulatorClass := g\<rparr>)) (\<lambda>ok. if \<not> ok then ret False else
     resolveFields [(''data'', \<lambda>b r. r\<lparr>dataField := b\<rparr>), (''size'', \<lambda>b r. r\<lparr>sizeField := b\<rparr>)]))))))"

text \<open>\<open>GetObjectField\<close> and \<open>GetIntField\<close> with a field that may be null, which is undefined.\<close>

definition objectField :: "(structured_refs \<Rightarrow> bool) \<Rightarrow> string \<Rightarrow> nat
    \<Rightarrow> (('s, 'd, 'm, 'b, 'c, 'z) structured_scheme, nat) act" where
  "objectField field name obj = bnd (gets (\<lambda>w. field (structuredRefs w))) (\<lambda>id. if \<not> id then undef else
     bnd (getField obj name) (\<lambda>v. case v of VRef r \<Rightarrow> ret r | _ \<Rightarrow> undef))"

definition intField :: "(structured_refs \<Rightarrow> bool) \<Rightarrow> string \<Rightarrow> nat
    \<Rightarrow> (('s, 'd, 'm, 'b, 'c, 'z) structured_scheme, jint) act" where
  "intField field name obj = bnd (gets (\<lambda>w. field (structuredRefs w))) (\<lambda>id. if \<not> id then undef else
     bnd (getField obj name) (\<lambda>v. case v of VInt i \<Rightarrow> ret i | _ \<Rightarrow> undef))"

section \<open>Pinning\<close>

record pinned_accumulator =
  pa_address :: "nat option"
  pa_size :: nat

record structured_pinned_field =
  sp_tag :: jint
  sp_kind :: jint
  sp_data :: pinned_accumulator
  sp_lengths :: pinned_accumulator

record structured_pinned_buffers =
  sb_fieldIds :: pinned_accumulator
  sb_fieldTypes :: pinned_accumulator
  sb_fieldLengths :: pinned_accumulator
  sb_valueStreams :: "structured_pinned_field list"

definition noAccumulator :: pinned_accumulator where
  "noAccumulator = \<lparr>pa_address = None, pa_size = 0\<rparr>"

text \<open>\<open>None\<close> is the result \<open>false\<close>.  The size is not compared with the buffer's capacity.\<close>

definition pinAccumulator :: "nat \<Rightarrow> bool \<Rightarrow> (('s, 'd, 'm, 'b, 'c, 'z) structured_scheme, pinned_accumulator option) act" where
  "pinAccumulator accumulator allowNull =
     (if accumulator = 0 then
        if allowNull then ret (Some noAccumulator)
        else seq (throwIllegalState ''Structured protobuf accumulator must not be null'') (ret None)
      else
      bnd (objectField dataField ''data'' accumulator) (\<lambda>data. if data = 0 then ret None else
      bnd (intField sizeField ''size'' accumulator) (\<lambda>size. if jneg size
        then seq (throwIllegalState ''Structured protobuf input stream size must be non-negative'') (ret None) else
      if jsize size = 0 then ret (Some noAccumulator) else
      bnd (getDirectBufferAddress data) (\<lambda>address. case address of
        None \<Rightarrow> seq (throwIllegalState ''Structured protobuf input buffer must be direct'') (ret None)
      | Some a \<Rightarrow> ret (Some \<lparr>pa_address = Some a, pa_size = jsize size\<rparr>)))))"

fun pinStreams :: "nat \<Rightarrow> nat list \<Rightarrow> (('s, 'd, 'm, 'b, 'c, 'z) structured_scheme, structured_pinned_field list option) act" where
  "pinStreams arr [] = ret (Some [])"
| "pinStreams arr (i # is) =
     bnd (getObjectArrayElement arr i) (\<lambda>fieldStream. if fieldStream = 0 then ret None else
     bnd (intField fieldStreamTagField ''tag'' fieldStream) (\<lambda>tag.
     bnd (intField fieldStreamKindField ''kind'' fieldStream) (\<lambda>kind.
     bnd (objectField fieldStreamDataField ''data'' fieldStream) (\<lambda>data.
     bndo (pinAccumulator data False) (\<lambda>pinnedData.
     bnd (objectField fieldStreamLengthsField ''lengths'' fieldStream) (\<lambda>lengths.
     bndo (pinAccumulator lengths True) (\<lambda>pinnedLengths.
     bndo (pinStreams arr is) (\<lambda>rest.
     ret (Some (\<lparr>sp_tag = tag, sp_kind = kind, sp_data = pinnedData, sp_lengths = pinnedLengths\<rparr> # rest)))))))))) "

text \<open>The reservation for the value streams is outside of any handler.\<close>

definition pinStructuredBuffers :: "nat \<Rightarrow> (('s, 'd, 'm, 'b, 'c, 'z) structured_scheme, structured_pinned_buffers option) act" where
  "pinStructuredBuffers inputs =
     bnd ensureStructuredJniRefs (\<lambda>ok. if \<not> ok then ret None else
     bnd (objectField fieldIdsField ''fieldIds'' inputs) (\<lambda>fieldIds.
     bndo (pinAccumulator fieldIds False) (\<lambda>ids.
     bnd (objectField fieldTypesField ''fieldTypes'' inputs) (\<lambda>fieldTypes.
     bndo (pinAccumulator fieldTypes False) (\<lambda>types.
     bnd (objectField fieldLengthsField ''fieldLengths'' inputs) (\<lambda>fieldLengths.
     bndo (pinAccumulator fieldLengths False) (\<lambda>lens.
     bnd (objectField fieldsField ''fields'' inputs) (\<lambda>arr.
     let buffers = \<lparr>sb_fieldIds = ids, sb_fieldTypes = types, sb_fieldLengths = lens, sb_valueStreams = []\<rparr> in
     if arr = 0 then bnd exceptionCheck (\<lambda>exn. ret (if exn then None else Some buffers)) else
     bnd (intField fieldCountField ''fieldCount'' inputs) (\<lambda>fieldCount. if jneg fieldCount
       then seq (throwIllegalState ''Structured protobuf fieldCount must be non-negative'') (ret None) else
     bnd fault (\<lambda>f. if f then throw BadAlloc else
     bndo (pinStreams arr [0..<jsize fieldCount]) (\<lambda>streams. ret (Some (buffers\<lparr>sb_valueStreams := streams\<rparr>)))))))))))))"

section \<open>Inputs\<close>

text \<open>The memory an input points to.\<close>

datatype mem =
    Null
  | DirectMem nat
  | ScratchMem scratch_key nat
  | OwnedMem bytes

record st_input =
  si_type :: zl_type
  si_eltWidth :: nat
  si_numElts :: nat
  si_data :: mem
  si_size :: nat
  si_lengths :: mem
  si_tag :: jint

definition readMem :: "mem \<Rightarrow> nat \<Rightarrow> (('s, 'd, 'm, 'b, 'c, 'z) structured_scheme, bytes) act" where
  "readMem p n = (case p of
      Null \<Rightarrow> if n = 0 then ret [] else undef
    | DirectMem a \<Rightarrow> readDirect a 0 n
    | ScratchMem key block \<Rightarrow> bnd (gets (\<lambda>w. scratchVectors w key)) (\<lambda>v.
        if sv_block v = block \<and> n \<le> 4 * length (sv_contents v)
        then ret (take n (concat (map bytes32 (sv_contents v)))) else undef)
    | OwnedMem bs \<Rightarrow> if n \<le> length bs then ret (take n bs) else undef)"

text \<open>What the library reads when it uses an input.\<close>

definition readInput :: "st_input \<Rightarrow> (('s, 'd, 'm, 'b, 'c, 'z) structured_scheme, st_output) act" where
  "readInput x =
     bnd (readMem (si_data x) (si_size x)) (\<lambda>content.
     bnd (readMem (si_lengths x) (if si_type x = ZL_string then 4 * si_numElts x else 0)) (\<lambda>lens.
     ret \<lparr>so_type = si_type x, so_eltWidth = si_eltWidth x, so_numElts = si_numElts x, so_content = content,
       so_stringLens = words32 lens, so_tag = Some (si_tag x)\<rparr>))"

fun mapAct :: "('a \<Rightarrow> ('s, 'b) act) \<Rightarrow> 'a list \<Rightarrow> ('s, 'b list) act" where
  "mapAct f [] = ret []"
| "mapAct f (x # xs) = bnd (f x) (\<lambda>y. bnd (mapAct f xs) (\<lambda>ys. ret (y # ys)))"

text \<open>The scratch vector emptied and filled with at most the \<open>n\<close> words reserved for; the result is its block.\<close>

definition refillScratch :: "scratch_key \<Rightarrow> nat \<Rightarrow> u32 list \<Rightarrow> (('s, 'd, 'm, 'b, 'c, 'z) structured_scheme, nat) act" where
  "refillScratch key n ws =
     bnd (gets (\<lambda>w. scratchVectors w key)) (\<lambda>v.
     if n \<le> sv_capacity v then
       seq (modify (\<lambda>w. w\<lparr>scratchVectors := (scratchVectors w)(key := v\<lparr>sv_contents := ws\<rparr>)\<rparr>)) (ret (sv_block v))
     else bnd fault (\<lambda>f. if f then
         seq (modify (\<lambda>w. w\<lparr>scratchVectors := (scratchVectors w)(key := v\<lparr>sv_contents := []\<rparr>)\<rparr>)) (throw BadAlloc)
       else seq (modify (\<lambda>w. w\<lparr>scratchVectors := (scratchVectors w)(key :=
           \<lparr>sv_contents = ws, sv_capacity = n, sv_block = Suc (sv_block v)\<rparr>)\<rparr>)) (ret (Suc (sv_block v)))))"

text \<open>The constructors of an input, which may throw.\<close>

definition refNumeric :: "('k, 'c, 't) clustering \<Rightarrow> mem \<Rightarrow> nat \<Rightarrow> nat \<Rightarrow> jint \<Rightarrow> ('w, st_input) act" where
  "refNumeric G p width n tag = (case cg_refuses G ZL_numeric width n of
      Some e \<Rightarrow> throw e
    | None \<Rightarrow> ret \<lparr>si_type = ZL_numeric, si_eltWidth = width, si_numElts = n, si_data = p, si_size = width * n,
        si_lengths = Null, si_tag = tag\<rparr>)"

definition refString :: "('k, 'c, 't) clustering \<Rightarrow> mem \<Rightarrow> nat \<Rightarrow> mem \<Rightarrow> nat \<Rightarrow> jint \<Rightarrow> ('w, st_input) act" where
  "refString G p dataSize lens n tag = (case cg_refuses G ZL_string 0 n of
      Some e \<Rightarrow> throw e
    | None \<Rightarrow> ret \<lparr>si_type = ZL_string, si_eltWidth = 0, si_numElts = n, si_data = p, si_size = dataSize,
        si_lengths = lens, si_tag = tag\<rparr>)"

definition controlTag :: "control \<Rightarrow> jint" where
  "controlTag c = (case c of FieldIds \<Rightarrow> kStructuredFieldIdTag | FieldTypes \<Rightarrow> kStructuredFieldTypeTag
     | FieldLengths \<Rightarrow> kStructuredFieldLengthTag)"

definition controlKind :: "control \<Rightarrow> u32" where
  "controlKind c = (case c of FieldIds \<Rightarrow> kStructuredControlFieldIds | FieldTypes \<Rightarrow> kStructuredControlFieldTypes
     | FieldLengths \<Rightarrow> kStructuredControlFieldLengths)"

text \<open>\<open>addControl\<close> once its values are known: the header and the values go to the scratch vector.\<close>

definition controlInput :: "('k, 'c, 't) clustering \<Rightarrow> scratch_key \<Rightarrow> control \<Rightarrow> u32 list
    \<Rightarrow> (('s, 'd, 'm, 'b, 'c, 'z) structured_scheme, st_input) act" where
  "controlInput G key c values =
     bnd (refillScratch key (length values + 2) (kStructuredControlMagic # controlKind c # values)) (\<lambda>block.
     refNumeric G (ScratchMem key block) 4 (length values + 2) (controlTag c))"

section \<open>Inputs of pinned buffers\<close>

definition memOf :: "pinned_accumulator \<Rightarrow> mem" where
  "memOf p = (case pa_address p of None \<Rightarrow> Null | Some a \<Rightarrow> DirectMem a)"

definition addControlPinned :: "('k, 'c, 't) clustering \<Rightarrow> control \<Rightarrow> pinned_accumulator
    \<Rightarrow> (('s, 'd, 'm, 'b, 'c, 'z) structured_scheme, st_input) act" where
  "addControlPinned G c p =
     bnd (if pa_size p \<noteq> 0 then readMem (memOf p) (4 * (pa_size p div 4)) else ret []) (\<lambda>bs.
     controlInput G (OfPinned c) c (words32 bs))"

definition pinnedInput :: "('k, 'c, 't) clustering \<Rightarrow> structured_pinned_field \<Rightarrow> ('w, st_input) act" where
  "pinnedInput G stream =
     (let p = sp_data stream; kind = sp_kind stream; tag = sp_tag stream in
      if kind \<in> set kinds32 then refNumeric G (memOf p) 4 (pa_size p div 4) tag
      else if kind \<in> set kinds64 then refNumeric G (memOf p) 8 (pa_size p div 8) tag
      else if kind = 7 then refNumeric G (memOf p) 1 (pa_size p) tag
      else if kind = 9 then
        refString G (memOf p) (pa_size p) (memOf (sp_lengths stream)) (pa_size (sp_lengths stream) div 4) tag
      else throw (RuntimeError ''Unsupported structured protobuf logical field kind''))"

definition buildPinnedInputs :: "('k, 'c, 't) clustering \<Rightarrow> structured_pinned_buffers
    \<Rightarrow> (('s, 'd, 'm, 'b, 'c, 'z) structured_scheme, st_input list) act" where
  "buildPinnedInputs G buffers =
     bnd fault (\<lambda>f. if f then throw BadAlloc else
     bnd (addControlPinned G FieldIds (sb_fieldIds buffers)) (\<lambda>ids.
     bnd (addControlPinned G FieldTypes (sb_fieldTypes buffers)) (\<lambda>types.
     bnd (addControlPinned G FieldLengths (sb_fieldLengths buffers)) (\<lambda>lens.
     bnd (mapAct (pinnedInput G) (sb_valueStreams buffers)) (\<lambda>rest. ret (ids # types # lens # rest))))))"

section \<open>Inputs of a sample\<close>

text \<open>The vectors of the sample do not move as long as the sample is stored.\<close>

definition sampleInput :: "('k, 'c, 't) clustering \<Rightarrow> sample_field \<Rightarrow> ('w, st_input) act" where
  "sampleInput G field =
     (let kind = sf_kind field; tag = sf_tag field in
      if kind \<in> set kinds32 then
        refNumeric G (OwnedMem (concat (map bytes32 (sf_values32 field)))) 4 (length (sf_values32 field)) tag
      else if kind \<in> set kinds64 then
        refNumeric G (OwnedMem (concat (map bytes64 (sf_values64 field)))) 8 (length (sf_values64 field)) tag
      else if kind = 7 then refNumeric G (OwnedMem (sf_bytes field)) 1 (length (sf_bytes field)) tag
      else if kind = 9 then
        refString G (OwnedMem (sf_bytes field)) (length (sf_bytes field))
          (OwnedMem (concat (map bytes32 (sf_lengths field)))) (length (sf_lengths field)) tag
      else throw (RuntimeError ''Unsupported structured protobuf logical field kind''))"

definition buildSampleInputs :: "('k, 'c, 't) clustering \<Rightarrow> sample_storage
    \<Rightarrow> (('s, 'd, 'm, 'b, 'c, 'z) structured_scheme, st_input list) act" where
  "buildSampleInputs G storage =
     bnd fault (\<lambda>f. if f then throw BadAlloc else
     bnd (controlInput G (OfSample FieldIds) FieldIds (ss_fieldIds storage)) (\<lambda>ids.
     bnd (controlInput G (OfSample FieldTypes) FieldTypes (ss_fieldTypes storage)) (\<lambda>types.
     bnd (controlInput G (OfSample FieldLengths) FieldLengths (ss_fieldLengths storage)) (\<lambda>lens.
     bnd (mapAct (sampleInput G) (ss_valueStreams storage)) (\<lambda>rest. ret (ids # types # lens # rest))))))"

end
