(* ===== verification/Structured_Natives.thy ===== *)
theory Structured_Natives
  imports Structured_Inputs
begin

text \<open>
  \<open>JNI/OpenZLProtobuf.cpp\<close>: the compression contexts of the structured interface and its native
  methods.
\<close>

section \<open>Compression contexts\<close>

definition configureStructuredCCtx :: "('k, 'c, 't) clustering \<Rightarrow> 'c \<Rightarrow> cpp_exn option \<times> 'c" where
  "configureStructuredCCtx G c = (case cg_setParameter G StickyParameters 1 c of
      (Some e, c) \<Rightarrow> (Some e, c)
    | (None, c) \<Rightarrow> (case cg_setParameter G CompressionLevel 1 c of
        (Some e, c) \<Rightarrow> (Some e, c)
      | (None, c) \<Rightarrow> cg_setParameter G FormatVersion (cg_maxFormatVersion G) c))"

text \<open>The context configured and pointed to its compressor; the context keeps what a failing call left.\<close>

definition preparedCCtx :: "('k, 'c, 't) clustering \<Rightarrow> 'k \<Rightarrow> 'c \<Rightarrow> cpp_exn option \<times> 'c" where
  "preparedCCtx G k c = (case configureStructuredCCtx G c of
      (Some e, c) \<Rightarrow> (Some e, c) | (None, c) \<Rightarrow> cg_refCompressor G k c)"

definition setStructuredEntry :: "string \<Rightarrow> 'c structured_entry \<Rightarrow> (('s, 'd, 'm, 'b, 'c, 'z) structured_scheme, unit) act" where
  "setStructuredEntry type e = modify (\<lambda>w. w\<lparr>structuredEntries := (structuredEntries w)(type \<mapsto> e)\<rparr>)"

definition initializeEntry :: "('s, 'd, 'm, 'k, 'i, 'b, 't) proto \<Rightarrow> ('k, 'c, 't) clustering \<Rightarrow> string
    \<Rightarrow> (('s, 'd, 'm, 'b, 'c, 'z) structured_scheme, unit) act" where
  "initializeEntry P G type =
     bnd (needed (\<lambda>w. structuredEntries w type)) (\<lambda>e. if se_initialized e then ret () else
     bnd (createStructuredCompressorForType P G type) (\<lambda>k.
     case preparedCCtx G k (se_cctx e) of
       (Some x, c) \<Rightarrow> seq (setStructuredEntry type (e\<lparr>se_cctx := c\<rparr>)) (throw x)
     | (None, c) \<Rightarrow> setStructuredEntry type \<lparr>se_cctx = c, se_initialized = True\<rparr>))"

definition structuredSerializerEntryForType :: "('s, 'd, 'm, 'k, 'i, 'b, 't) proto \<Rightarrow> ('k, 'c, 't) clustering \<Rightarrow> string
    \<Rightarrow> (('s, 'd, 'm, 'b, 'c, 'z) structured_scheme, unit) act" where
  "structuredSerializerEntryForType P G type =
     bnd (gets (\<lambda>w. structuredEntries w type)) (\<lambda>cached.
     seq (case cached of
         Some e \<Rightarrow> ret ()
       | None \<Rightarrow> bnd fault (\<lambda>f. if f then throw BadAlloc
           else setStructuredEntry type \<lparr>se_cctx = cg_newCCtx G, se_initialized = False\<rparr>))
     (initializeEntry P G type))"

definition explicitStructuredEntry :: "('s, 'd, 'm, 'k, 'i, 'b, 't) proto \<Rightarrow> ('k, 'c, 't) clustering \<Rightarrow> bytes
    \<Rightarrow> ('z jvm_scheme, 'c) act" where
  "explicitStructuredEntry P G bs =
     bnd (loadedCompressor P bs) (\<lambda>k. bnd fault (\<lambda>f. if f then throw BadAlloc else
     case preparedCCtx G k (cg_newCCtx G) of (Some e, _) \<Rightarrow> throw e | (None, c) \<Rightarrow> ret c))"

definition explicitStructuredEntryForCompressor :: "('s, 'd, 'm, 'k, 'i, 'b, 't) proto \<Rightarrow> ('k, 'c, 't) clustering
    \<Rightarrow> string \<Rightarrow> bytes \<Rightarrow> (('s, 'd, 'm, 'b, 'c, 'z) structured_scheme, bytes) act" where
  "explicitStructuredEntryForCompressor P G type bs =
     (let key = explicitKey type bs in
      bnd (gets (\<lambda>w. explicitStructured w key)) (\<lambda>cached.
      seq (case cached of
          Some c \<Rightarrow> ret ()
        | None \<Rightarrow> bnd (explicitStructuredEntry P G bs) (\<lambda>c.
            modify (\<lambda>w. w\<lparr>explicitStructured := (explicitStructured w)(key \<mapsto> c)\<rparr>)))
        (ret key)))"

text \<open>The context in the cache of its type or in the cache of explicit compressors.\<close>

definition theContext :: "ser_loc \<Rightarrow> ('s, 'd, 'm, 'b, 'c, 'z) structured_scheme \<Rightarrow> 'c option" where
  "theContext loc w = (case loc of
      OfType type \<Rightarrow> map_option se_cctx (structuredEntries w type) | OfKey key \<Rightarrow> explicitStructured w key)"

definition putContext :: "ser_loc \<Rightarrow> 'c \<Rightarrow> ('s, 'd, 'm, 'b, 'c, 'z) structured_scheme
    \<Rightarrow> ('s, 'd, 'm, 'b, 'c, 'z) structured_scheme" where
  "putContext loc c w = (case loc of
      OfType type \<Rightarrow> w\<lparr>structuredEntries := (structuredEntries w)(type :=
        map_option (\<lambda>e. e\<lparr>se_cctx := c\<rparr>) (structuredEntries w type))\<rparr>
    | OfKey key \<Rightarrow> w\<lparr>explicitStructured := (explicitStructured w)(key \<mapsto> c)\<rparr>)"

definition compressInputs :: "('k, 'c, 't) clustering \<Rightarrow> ser_loc \<Rightarrow> st_input list
    \<Rightarrow> (('s, 'd, 'm, 'b, 'c, 'z) structured_scheme, bytes) act" where
  "compressInputs G loc inputs =
     bnd (mapAct readInput inputs) (\<lambda>streams.
     bnd (needed (theContext loc)) (\<lambda>c.
     case cg_compress G streams c of (r, c) \<Rightarrow> seq (modify (putContext loc c)) (lift_exn r)))"

text \<open>What the three compressions do with their inputs; \<open>None\<close> is a pending exception.\<close>

definition compressStreams :: "('s, 'd, 'm, 'k, 'i, 'b, 't) proto \<Rightarrow> ('k, 'c, 't) clustering \<Rightarrow> nat \<Rightarrow> string
    \<Rightarrow> st_input list \<Rightarrow> (('s, 'd, 'm, 'b, 'c, 'z) structured_scheme, bytes option) act" where
  "compressStreams P G compressorBytes type inputs =
     (if compressorBytes \<noteq> 0 then
        checked (copyArray compressorBytes) None (\<lambda>serialized.
        bnd (explicitStructuredEntryForCompressor P G type serialized) (\<lambda>key.
        bnd (compressInputs G (OfKey key) inputs) (\<lambda>result. ret (Some result))))
      else seq (structuredSerializerEntryForType P G type)
        (bnd (compressInputs G (OfType type) inputs) (\<lambda>result. ret (Some result))))"

section \<open>Counters\<close>

definition recordStructuredPerf :: "u64 \<Rightarrow> u64 \<Rightarrow> u64 \<Rightarrow> u64 \<Rightarrow> (('s, 'd, 'm, 'b, 'c, 'z) structured_scheme, unit) act" where
  "recordStructuredPerf pinNs buildNs compressNs outNs = modify (\<lambda>w. let c = structuredPerf w in
     if \<not> pf_enabled c then w
     else w\<lparr>structuredPerf := c\<lparr>pf_ns := map2 (+) (pf_ns c) [pinNs, buildNs, compressNs, outNs],
       pf_calls := pf_calls c + 1\<rparr>\<rparr>)"

text \<open>The four durations of a call.\<close>

definition recordPhases :: "(('s, 'd, 'm, 'b, 'c, 'z) structured_scheme, unit) act" where
  "recordPhases = bnd measure_ns (\<lambda>pinNs. bnd measure_ns (\<lambda>buildNs. bnd measure_ns (\<lambda>compressNs.
     bnd measure_ns (recordStructuredPerf pinNs buildNs compressNs))))"

definition structuredProfileNative :: "(('s, 'd, 'm, 'b, 'c, 'z) structured_scheme, nat) act" where
  "structuredProfileNative =
     bnd (gets structuredPerf) (\<lambda>c.
     bnd (newLongArray 6) (\<lambda>result.
     if result = 0
     then seq (throwCached OutOfMemoryError ''Unable to allocate structured profile snapshot'') (ret 0)
     else seq (setArrayRegion result
            (JLongArr ((if pf_enabled c then 1 else 0) # pf_ns c @ [pf_calls c]))) (ret result)))"

section \<open>Compression\<close>

definition knownType :: "('s, 'd, 'm, 'k, 'i, 'b, 't) proto \<Rightarrow> string \<Rightarrow> 'r
    \<Rightarrow> (('s, 'd, 'm, 'b, 'z) process_scheme, 'r) act \<Rightarrow> (('s, 'd, 'm, 'b, 'z) process_scheme, 'r) act" where
  "knownType P type r k = bnd (hasType P type) (\<lambda>known.
     if \<not> known then seq (throwIllegalArgument (''Unknown protobuf message type: '' @ type)) (ret r) else k)"

definition compressStructuredPayload :: "('s, 'd, 'm, 'k, 'i, 'b, 't) proto \<Rightarrow> ('k, 'c, 't) clustering \<Rightarrow> nat \<Rightarrow> nat
    \<Rightarrow> string \<Rightarrow> (('s, 'd, 'm, 'b, 'c, 'z) structured_scheme, nat) act" where
  "compressStructuredPayload P G structuredInputs compressorBytes type =
     bnd (pinStructuredBuffers structuredInputs) (\<lambda>buffers. case buffers of
       None \<Rightarrow> ret 0
     | Some b \<Rightarrow> try_catch
        (bnd (buildPinnedInputs G b) (\<lambda>inputs.
         bnd (compressStreams P G compressorBytes type inputs) (\<lambda>result. case result of
           None \<Rightarrow> ret 0
         | Some data \<Rightarrow> bnd (makeByteArray data) (\<lambda>arr. seq recordPhases (ret arr)))))
        (\<lambda>e. seq (throwIllegalState (what e)) (ret 0)))"

definition compressStructuredNative :: "('s, 'd, 'm, 'k, 'i, 'b, 't) proto \<Rightarrow> ('k, 'c, 't) clustering \<Rightarrow> nat \<Rightarrow> nat
    \<Rightarrow> nat \<Rightarrow> (('s, 'd, 'm, 'b, 'c, 'z) structured_scheme, nat) act" where
  "compressStructuredNative P G structuredInputs compressorBytes messageType =
     (if structuredInputs = 0 then seq (throwCached NullPointerException ''inputs'') (ret 0) else
      checked (requireMessageType messageType) 0 (\<lambda>type.
      knownType P type 0 (compressStructuredPayload P G structuredInputs compressorBytes type)))"

definition compressStructuredIntoNative :: "('s, 'd, 'm, 'k, 'i, 'b, 't) proto \<Rightarrow> ('k, 'c, 't) clustering \<Rightarrow> nat \<Rightarrow> nat
    \<Rightarrow> nat \<Rightarrow> nat \<Rightarrow> jint \<Rightarrow> jint \<Rightarrow> (('s, 'd, 'm, 'b, 'c, 'z) structured_scheme, jint) act" where
  "compressStructuredIntoNative P G structuredInputs compressorBytes messageType output outPos outLen =
     (if structuredInputs = 0 then seq (throwCached NullPointerException ''inputs'') (ret 0) else
      if output = 0 then seq (throwCached NullPointerException ''output'') (ret 0) else
      if jneg outPos \<or> jneg outLen
      then seq (throwIllegalArgument ''output position/length must be non-negative'') (ret 0) else
      checked (requireMessageType messageType) 0 (\<lambda>type.
      knownType P type 0
     (bnd (pinStructuredBuffers structuredInputs) (\<lambda>buffers. case buffers of
       None \<Rightarrow> ret 0
     | Some b \<Rightarrow> try_catch
        (bnd (buildPinnedInputs G b) (\<lambda>inputs.
         bnd (compressStreams P G compressorBytes type inputs) (\<lambda>result. case result of
           None \<Rightarrow> ret 0
         | Some data \<Rightarrow>
         bnd (writeDirectBuffer output outPos outLen data) (\<lambda>written.
         bnd exceptionCheck (\<lambda>exn.
         seq (if \<not> exn \<and> sint written \<ge> 0 then recordPhases else ret ()) (ret written))))))
        (\<lambda>e. seq (throwIllegalState (what e)) (ret 0))))))"

section \<open>Decompression\<close>

text \<open>
  When reading fails, the cached message keeps what has been read, which the next use clears;
  the model keeps the cleared message.
\<close>

definition decompressStructuredPayload :: "('s, 'd, 'm, 'k, 'i, 'b, 't) proto \<Rightarrow> (bytes \<Rightarrow> cpp_exn + st_output list)
    \<Rightarrow> (zl_type \<Rightarrow> nat) \<Rightarrow> 'r reader \<Rightarrow> ('m, 't) reflect \<Rightarrow> nat \<Rightarrow> string
    \<Rightarrow> (('s, 'd, 'm, 'b, 'z) process_scheme, nat) act" where
  "decompressStructuredPayload P D tcode R X payload type = try_catch
     (checked (copyArray payload) 0 (\<lambda>compressed.
      bnd (lift_exn (decodeStructuredFrame D tcode R compressed)) (\<lambda>frame.
      bnd (reusableMessage P type) (\<lambda>m. seq (setMessage type (pl_clear P m))
     (case readStructuredMessage R X (pl_clear P m) kStructuredRootPathHash frame of
        (Undef, _) \<Rightarrow> undef
      | (Throw e, _) \<Rightarrow> throw e
      | (Ret None, _) \<Rightarrow> undef
      | (Ret (Some (m, _)), _) \<Rightarrow> seq (setMessage type m) (case pl_toBytes P m of
          None \<Rightarrow> throw (RuntimeError ''Failed to serialize structured protobuf message'')
        | Some proto \<Rightarrow> makeByteArray proto))))))
     (\<lambda>e. seq (throwIllegalState (what e)) (ret 0))"

definition decompressStructuredNative :: "('s, 'd, 'm, 'k, 'i, 'b, 't) proto \<Rightarrow> (bytes \<Rightarrow> cpp_exn + st_output list)
    \<Rightarrow> (zl_type \<Rightarrow> nat) \<Rightarrow> 'r reader \<Rightarrow> ('m, 't) reflect \<Rightarrow> nat \<Rightarrow> nat
    \<Rightarrow> (('s, 'd, 'm, 'b, 'z) process_scheme, nat) act" where
  "decompressStructuredNative P D tcode R X payload messageType =
     (if payload = 0 then seq (throwCached NullPointerException ''payload'') (ret 0) else
      checked (requireMessageType messageType) 0 (\<lambda>type.
      knownType P type 0 (decompressStructuredPayload P D tcode R X payload type)))"

section \<open>Samples\<close>

definition parsedSample :: "bytes \<Rightarrow> ('z jvm_scheme, sample_storage) act" where
  "parsedSample payload = bnd fault (\<lambda>f. if f then throw BadAlloc else
     case fst (parseStructuredSample payload) of Ret s \<Rightarrow> ret s | Throw e \<Rightarrow> throw e | Undef \<Rightarrow> undef)"

definition compressStructuredSampleNative :: "('s, 'd, 'm, 'k, 'i, 'b, 't) proto \<Rightarrow> ('k, 'c, 't) clustering \<Rightarrow> nat \<Rightarrow> nat
    \<Rightarrow> nat \<Rightarrow> (('s, 'd, 'm, 'b, 'c, 'z) structured_scheme, nat) act" where
  "compressStructuredSampleNative P G sample compressorBytes messageType =
     (if sample = 0 then seq (throwCached NullPointerException ''sample'') (ret 0) else
      checked (requireMessageType messageType) 0 (\<lambda>type.
      knownType P type 0 (try_catch
       (checked (copyArray sample) 0 (\<lambda>payload.
        bnd (parsedSample payload) (\<lambda>storage.
        bnd (buildSampleInputs G storage) (\<lambda>inputs.
        bnd (compressStreams P G compressorBytes type inputs) (\<lambda>result. case result of
          None \<Rightarrow> ret 0 | Some data \<Rightarrow> makeByteArray data)))))
       (\<lambda>e. seq (throwIllegalState (what e)) (ret 0)))))"

text \<open>
  The samples stay stored, but all of them are built through the same scratch vectors.  A failed
  copy of a sample is not noticed before its parsing.
\<close>

fun structuredSamples :: "('k, 'c, 't) clustering \<Rightarrow> nat \<Rightarrow> nat list
    \<Rightarrow> (('s, 'd, 'm, 'b, 'c, 'z) structured_scheme, st_input list list option) act" where
  "structuredSamples G sampleArr [] = ret (Some [])"
| "structuredSamples G sampleArr (i # is) =
     bnd (getObjectArrayElement sampleArr i) (\<lambda>sample.
     if sample = 0 then seq (throwCached NullPointerException ''samples element'') (ret None) else
     bnd (copyArray sample) (\<lambda>payload.
     bnd (parsedSample payload) (\<lambda>storage.
     bnd (buildSampleInputs G storage) (\<lambda>inputs.
     bndo (structuredSamples G sampleArr is) (\<lambda>rest. ret (Some (inputs # rest)))))))"

text \<open>\<open>compressorGenFunc\<close>: the recursion over the type ended when the base compressor was made.\<close>

definition structuredCompressorGen :: "('s, 'd, 'm, 'k, 'i, 'b, 't) proto \<Rightarrow> ('k, 'c, 't) clustering \<Rightarrow> 't
    \<Rightarrow> bytes \<Rightarrow> cpp_exn + 'k" where
  "structuredCompressorGen P G descriptor bs = (case structuredCompressor P G descriptor of
      None \<Rightarrow> Inl BadAlloc
    | Some (Inl e) \<Rightarrow> Inl e
    | Some (Inr k) \<Rightarrow> (case pl_loadCompressor P bs k of (Some e, _) \<Rightarrow> Inl e | (None, k) \<Rightarrow> Inr k))"

definition trainStructuredNative :: "('s, 'd, 'm, 'k, 'i, 'b, 't) proto \<Rightarrow> ('k, 'c, 't) clustering \<Rightarrow> nat \<Rightarrow> jint
    \<Rightarrow> jint \<Rightarrow> jint \<Rightarrow> bool \<Rightarrow> nat \<Rightarrow> (('s, 'd, 'm, 'b, 'c, 'z) structured_scheme, nat) act" where
  "trainStructuredNative P G sampleArr maxTimeSecs threads numSamples pareto messageType =
     (if sampleArr = 0 then seq (throwCached NullPointerException ''samples'') (ret 0) else
      bnd (getArrayLength sampleArr) (\<lambda>count.
      if count = 0 then seq (throwIllegalArgument ''samples must not be empty'') (ret 0) else
      checked (requireMessageType messageType) 0 (\<lambda>type.
      knownType P type 0 (try_catch
       (bnd (createStructuredCompressorForType P G type) (\<lambda>baseCompressor.
        bnd (structuredSamples G sampleArr [0..<jsize count]) (\<lambda>r. case r of
          None \<Rightarrow> ret 0
        | Some multiInputs \<Rightarrow>
        bnd (mapAct (mapAct readInput) multiInputs) (\<lambda>multiStreams.
        bnd (structuredDescriptor P type) (\<lambda>descriptor.
        bnd (lift_exn (cg_train G (trainParams maxTimeSecs threads numSamples pareto)
               (structuredCompressorGen P G descriptor) multiStreams baseCompressor)) (\<lambda>trained.
        bnd findClass (\<lambda>found. if \<not> found then ret 0 else
        bnd (newObjectArray (word_of_nat (length trained))) (\<lambda>result.
        if result = 0 then ret 0 else fillTrained result 0 trained))))))))
       (\<lambda>e. seq (throwIllegalState (what e)) (ret 0))))))"

section \<open>A concrete library\<close>

text \<open>A frame is a list of the streams it was made from, written down as their number and contents.\<close>

definition plain_clustering :: "(unit, unit, unit) clustering" where
  "plain_clustering = \<lparr>cg_fields = (\<lambda>_. flat_fields), cg_buildACEGraph = (\<lambda>k. (0, k)),
     cg_registerGraph = (\<lambda>_ _ k. (1, k)), cg_newCCtx = (), cg_setParameter = (\<lambda>_ _ c. (None, c)),
     cg_maxFormatVersion = 21, cg_refCompressor = (\<lambda>_ c. (None, c)), cg_refuses = (\<lambda>_ _ _. None),
     cg_compress = (\<lambda>xs c. (Inr (concat (map so_content xs)), c)), cg_train = (\<lambda>_ _ _ _. Inr [])\<rparr>"

definition plain_structured :: "'b \<Rightarrow> (nat \<Rightarrow> jobj option) \<Rightarrow> nat \<Rightarrow> (unit, unit, 'm, 'b, unit) structured" where
  "plain_structured b heap next = \<lparr>objs = heap, next_ref = next, pending = None, pins = [], next_pin = 0,
     pin_copies = True, borrowed = [], faults = [], misuse = False, class_refs = (\<lambda>_. True), global_refs = [],
     handle_field = False, serializers = (\<lambda>_. None), explicitSerializers = (\<lambda>_. None), deserializers = (\<lambda>_. None),
     messages = (\<lambda>_. None), trainings = (\<lambda>_. None), descriptors = b,
     directIntoPerf = \<lparr>pf_enabled = False, pf_ns = [0, 0, 0], pf_calls = 0\<rparr>, durations = [],
     structuredRefs = \<lparr>inputsClass = True, fieldIdsField = True, fieldTypesField = True, fieldLengthsField = True,
       fieldsField = True, fieldCountField = True, fieldStreamClass = True, fieldStreamTagField = True,
       fieldStreamKindField = True, fieldStreamDataField = True, fieldStreamLengthsField = True,
       byteAccumulatorClass = True, dataField = True, sizeField = True\<rparr>,
     structuredEntries = (\<lambda>_. None), explicitStructured = (\<lambda>_. None),
     scratchVectors = (\<lambda>_. \<lparr>sv_contents = [], sv_capacity = 0, sv_block = 0\<rparr>),
     structuredPerf = \<lparr>pf_enabled = False, pf_ns = [0, 0, 0, 0], pf_calls = 0\<rparr>\<rparr>"

end
