(* ===== verification/Structured_Training.thy ===== *)
theory Structured_Training
  imports Structured_Natives
begin

text \<open>
  What \<open>trainStructuredNative\<close> hands to the training: the inputs of all samples refer to the same
  scratch vectors, which hold the control streams of the last one.
\<close>

section \<open>Building the inputs of a sample\<close>

definition controlIndex :: "control \<Rightarrow> nat" where
  "controlIndex c = (case c of FieldIds \<Rightarrow> 0 | FieldTypes \<Rightarrow> 1 | FieldLengths \<Rightarrow> 2)"

lemma gets_Ret: "gets f w = (Ret x, w') \<longleftrightarrow> x = f w \<and> w' = w"
  by (auto simp: gets_def)

lemma modify_Ret: "modify f w = (Ret x, w') \<longleftrightarrow> w' = f w"
  by (simp add: modify_def eq_commute)

lemma fault_Ret: "fault w = (Ret x, w') \<longleftrightarrow> x = next_fault w \<and> w' = consume w"
  by (auto simp: fault_def next_fault_def consume_def)

lemmas run_Ret = act_Ret gets_Ret modify_Ret fault_Ret

text \<open>A control input points to the whole contents of its scratch vector.\<close>

definition points_to :: "scratch_key \<Rightarrow> st_input \<Rightarrow> ('s, 'd, 'm, 'b, 'c, 'z) structured_scheme \<Rightarrow> bool" where
  "points_to key x w \<longleftrightarrow> (let v = scratchVectors w key in
     si_type x = ZL_numeric \<and> si_lengths x = Null \<and> si_data x = ScratchMem key (sv_block v)
       \<and> si_size x = 4 * length (sv_contents v))"

lemma refill_run:
  assumes "refillScratch key n ws w = (Ret b, w')"
  shows "sv_contents (scratchVectors w' key) = ws" "sv_block (scratchVectors w' key) = b"
    "k \<noteq> key \<Longrightarrow> scratchVectors w' k = scratchVectors w k"
proof -
  have "scratchVectors (consume w) = scratchVectors w" by (simp add: consume_def)
  then show "sv_contents (scratchVectors w' key) = ws" "sv_block (scratchVectors w' key) = b"
    "k \<noteq> key \<Longrightarrow> scratchVectors w' k = scratchVectors w k"
    using assms by (auto simp: refillScratch_def run_Ret split: if_splits)
qed

lemma controlInput_run:
  assumes "controlInput G key c ws w = (Ret x, w')"
  shows "points_to key x w'" "k \<noteq> key \<Longrightarrow> scratchVectors w' k = scratchVectors w k"
    "sv_contents (scratchVectors w' key) = kStructuredControlMagic # controlKind c # ws"
proof -
  obtain b where b: "refillScratch key (length ws + 2) (kStructuredControlMagic # controlKind c # ws) w = (Ret b, w')"
      and x: "si_type x = ZL_numeric" "si_lengths x = Null" "si_data x = ScratchMem key b" "si_size x = 4 * (length ws + 2)"
    using assms by (auto simp: controlInput_def refNumeric_def run_Ret split: option.splits)
  show "points_to key x w'" using refill_run(1,2) [OF b] x by (simp add: points_to_def Let_def)
  show "k \<noteq> key \<Longrightarrow> scratchVectors w' k = scratchVectors w k" by (rule refill_run(3) [OF b])
  show "sv_contents (scratchVectors w' key) = kStructuredControlMagic # controlKind c # ws" by (rule refill_run(1) [OF b])
qed

lemma sampleInput_state: "sampleInput G f w = (Ret x, w') \<Longrightarrow> w' = w"
  by (auto simp: sampleInput_def refNumeric_def refString_def Let_def run_Ret split: if_splits option.splits)

lemma mapAct_state:
  assumes "\<And>x y s s'. f x s = (Ret y, s') \<Longrightarrow> s' = s"
  shows "mapAct f xs s = (Ret ys, s') \<Longrightarrow> s' = s \<and> list_all2 (\<lambda>x y. f x s = (Ret y, s)) xs ys"
proof (induction xs arbitrary: ys)
  case (Cons x xs)
  then obtain y s1 ys1 where "f x s = (Ret y, s1)" "mapAct f xs s1 = (Ret ys1, s')" "ys = y # ys1"
    by (auto simp: run_Ret)
  then show ?case using assms [of x s y s1] Cons.IH by auto
qed (simp add: run_Ret)

lemma buildSample_run:
  assumes "buildSampleInputs G s w = (Ret ins, w')"
  shows "points_to (OfSample c) (ins ! controlIndex c) w'" "3 \<le> length ins"
proof -
  obtain ids types lens rest w1 w2 w3 where
      1: "controlInput G (OfSample FieldIds) FieldIds (ss_fieldIds s) (consume w) = (Ret ids, w1)"
    and 2: "controlInput G (OfSample FieldTypes) FieldTypes (ss_fieldTypes s) w1 = (Ret types, w2)"
    and 3: "controlInput G (OfSample FieldLengths) FieldLengths (ss_fieldLengths s) w2 = (Ret lens, w3)"
    and 4: "mapAct (sampleInput G) (ss_valueStreams s) w3 = (Ret rest, w')" and ins: "ins = ids # types # lens # rest"
    using assms by (auto simp: buildSampleInputs_def run_Ret split: if_splits)
  have "w' = w3" by (rule conjunct1 [OF mapAct_state [OF _ 4]]) (erule sampleInput_state)
  then show "points_to (OfSample c) (ins ! controlIndex c) w'"
    using controlInput_run(1) [OF 1] controlInput_run(1) [OF 2] controlInput_run(1) [OF 3]
      controlInput_run(2) [OF 2, of "OfSample FieldIds"] controlInput_run(2) [OF 3]
    by (cases c) (auto simp: ins controlIndex_def points_to_def numeral_2_eq_2)
  show "3 \<le> length ins" by (simp add: ins)
qed

section \<open>All samples\<close>

text \<open>Every control input refers to the scratch vector of its kind, whatever that holds by now.\<close>

definition shares :: "st_input list \<Rightarrow> bool" where
  "shares ins \<longleftrightarrow> (\<forall>c. \<exists>block. si_data (ins ! controlIndex c) = ScratchMem (OfSample c) block
     \<and> si_type (ins ! controlIndex c) = ZL_numeric \<and> si_lengths (ins ! controlIndex c) = Null)"

lemma structuredSamples_run:
  "structuredSamples G arr is w = (Ret (Some multi), w') \<Longrightarrow> is \<noteq> [] \<Longrightarrow>
    multi \<noteq> [] \<and> (\<forall>ins \<in> set multi. shares ins) \<and> (\<forall>c. points_to (OfSample c) (last multi ! controlIndex c) w')"
proof (induction "is" arbitrary: w multi)
  case (Cons i "is")
  obtain ins w1 r w2 s where b: "buildSampleInputs G s w2 = (Ret ins, w1)"
      and r: "structuredSamples G arr is w1 = (Ret r, w')" and multi: "\<exists>rest. r = Some rest \<and> multi = ins # rest"
    using Cons.prems(1) by (auto simp: run_Ret bndo_def split: if_splits option.splits)
  then obtain rest where rest: "structuredSamples G arr is w1 = (Ret (Some rest), w')" "multi = ins # rest" by blast
  have ins: "shares ins" using buildSample_run(1) [OF b] by (auto simp: shares_def points_to_def Let_def)
  show ?case
  proof (cases "is = []")
    case True
    then show ?thesis using rest ins buildSample_run(1) [OF b] by (auto simp: run_Ret)
  next
    case False
    then show ?thesis using Cons.IH [OF rest(1) False] rest(2) ins by auto
  qed
qed simp

text \<open>C39. What the training reads as a control stream of a sample is a prefix of the control stream of
  the last sample, whatever the sample itself contained, unless reading it is undefined behaviour
  because the scratch vector was reallocated or is shorter by now: the samples do not keep their
  control streams.\<close>

theorem training_reads_last_sample:
  assumes "structuredSamples G arr is w = (Ret (Some multi), w')" and "is \<noteq> []" and "ins \<in> set multi"
    and "fst (readInput (ins ! controlIndex c) w') = Ret x"
  shows "\<exists>z. fst (readInput (last multi ! controlIndex c) w') = Ret z
    \<and> so_content x = take (si_size (ins ! controlIndex c)) (so_content z)"
proof -
  let ?v = "scratchVectors w' (OfSample c)"
  let ?bytes = "concat (map bytes32 (sv_contents ?v))"
  have run: "shares ins" "points_to (OfSample c) (last multi ! controlIndex c) w'"
    using structuredSamples_run [OF assms(1,2)] assms(3) by blast+
  have "so_content x = take (si_size (ins ! controlIndex c)) ?bytes"
  proof -
    obtain block where 1: "si_data (ins ! controlIndex c) = ScratchMem (OfSample c) block"
        "si_type (ins ! controlIndex c) = ZL_numeric" "si_lengths (ins ! controlIndex c) = Null"
      using run(1) by (auto simp: shares_def)
    then show ?thesis
      using assms(4) by (auto simp: readInput_def readMem_def bnd_def gets_def ret_def undef_def split: if_splits)
  qed
  moreover have "\<exists>z. fst (readInput (last multi ! controlIndex c) w') = Ret z \<and> so_content z = ?bytes"
    using run(2) by (auto simp: points_to_def Let_def readInput_def readMem_def bnd_def gets_def ret_def)
  ultimately show ?thesis by auto
qed

text \<open>Two samples that differ in their field ids, and what is left of the first one.\<close>

definition sample_with :: "u32 list \<Rightarrow> sample_storage" where
  "sample_with ids = \<lparr>ss_fieldIds = ids, ss_fieldTypes = [], ss_fieldLengths = [], ss_valueStreams = []\<rparr>"

definition two_samples :: "(unit, unit, unit, unit, unit) structured" where
  "two_samples = plain_structured () [1 \<mapsto> JObjArr [2, 3], 2 \<mapsto> JByteArr (encodeSample (sample_with [1])),
     3 \<mapsto> JByteArr (encodeSample (sample_with [2]))] 4"

definition two_inputs :: "st_input list list" where
  "two_inputs = (let x = \<lambda>c n. \<lparr>si_type = ZL_numeric, si_eltWidth = 4, si_numElts = n, si_data = ScratchMem (OfSample c) 1,
       si_size = 4 * n, si_lengths = Null, si_tag = controlTag c\<rparr> in
     replicate 2 [x FieldIds 3, x FieldTypes 2, x FieldLengths 2])"

lemma two_samples_run: "fst (structuredSamples plain_clustering 1 [0, 1] two_samples) = Ret (Some two_inputs)"
  by code_simp

definition trained_state :: "(unit, unit, unit, unit, unit) structured" where
  "trained_state = snd (structuredSamples plain_clustering 1 [0, 1] two_samples)"

definition first_ids :: st_output where
  "first_ids = \<lparr>so_type = ZL_numeric, so_eltWidth = 4, so_numElts = 3,
     so_content = concat (map bytes32 [kStructuredControlMagic, 1, 2]), so_stringLens = [], so_tag = Some (- 1)\<rparr>"

lemma first_ids_read: "fst (readInput (hd two_inputs ! controlIndex FieldIds) trained_state) = Ret first_ids"
  by code_simp

lemma training_reads_last_sample_witness:
  "\<exists>z. fst (readInput (last two_inputs ! controlIndex FieldIds) trained_state) = Ret z
    \<and> so_content first_ids = take (si_size (hd two_inputs ! controlIndex FieldIds)) (so_content z)"
proof (rule training_reads_last_sample [OF _ _ _ first_ids_read])
  show "structuredSamples plain_clustering 1 [0, 1] two_samples = (Ret (Some two_inputs), trained_state)"
    using two_samples_run by (simp add: trained_state_def prod_eq_iff)
  show "hd two_inputs \<in> set two_inputs" by (simp add: two_inputs_def Let_def)
qed simp

end
