(* ===== verification/Proto_Rules.thy ===== *)
theory Proto_Rules
  imports Proto_Convert
begin

text \<open>
  Rules for the protobuf bridge outside of critical regions: what every function keeps of the
  JVM and of the caches, on every schedule of failures.
\<close>

section \<open>Growing states\<close>

text \<open>
  \<open>grows w0 w\<close>: since \<open>w0\<close> nothing was pinned or misused, the Java objects of \<open>w0\<close> are what
  they were, and the caches hold at least what they held.
\<close>

definition grows :: "('s, 'd, 'm, 'b, 'z) process_scheme \<Rightarrow> ('s, 'd, 'm, 'b, 'z) process_scheme \<Rightarrow> bool" where
  "grows w0 w \<longleftrightarrow> jvm_ok w \<and> pins w = [] \<and> misuse w = misuse w0
     \<and> (\<forall>r x. objs w0 r = Some x \<longrightarrow> objs w r = Some x) \<and> next_ref w0 \<le> next_ref w
     \<and> dom (serializers w0) \<subseteq> dom (serializers w) \<and> dom (explicitSerializers w0) \<subseteq> dom (explicitSerializers w)
     \<and> dom (deserializers w0) \<subseteq> dom (deserializers w) \<and> dom (messages w0) \<subseteq> dom (messages w)"

lemma grows_refl: "jvm_ok w \<Longrightarrow> pins w = [] \<Longrightarrow> grows w w"
  by (simp add: grows_def)

lemma growsD:
  assumes "grows w0 w"
  shows "jvm_ok w" "pins w = []" "misuse w = misuse w0" "objs w0 r = Some x \<Longrightarrow> objs w r = Some x"
  using assms by (simp_all add: grows_def)

lemma grows_trans: "grows w0 w \<Longrightarrow> grows w w' \<Longrightarrow> grows w0 w'"
  unfolding grows_def by (elim conjE, intro conjI) (assumption | simp | blast | meson order_trans)+

text \<open>A JNI function changes nothing of the process outside the JVM, and allocates at most.\<close>

definition keeps :: "'z jvm_scheme \<Rightarrow> 'z jvm_scheme \<Rightarrow> bool" where
  "keeps w w' \<longleftrightarrow> jvm.more w' = jvm.more w \<and> (\<forall>r x. objs w r = Some x \<longrightarrow> objs w' r = Some x)"

lemma keeps_refl [simp]: "keeps w w"
  by (simp add: keeps_def)

lemma keeps_trans: "keeps w w' \<Longrightarrow> keeps w' w'' \<Longrightarrow> keeps w w''"
  by (simp add: keeps_def)

lemma keeps_objs: "keeps w w' \<Longrightarrow> objs w r = Some x \<Longrightarrow> objs w' r = Some x"
  by (simp add: keeps_def)

lemma keepsD:
  assumes "keeps w (w' :: ('s, 'd, 'm, 'b, 'z) process_scheme)"
  shows "serializers w' = serializers w" "explicitSerializers w' = explicitSerializers w"
    "deserializers w' = deserializers w" "messages w' = messages w" "trainings w' = trainings w"
    "descriptors w' = descriptors w" "directIntoPerf w' = directIntoPerf w" "durations w' = durations w"
  using assms by (cases w; cases w'; simp add: keeps_def)+

lemma keeps_grows:
  assumes "grows w0 (w :: ('s, 'd, 'm, 'b, 'z) process_scheme)" and "keeps w w'" and "jvm_ok w'"
    and "pins w' = []" "misuse w' = misuse w" "next_ref w \<le> next_ref w'"
  shows "grows w0 w'"
  using assms keepsD [OF assms(2)] keeps_objs [OF assms(2)] unfolding grows_def by auto

lemma keeps_plain:
  assumes "grows w0 (w :: ('s, 'd, 'm, 'b, 'z) process_scheme)" and "keeps w w'"
    and "objs w' = objs w" "next_ref w' = next_ref w" "pins w' = pins w" "misuse w' = misuse w"
  shows "grows w0 w'"
proof (rule keeps_grows [OF assms(1,2)])
  show "jvm_ok w'" using assms(1,3,4) jvm_ok_cong by (auto simp: grows_def)
qed (use assms in \<open>auto simp: grows_def\<close>)

section \<open>JNI functions\<close>

lemma grow_throwCached:
  assumes "grows w0 w" and "\<And>w'. grows w0 w' \<Longrightarrow> keeps w w' \<Longrightarrow> pending w' \<noteq> None \<Longrightarrow> Q () w'"
  shows "wp (throwCached c msg) Q E w"
proof -
  have "keeps w (thrown c msg w)" by (simp add: keeps_def)
  moreover have "grows w0 (thrown c msg w)"
    using growsD(2) [OF assms(1)] by (intro keeps_plain [OF assms(1)]) (simp_all add: keeps_def)
  ultimately show ?thesis by (simp add: wp_throwCached assms(2))
qed

lemmas throw_defs = throwIllegalArgument_def throwIllegalState_def

lemma grow_check:
  assumes "grows w0 w" and "Q (pending w \<noteq> None) w"
  shows "wp exceptionCheck Q E w"
  using assms growsD(2) [OF assms(1)] by (simp add: wp_exceptionCheck)

lemma grow_fault:
  assumes "grows w0 w" and "\<And>f w'. grows w0 w' \<Longrightarrow> keeps w w' \<Longrightarrow> pending w' = pending w \<Longrightarrow> Q f w'"
  shows "wp fault Q E w"
proof -
  have "keeps w (consume w)" by (simp add: keeps_def)
  then have "grows w0 (consume w)" by (intro keeps_plain [OF assms(1)]) simp_all
  then show ?thesis by (simp add: wp_fault assms(2) keeps_def)
qed

lemma grow_alloc:
  assumes "grows w0 w" and "obj_ok x" and "keeps w w'" "objs w' = (objs w)(next_ref w \<mapsto> x)"
    "next_ref w' = Suc (next_ref w)" "pins w' = []" "misuse w' = misuse w"
  shows "grows w0 w'"
proof (rule keeps_grows [OF assms(1,3)])
  have ok: "jvm_ok w" using growsD(1) [OF assms(1)] .
  then show "jvm_ok w'" by (rule jvm_ok_alloc [OF _ assms(2,4,5)])
qed (use assms in simp_all)

lemma grow_newByteArray:
  assumes "grows w0 w"
    and "\<And>w'. grows w0 w' \<Longrightarrow> keeps w w' \<Longrightarrow> pending w' \<noteq> None \<Longrightarrow> Q 0 w'"
    and "\<And>r w'. grows w0 w' \<Longrightarrow> keeps w w' \<Longrightarrow> \<not> jneg n \<Longrightarrow> r \<noteq> 0 \<Longrightarrow> next_ref w0 \<le> r \<Longrightarrow>
      objs w' r = Some (JByteArr (replicate (jsize n) 0)) \<Longrightarrow> pending w' = pending w \<Longrightarrow> Q r w'"
  shows "wp (newByteArray n) Q E w"
proof -
  have p: "pins w = []" using growsD(2) [OF assms(1)] .
  have le: "next_ref w0 \<le> next_ref w" using assms(1) by (simp add: grows_def)
  have failed: "Q 0 (w1\<lparr>pending := Some e\<rparr>)" if "w1 = w \<or> w1 = consume w" for w1 e
  proof (rule assms(2))
    show "keeps w (w1\<lparr>pending := Some e\<rparr>)" using that by (auto simp: keeps_def)
    then show "grows w0 (w1\<lparr>pending := Some e\<rparr>)" using that by (intro keeps_plain [OF assms(1)]) auto
  qed simp
  have made: "Q (next_ref w) (allocated (JByteArr (replicate (jsize n) 0)) (consume w))" if "\<not> jneg n"
  proof (rule assms(3))
    show k: "keeps w (allocated (JByteArr (replicate (jsize n) 0)) (consume w))"
      using allocated_below [OF growsD(1) [OF assms(1)]] by (auto simp: keeps_def)
    have "jsize n \<le> 2147483647" using jint_bounds(2) [of n] by (simp add: jsize_def)
    then show "grows w0 (allocated (JByteArr (replicate (jsize n) 0)) (consume w))"
      using p k by (intro grow_alloc [OF assms(1)]) (simp_all add: obj_ok_def)
    show "next_ref w \<noteq> 0" using growsD(1) [OF assms(1)] by (simp add: jvm_ok_def)
  qed (use that le in simp_all)
  show ?thesis
    using p failed made by (simp add: newByteArray_def wp_newArray)
qed

lemma grow_setByteRegion:
  assumes "grows w0 w" and "next_ref w0 \<le> r" and "objs w r = Some (JByteArr (replicate n 0))" and "length bs = n"
    and "\<And>w'. grows w0 w' \<Longrightarrow> objs w' r = Some (JByteArr bs) \<Longrightarrow> pending w' = pending w \<Longrightarrow> Q () w'"
    and ok: "jvm_ok w0"
  shows "wp (setArrayRegion r (JByteArr bs)) Q E w"
proof -
  have p: "pins w = []" using growsD(2) [OF assms(1)] .
  let ?w = "w\<lparr>objs := (objs w)(r \<mapsto> JByteArr bs)\<rparr>"
  have "grows w0 ?w"
  proof -
    have "obj_ok (JByteArr bs)"
      using growsD(1) [OF assms(1)] assms(3,4) by (fastforce simp: jvm_ok_def obj_ok_def)
    then have "jvm_ok ?w" by (intro jvm_ok_update [OF growsD(1) [OF assms(1)] assms(3)]) simp_all
    moreover have "objs w0 r = None" using ok assms(2) by (simp add: jvm_ok_def)
    ultimately show ?thesis using assms(1) by (auto simp: grows_def)
  qed
  then have "Q () ?w" by (rule assms(5)) simp_all
  then show ?thesis
    using p assms(3,4) by (simp add: wp_setArrayRegion overwrite_obj_def overwrite_full)
qed

lemma grow_length:
  assumes "grows w0 w" and "objs w r = Some x" "array_length x = Some n" and "Q (word_of_nat n) w"
  shows "wp (getArrayLength r) Q E w"
  using assms growsD(2) [OF assms(1)] by (simp add: wp_getArrayLength)

lemma grow_throwNew:
  assumes "grows w0 w" and "\<And>w'. grows w0 w' \<Longrightarrow> keeps w w' \<Longrightarrow> pending w' \<noteq> None \<Longrightarrow> Q () w'"
  shows "wp (throwNew cl msg) Q E w"
proof -
  have p: "pins w = []" using growsD(2) [OF assms(1)] .
  have r: "Q () (w1\<lparr>pending := Some e\<rparr>)" if "w1 = w \<or> w1 = consume w" for w1 e
  proof (rule assms(2))
    show "keeps w (w1\<lparr>pending := Some e\<rparr>)" using that by (auto simp: keeps_def)
    then show "grows w0 (w1\<lparr>pending := Some e\<rparr>)" using that by (intro keeps_plain [OF assms(1)]) auto
  qed simp
  show ?thesis
    using p r by (cases cl) (simp_all add: throwNew_def wp_simps)
qed

lemma grow_ensureClass:
  assumes "grows w0 w" and "\<And>b w'. grows w0 w' \<Longrightarrow> keeps w w' \<Longrightarrow> Q b w'"
  shows "wp (ensureExceptionClass c) Q E w"
proof -
  have p: "pins w = []" using growsD(2) [OF assms(1)] .
  have r: "Q b w'" if "keeps w w'" "objs w' = objs w" "next_ref w' = next_ref w" "pins w' = pins w" "misuse w' = misuse w"
    for b w' using that keeps_plain [OF assms(1)] assms(2) by blast
  show ?thesis
    using p unfolding ensureExceptionClass_def makeGlobalClassRef_def
    by (auto simp: wp_simps keeps_def intro!: r)
qed

lemma grow_throwIllegal:
  assumes "grows w0 w" and "\<And>w'. grows w0 w' \<Longrightarrow> keeps w w' \<Longrightarrow> pending w' \<noteq> None \<Longrightarrow> Q () w'"
  shows "wp (throwIllegalArgument msg) Q E w" "wp (throwIllegalState msg) Q E w"
proof -
  have "wp (bnd (ensureExceptionClass c) (\<lambda>ok. if \<not> ok then throwNew None msg else throwCached c msg)) Q E w" for c
    unfolding wp_bnd
  proof (rule grow_ensureClass [OF assms(1)])
    fix b w'
    assume w': "grows w0 w'" "keeps w w'"
    then show "wp (if \<not> b then throwNew None msg else throwCached c msg) Q E w'"
      by (cases b) (auto intro!: grow_throwNew [OF w'(1)] grow_throwCached [OF w'(1)] assms(2) intro: keeps_trans)
  qed
  then show "wp (throwIllegalArgument msg) Q E w" "wp (throwIllegalState msg) Q E w"
    by (simp_all add: throw_defs)
qed

lemma grow_copyArray:
  assumes "grows w0 w" and a: "objs w a = Some (JByteArr bs)"
    and "\<And>data w'. grows w0 w' \<Longrightarrow> keeps w w' \<Longrightarrow> data = bs \<and> pending w' = pending w \<or> pending w' \<noteq> None \<Longrightarrow> Q data w'"
    and "\<And>w'. grows w0 w' \<Longrightarrow> keeps w w' \<Longrightarrow> pending w' = pending w \<Longrightarrow> E BadAlloc w'"
  shows "wp (copyArray a) Q E w"
proof -
  have p: "pins w = []" using growsD(2) [OF assms(1)] .
  have len: "length bs \<le> 2147483647" using obj_ok_length [OF growsD(1) [OF assms(1)] a] by simp
  have pinned: "wp (bnd (getCritical a) (\<lambda>raw. case raw of
       None \<Rightarrow> seq (throwCached OutOfMemoryError msg) (ret [])
     | Some p \<Rightarrow> bnd (readPin p 0 (length bs)) (\<lambda>data. seq (releaseCritical a p JNI_ABORT) (ret data)))) Q E w1"
    if w1: "grows w0 w1" "keeps w w1" "pending w1 = pending w" and a1: "objs w1 a = Some (JByteArr bs)" for msg w1
  proof -
    have p1: "pins w1 = []" using growsD(2) [OF w1(1)] .
    have 1: "wp (seq (throwCached OutOfMemoryError msg) (ret [])) Q E (consume w1)"
      unfolding wp_seq
    proof (rule grow_throwCached)
      show "grows w0 (consume w1)" by (rule keeps_plain [OF w1(1)]) (simp_all add: keeps_def)
      show "wp (ret []) Q E w'" if "grows w0 w'" "keeps (consume w1) w'" "pending w' \<noteq> None" for w'
        using that w1(2) by (intro wp_ret [THEN iffD2] assms(3)) (simp_all add: keeps_def)
    qed
    have 2: "Q bs w2" if "keeps w1 w2" "objs w2 = objs w1" "next_ref w2 = next_ref w1" "pins w2 = []"
      "misuse w2 = misuse w1" "pending w2 = pending w1" for w2
      using that w1 p1 keeps_plain [OF w1(1) that(1)] by (intro assms(3)) (simp_all add: keeps_def)
    have 3: "wp (bnd (readPin (next_pin w1) 0 (length bs)) (\<lambda>data. seq (releaseCritical a (next_pin w1) JNI_ABORT) (ret data)))
        Q E (pinned a bs (consume w1))"
      using a1 p1
      by (simp add: wp_simps find_pin_def pin_bytes_def heap_bytes_def slice_def)
        (auto intro!: 2 simp: keeps_def split: option.split)
    show ?thesis
      unfolding wp_bnd [of "getCritical a"] wp_getCritical using a1 1 3 by simp
  qed
  have rest: "wp (if f then throw BadAlloc else if (word_of_nat (length bs) :: jint) = 0 then ret [] else
     bnd (getCritical a) (\<lambda>raw. case raw of
       None \<Rightarrow> seq (throwCached OutOfMemoryError ''Failed to access array contents'') (ret [])
     | Some p \<Rightarrow> bnd (readPin p 0 (length bs)) (\<lambda>data. seq (releaseCritical a p JNI_ABORT) (ret data)))) Q E w1"
    if w1: "grows w0 w1" "keeps w w1" "pending w1 = pending w" for f w1
  proof -
    have a1: "objs w1 a = Some (JByteArr bs)" using keeps_objs [OF w1(2) a] .
    have zero: "(word_of_nat (length bs) :: jint) = 0 \<longleftrightarrow> bs = []"
      using jint_of_nat(2) [OF len] by (auto simp: jsize_def)
    show ?thesis
    proof (cases f)
      case True
      then show ?thesis using w1 by (simp add: wp_simps assms(4))
    next
      case False
      then show ?thesis
        using pinned [OF w1 a1] assms(3) [OF w1(1,2), of "[]"] w1(3) by (simp add: wp_simps zero)
    qed
  qed
  show ?thesis
    unfolding copyArray_def wp_bnd [of "getArrayLength a"]
  proof (rule grow_length [OF assms(1) a array_length.simps(1)])
    show "wp (bnd fault (\<lambda>f. if f then throw BadAlloc else if (word_of_nat (length bs) :: jint) = 0 then ret [] else
     bnd (getCritical a) (\<lambda>raw. case raw of
       None \<Rightarrow> seq (throwCached OutOfMemoryError ''Failed to access array contents'') (ret [])
     | Some p \<Rightarrow> bnd (readPin p 0 (jsize (word_of_nat (length bs)))) (\<lambda>data. seq (releaseCritical a p JNI_ABORT) (ret data))))) Q E w"
      unfolding jint_of_nat(2) [OF len] wp_bnd [of fault] by (rule grow_fault [OF assms(1)]) (rule rest)
  qed
qed

section \<open>Caches and training\<close>

text \<open>What the caches do behind the scenes: no message and no pending exception changes.\<close>

definition alive :: "'z jvm_scheme \<Rightarrow> bool" where
  "alive w \<longleftrightarrow> jvm_ok w \<and> pins w = []"

definition quiet :: "('s, 'd, 'm, 'b, 'z) process_scheme \<Rightarrow> ('s, 'd, 'm, 'b, 'z) process_scheme \<Rightarrow> bool" where
  "quiet w w' \<longleftrightarrow> grows w w' \<and> messages w' = messages w \<and> pending w' = pending w"

lemma alive_grows: "alive w \<Longrightarrow> grows w w"
  by (simp add: alive_def grows_refl)

lemma grows_alive: "grows w0 w \<Longrightarrow> alive w"
  by (simp add: alive_def grows_def)

lemma quiet_refl: "alive w \<Longrightarrow> quiet w w"
  by (simp add: quiet_def alive_grows)

lemma quiet_trans: "quiet w w' \<Longrightarrow> quiet w' w'' \<Longrightarrow> quiet w w''"
  unfolding quiet_def using grows_trans by auto

lemma quietD:
  assumes "quiet w w'"
  shows "alive w'" "messages w' = messages w" "pending w' = pending w"
    "serializers w t = Some e \<Longrightarrow> \<exists>e'. serializers w' t = Some e'"
    "explicitSerializers w k = Some s \<Longrightarrow> \<exists>s'. explicitSerializers w' k = Some s'"
    "deserializers w t = Some d \<Longrightarrow> \<exists>d'. deserializers w' t = Some d'"
    "objs w r = Some x \<Longrightarrow> objs w' r = Some x"
  using assms by (auto simp: quiet_def alive_def grows_def)

lemma quiet_consume: "alive w \<Longrightarrow> quiet w (consume w)"
  by (simp add: quiet_def alive_def grows_def jvm_ok_cong [where w' = "consume w" and w = w]) (simp add: consume_def)

lemma quiet_update:
  assumes "alive w"
  shows "quiet w (w\<lparr>descriptors := b\<rparr>)" "quiet w (w\<lparr>trainings := ts\<rparr>)"
    "quiet w (w\<lparr>serializers := (serializers w)(t \<mapsto> e)\<rparr>)"
    "quiet w (w\<lparr>explicitSerializers := (explicitSerializers w)(k \<mapsto> s)\<rparr>)"
    "quiet w (w\<lparr>deserializers := (deserializers w)(t \<mapsto> d)\<rparr>)"
  using assms by (auto simp: quiet_def alive_def grows_def jvm_ok_def)

lemma wp_needed [wp_simps]: "wp (needed f) Q E w = (case f w of None \<Rightarrow> False | Some a \<Rightarrow> Q a w)"
  by (simp add: wp_def needed_def split: option.split)

lemma wp_lift_exn [wp_simps]: "wp (lift_exn r) Q E w = (case r of Inl e \<Rightarrow> E e w | Inr a \<Rightarrow> Q a w)"
  by (simp add: wp_simps lift_exn_def split: sum.split)

lemma wp_trainingState [wp_simps]:
  "wp (trainingState t) Q E w = (case trainings w t of Some s \<Rightarrow> Q s w
     | None \<Rightarrow> Q initialTraining (w\<lparr>trainings := (trainings w)(t \<mapsto> initialTraining)\<rparr>))"
  by (simp add: wp_def trainingState_def split: option.split)

lemma wp_findDescriptor:
  assumes "\<And>d b. Q d (w\<lparr>descriptors := b\<rparr>)"
  shows "wp (findDescriptor P type) Q E w"
proof -
  have "Q d w" for d using assms [of d "descriptors w"] by simp
  then show ?thesis
    using assms by (simp add: wp_def findDescriptor_def Let_def split: prod.split option.split)
qed

lemma wp_newMessage:
  assumes "\<And>m b. Q m (w\<lparr>descriptors := b\<rparr>)" and "\<And>e b. E e (w\<lparr>descriptors := b\<rparr>)"
  shows "wp (newMessage P type) Q E w"
proof -
  have "E e w" for e using assms(2) [of e "descriptors w"] by simp
  then show ?thesis
    using assms by (auto simp: newMessage_def wp_simps intro!: wp_findDescriptor split: option.split)
qed

lemma silent_trained:
  assumes "alive w" and "serializers w type = Some e"
  shows "wp (applyTrainedCompressor P type) (\<lambda>_ w'. quiet w w') E w"
proof -
  have go: "wp (case fetchTrained (en_appliedGeneration e) st of None \<Rightarrow> ret ()
     | Some (bs, gen) \<Rightarrow> try_catch
        (bnd (loadedCompressor P bs) (\<lambda>k.
         case pl_setCompressor P k (en_serializer e) of
           (Some x, s) \<Rightarrow> seq (setEntry type (e\<lparr>en_serializer := s\<rparr>)) (throw x)
         | (None, s) \<Rightarrow>
             setEntry type (e\<lparr>en_serializer := configureSerializer P s, en_appliedGeneration := gen\<rparr>)))
        (\<lambda>_. ret ())) (\<lambda>_ w'. quiet w w') E w1" if "quiet w w1" for w1 st
  proof -
    have a: "alive w1" using quietD(1) [OF that] .
    have 1: "quiet w (consume w1)" by (rule quiet_trans [OF that quiet_consume [OF a]])
    have 2: "quiet w ((consume w1)\<lparr>serializers := (serializers w1)(type \<mapsto> e')\<rparr>)" for e'
      using quiet_trans [OF 1 quiet_update(3) [OF quietD(1) [OF 1], of type e']] by (simp add: consume_def)
    show ?thesis
      using that 1 2 by (auto simp: wp_simps loadedCompressor_def setEntry_def consume_def split: option.split prod.split)
  qed
  show ?thesis
    unfolding applyTrainedCompressor_def wp_bnd wp_trainingState wp_needed
    using assms go [OF quiet_refl [OF assms(1)]] go [OF quiet_update(2) [OF assms(1)]]
    by (auto split: option.split)
qed

definition anything :: "'a \<Rightarrow> 'w \<Rightarrow> bool" where
  "anything a w \<longleftrightarrow> True"

abbreviation quietly :: "(('s, 'd, 'm, 'b, 'z) process_scheme, 'a) act
    \<Rightarrow> ('a \<Rightarrow> ('s, 'd, 'm, 'b, 'z) process_scheme \<Rightarrow> bool) \<Rightarrow> ('s, 'd, 'm, 'b, 'z) process_scheme \<Rightarrow> bool" where
  "quietly m Q w \<equiv> wp m (\<lambda>a w'. quiet w w' \<and> Q a w') (\<lambda>_ w'. quiet w w') w"

lemma quietly_mono:
  assumes "quietly m Q w" and "\<And>a w'. quiet w w' \<Longrightarrow> Q a w' \<Longrightarrow> R a w'" and "\<And>e w'. quiet w w' \<Longrightarrow> E e w'"
  shows "wp m R E w"
  by (rule wp_mono [OF assms(1)]) (use assms(2,3) in blast)+

lemma quietly_bnd:
  assumes "quietly m Q w" and "\<And>a w'. quiet w w' \<Longrightarrow> Q a w' \<Longrightarrow> quietly (k a) R w'"
  shows "quietly (bnd m k) R w"
  unfolding wp_bnd
proof (rule quietly_mono [OF assms(1)])
  fix a w'
  assume q: "quiet w w'" and Q: "Q a w'"
  show "wp (k a) (\<lambda>a w'. quiet w w' \<and> R a w') (\<lambda>_ w'. quiet w w') w'"
    by (rule quietly_mono [OF assms(2) [OF q Q]]) (use quiet_trans [OF q] in blast)+
qed

lemma quietly_seq:
  assumes "quietly m Q w" and "\<And>a w'. quiet w w' \<Longrightarrow> Q a w' \<Longrightarrow> quietly k R w'"
  shows "quietly (seq m k) R w"
  unfolding seq_def by (rule quietly_bnd [OF assms])

lemma quietly_ret: "alive w \<Longrightarrow> Q a w \<Longrightarrow> quietly (ret a) Q w"
  by (simp add: wp_ret quiet_refl)

lemma quietly_throw: "alive w \<Longrightarrow> quietly (throw e) Q w"
  by (simp add: wp_throw quiet_refl)

lemma quietly_lift: "alive w \<Longrightarrow> quietly (lift_exn r) anything w"
  by (simp add: anything_def wp_lift_exn quiet_refl split: sum.split)

lemma quietly_new:
  assumes "alive w"
  shows "quietly (newSerializer P) anything w" "quietly (loadedCompressor P bs) anything w"
    "quietly (setCompressor P k s) anything w" "quietly (newMessage P type) anything w"
    "quietly (trainingState type) anything w"
  using quiet_consume [OF assms] quiet_refl [OF assms] quiet_update [OF assms]
  by (auto simp: anything_def wp_simps newSerializer_def loadedCompressor_def setCompressor_def intro!: wp_newMessage
      split: option.split prod.split)

lemma quietly_entry:
  assumes "alive w"
  shows "quietly (serializerEntryForType P type) (\<lambda>_ w'. \<exists>e. serializers w' type = Some e) w"
  unfolding serializerEntryForType_def
proof (rule quietly_bnd)
  show "quietly (gets (\<lambda>w. serializers w type)) (\<lambda>c w'. c = serializers w' type) w"
    using assms by (simp add: wp_gets quiet_refl)
  fix cached w1
  assume q: "quiet w w1" and c: "cached = serializers w1 type"
  show "quietly (seq (case cached of Some e \<Rightarrow> ret ()
       | None \<Rightarrow> bnd (newSerializer P) (\<lambda>s.
           setEntry type \<lparr>en_serializer = configureSerializer P s, en_appliedGeneration = 0\<rparr>))
     (applyTrainedCompressor P type)) (\<lambda>_ w'. \<exists>e. serializers w' type = Some e) w1"
  proof (rule quietly_seq [where Q = "\<lambda>_ w'. \<exists>e. serializers w' type = Some e"])
    have a: "alive w1" using quietD(1) [OF q] .
    then have "quietly (setEntry type e) (\<lambda>_ w'. \<exists>e. serializers w' type = Some e) w'" if "quiet w1 w'" for e w'
      using quiet_update(3) [OF quietD(1) [OF that]] by (simp add: setEntry_def wp_modify)
    then show "quietly (case cached of Some e \<Rightarrow> ret ()
       | None \<Rightarrow> bnd (newSerializer P) (\<lambda>s.
           setEntry type \<lparr>en_serializer = configureSerializer P s, en_appliedGeneration = 0\<rparr>))
       (\<lambda>_ w'. \<exists>e. serializers w' type = Some e) w1"
      using c a by (cases "serializers w1 type") (auto intro!: quietly_bnd [OF quietly_new(1)] quietly_ret)
    show "quietly (applyTrainedCompressor P type) (\<lambda>_ w'. \<exists>e. serializers w' type = Some e) w2"
      if q2: "quiet w1 w2" and e2: "\<exists>e. serializers w2 type = Some e" for w2
    proof -
      obtain e where e: "serializers w2 type = Some e" using e2 by blast
      show ?thesis
        by (rule wp_mono [OF silent_trained [OF quietD(1) [OF q2] e, where E = "\<lambda>_ _. False"]])
          (use quietD(4) e in auto)
    qed
  qed
qed

lemma quietly_deserializer:
  assumes "alive w"
  shows "quietly (deserializerForType P type) (\<lambda>_ w'. \<exists>d. deserializers w' type = Some d) w"
proof -
  have "quiet w ((consume w)\<lparr>deserializers := (deserializers w)(type \<mapsto> d)\<rparr>)" for d
    using quiet_trans [OF quiet_consume [OF assms] quiet_update(5) [OF quietD(1) [OF quiet_consume [OF assms]]]]
    by (simp add: consume_def)
  then show ?thesis
    using assms quiet_consume [OF assms] quiet_refl [OF assms]
    by (auto simp: deserializerForType_def wp_simps consume_def split: option.split)
qed

text \<open>A serializer always has a compressor.\<close>

definition owns_compressor :: "('s, 'd, 'm, 'k, 'i, 'b, 't) proto \<Rightarrow> bool" where
  "owns_compressor P \<longleftrightarrow> (\<forall>s. pl_getCompressor P s \<noteq> None)"

lemma quietly_trainSamples:
  assumes "owns_compressor P" and "alive w"
  shows "quietly (trainCompressorFromSamples P type xs least) anything w"
proof -
  have k: "quietly (needed (\<lambda>_. pl_getCompressor P s)) anything w'" if "alive w'" for s w'
    using assms(1) that by (auto simp: anything_def owns_compressor_def wp_needed quiet_refl split: option.split)
  show ?thesis
    unfolding trainCompressorFromSamples_def Let_def
    by (auto intro!: quietly_ret assms(2) anything_def [THEN iffD2] quietly_bnd [OF quietly_new(1)] quietly_bnd [OF quietly_new(4)]
        quietly_bnd [OF quietly_lift] quietly_bnd [OF k] dest: quietD(1))
qed

lemma quietly_try:
  assumes "quietly m Q w" and "\<And>e w'. quiet w w' \<Longrightarrow> quietly (h e) Q w'"
  shows "quietly (try_catch m h) Q w"
  unfolding wp_try_catch
proof (rule quietly_mono [OF assms(1)])
  fix e w'
  assume q: "quiet w w'"
  show "wp (h e) (\<lambda>a w'. quiet w w' \<and> Q a w') (\<lambda>_ w'. quiet w w') w'"
    by (rule quietly_mono [OF assms(2) [OF q]]) (use quiet_trans [OF q] in blast)+
qed simp

lemma quietly_setTraining: "alive w \<Longrightarrow> quietly (setTraining type st) anything w"
  by (simp add: anything_def setTraining_def wp_modify quiet_update)

end
