(* ===== verification/Proto_Props.thy ===== *)
theory Proto_Props
  imports Proto_Rules
begin

text \<open>
  What the conversions of the protobuf bridge do, on every schedule of failures and whatever the
  caches hold and the trainings result in.
\<close>

section \<open>Stages of a conversion\<close>

lemma quietly_augment:
  assumes P: "owns_compressor P" and w: "alive w" and e: "serializers w type = Some e"
    and payload: "\<And>w'. quiet w w' \<Longrightarrow> payload w' = (Ret data, w')"
  shows "quietly (maybeAugmentTraining P type inProto payload len) anything w"
proof -
  have entry: "quietly (needed (\<lambda>w. serializers w type)) anything w'" if q: "quiet w w'" for w'
  proof -
    obtain e' where "serializers w' type = Some e'" using quietD(4) [OF q e] by blast
    then show ?thesis using quietD(1) [OF q] by (simp add: wp_needed anything_def quiet_refl)
  qed
  have read: "quietly payload anything w'" if "quiet w w'" for w'
    using payload [OF that] quiet_refl [OF quietD(1) [OF that]] by (simp add: wp_def anything_def)
  have train: "quietly (applyTrainedCompressor P type) anything w'" if q: "quiet w w'" for w'
  proof -
    obtain e' where "serializers w' type = Some e'" using quietD(4) [OF q e] by blast
    from silent_trained [OF quietD(1) [OF q] this] show ?thesis by (simp add: anything_def)
  qed
  have pub: "quietly (let (publish, st) = publishTrained trained st in
      seq (setTraining type st) (if publish then applyTrainedCompressor P type else ret ())) anything w'"
    if "quiet w w'" for trained st w'
    unfolding Let_def split_beta
    apply (rule quietly_seq [OF quietly_setTraining [OF quietD(1) [OF that]]])
    apply (split if_split, intro conjI impI)
     apply (rule train, erule quiet_trans [OF that])
    apply (rule quietly_ret, erule quietD(1), simp add: anything_def)
    done
  have collect: "quietly (let (offered, st) = offerSample sample g st in
      seq (setTraining type st)
     (if of_applyExisting offered then applyTrainedCompressor P type else
      if of_samples offered = [] then ret () else
      bnd (try_catch (trainCompressorFromSamples P type (of_samples offered) (of_minSamples offered))
             (\<lambda>_. ret [])) (\<lambda>trained.
      bnd (trainingState type) (\<lambda>st.
      let (publish, st) = publishTrained trained st in
      seq (setTraining type st)
     (if publish then applyTrainedCompressor P type else ret ()))))) anything w'"
    if q: "quiet w w'" for sample g st w'
  proof -
    have t: "quietly (try_catch (trainCompressorFromSamples P type xs n) (\<lambda>_. ret [])) anything w''"
      if "alive w''" for xs n w''
      by (rule quietly_try [OF quietly_trainSamples [OF P that]])
        (simp add: quietly_ret anything_def quietD(1) wp_ret quiet_refl)
    show ?thesis
      unfolding Let_def split_beta
      apply (rule quietly_seq [OF quietly_setTraining [OF quietD(1) [OF q]]])
      apply (split if_split, intro conjI impI)
       apply (rule train, erule quiet_trans [OF q])
      apply (split if_split, intro conjI impI)
       apply (rule quietly_ret, erule quietD(1), simp add: anything_def)
      apply (rule quietly_bnd [OF t], erule quietD(1))
      apply (rule quietly_bnd [OF quietly_new(5)], erule quietD(1))
      apply (rule pub [unfolded Let_def split_beta])
      by (meson q quiet_trans)
  qed
  show ?thesis
    unfolding maybeAugmentTraining_def
    apply (split if_split, intro conjI impI)
     apply (rule quietly_ret [OF w], simp add: anything_def)
    apply (split if_split, intro conjI impI)
     apply (rule quietly_ret [OF w], simp add: anything_def)
    apply (rule quietly_bnd [OF read [OF quiet_refl [OF w]]])
    apply (rule quietly_bnd [OF quietly_new(5)], erule quietD(1))
    apply (rule quietly_bnd [OF entry], erule (1) quiet_trans)
    apply (rule collect)
    by (meson quiet_trans)
qed

text \<open>What it means that bytes are the encoding of a message, and that a message was read from bytes.\<close>

definition serialised :: "('s, 'd, 'm, 'k, 'i, 'b, 't) proto \<Rightarrow> protocol \<Rightarrow> 'm \<Rightarrow> bytes \<Rightarrow> bool" where
  "serialised P protocol m data = (case protocol of
      Proto \<Rightarrow> pl_toBytes P m = Some data
    | Zl \<Rightarrow> (\<exists>s. fst (pl_serialize P m s) = Inr data)
    | Json \<Rightarrow> pl_toJson P m = Inr data)"

definition decoded :: "('s, 'd, 'm, 'k, 'i, 'b, 't) proto \<Rightarrow> protocol \<Rightarrow> bytes \<Rightarrow> 'm \<Rightarrow> bool" where
  "decoded P protocol data m = (\<exists>m0. case protocol of
      Proto \<Rightarrow> if data = [] then m = pl_clear P m0 else pl_parse P data (pl_clear P m0) = (True, m)
    | Zl \<Rightarrow> (\<exists>d d'. pl_deserialize P data (pl_clear P m0) d = (None, m, d'))
    | Json \<Rightarrow> pl_fromJson P data (pl_clear P m0) = (None, m))"

lemma grows_messages:
  assumes "grows w0 w"
  shows "grows w0 (w\<lparr>messages := (messages w)(t \<mapsto> m)\<rparr>)"
    "grows w0 (w\<lparr>messages := (messages w)(t \<mapsto> m), deserializers := (deserializers w)(t \<mapsto> d)\<rparr>)"
    "grows w0 (w\<lparr>descriptors := b\<rparr>)"
proof -
  have ok: "jvm_ok (w\<lparr>messages := x\<rparr>)" "jvm_ok (w\<lparr>messages := x, deserializers := y\<rparr>)" "jvm_ok (w\<lparr>descriptors := b\<rparr>)" for x y
    using growsD(1) [OF assms] by (subst jvm_ok_cong [where w = w]; simp)+
  show "grows w0 (w\<lparr>messages := (messages w)(t \<mapsto> m)\<rparr>)"
    "grows w0 (w\<lparr>messages := (messages w)(t \<mapsto> m), deserializers := (deserializers w)(t \<mapsto> d)\<rparr>)"
    "grows w0 (w\<lparr>descriptors := b\<rparr>)"
    using assms by (simp_all add: grows_def ok) blast+
qed

lemma step_reusable:
  assumes "alive w" and "\<And>m0 w'. grows w w' \<Longrightarrow> messages w' type = Some (pl_clear P m0) \<Longrightarrow> pending w' = pending w \<Longrightarrow>
      serializers w' = serializers w \<Longrightarrow> explicitSerializers w' = explicitSerializers w \<Longrightarrow>
      deserializers w' = deserializers w \<Longrightarrow> Q (pl_clear P m0) w'"
    and "\<And>e w'. grows w w' \<Longrightarrow> E e w'"
  shows "wp (reusableMessage P type) Q E w"
proof -
  have g: "grows w w" using alive_grows [OF assms(1)] .
  have 1: "Q (pl_clear P m) (w\<lparr>messages := (messages w)(type \<mapsto> pl_clear P m)\<rparr>)" for m
    by (rule assms(2)) (simp_all add: grows_messages [OF g])
  have 2: "Q (pl_clear P m) (w\<lparr>descriptors := b, messages := (messages w)(type \<mapsto> pl_clear P m)\<rparr>)" for m b
    using grows_messages(1) [OF grows_messages(3) [OF g], of b type "pl_clear P m"] by (intro assms(2)) simp_all
  show ?thesis
    unfolding reusableMessage_def wp_bnd wp_gets setMessage_def
    using 1 2 by (auto simp: wp_simps intro!: wp_newMessage assms(3) grows_messages [OF g] split: option.split)
qed

lemma step_parsePayload:
  assumes "alive w" and "messages w type = Some (pl_clear P m0)" and "len = length data"
    and payload: "data \<noteq> [] \<Longrightarrow> payload w = (Ret data, w)"
    and "\<And>m w'. grows w w' \<Longrightarrow> messages w' type = Some m \<Longrightarrow> decoded P Proto data m \<Longrightarrow> pending w' = pending w \<Longrightarrow>
      serializers w' = serializers w \<Longrightarrow> explicitSerializers w' = explicitSerializers w \<Longrightarrow> Q True w'"
    and "\<And>w'. grows w w' \<Longrightarrow> pending w' \<noteq> None \<Longrightarrow> Q False w'"
  shows "wp (parsePayload P type payload len) Q E w"
proof (cases "data = []")
  case True
  then show ?thesis
    using assms(2,3) alive_grows [OF assms(1)]
    by (auto simp: parsePayload_def wp_simps decoded_def intro!: assms(5))
next
  case False
  obtain ok m where m: "pl_parse P data (pl_clear P m0) = (ok, m)" by fastforce
  let ?w = "w\<lparr>messages := (messages w)(type \<mapsto> m)\<rparr>"
  have g: "grows w ?w" by (rule grows_messages(1) [OF alive_grows [OF assms(1)]])
  have read: "wp payload Q' E w = Q' data w" for Q' using payload [OF False] by (simp add: wp_def)
  have "wp (if ok then ret True
      else seq (throwIllegalArgument ''Failed to parse protobuf payload'') (ret False)) Q E ?w"
  proof (cases ok)
    case True
    then show ?thesis using g m False by (auto simp: wp_simps decoded_def intro!: assms(5))
  next
    case False
    then show ?thesis using grow_throwIllegal(1) [OF g] assms(6) by (simp add: wp_simps)
  qed
  then show ?thesis
    using False assms(2,3) m by (simp add: parsePayload_def wp_simps read setMessage_def)
qed

lemma step_parseInto:
  assumes "alive w" and "messages w type = Some (pl_clear P m0)" and "deserializers w type = Some d" and "inProto \<noteq> Proto"
    and "\<And>m w'. grows w w' \<Longrightarrow> messages w' type = Some m \<Longrightarrow> decoded P inProto data m \<Longrightarrow> pending w' = pending w \<Longrightarrow>
      serializers w' = serializers w \<Longrightarrow> explicitSerializers w' = explicitSerializers w \<Longrightarrow> Q () w'"
    and "\<And>w'. grows w w' \<Longrightarrow> pending w' \<noteq> None \<Longrightarrow> Q () w'" and "\<And>e w'. grows w w' \<Longrightarrow> E e w'"
  shows "wp (parseIntoMessage P inProto data type) Q E w"
proof -
  obtain r m d' where r: "parseMessage P inProto data (pl_clear P m0) d = (r, m, d')" by (metis prod_cases3)
  let ?w = "w\<lparr>messages := (messages w)(type \<mapsto> m), deserializers := (deserializers w)(type \<mapsto> d')\<rparr>"
  have g: "grows w ?w" by (rule grows_messages(2) [OF alive_grows [OF assms(1)]])
  have "wp (reportParsed r) Q E ?w"
  proof (cases r)
    case Parsed
    then have "decoded P inProto data m"
      using r assms(4) by (cases inProto) (auto simp: parseMessage_def decoded_def split: prod.splits option.splits)
    then show ?thesis using Parsed g by (auto simp: reportParsed_def wp_simps intro!: assms(5))
  next
    case (Refused msg)
    then show ?thesis using grow_throwIllegal(1) [OF g] assms(6) by (simp add: reportParsed_def)
  next
    case (Failed e)
    then show ?thesis using assms(7) g by (simp add: reportParsed_def wp_simps)
  qed
  then show ?thesis using assms(2,3) r by (simp add: parseIntoMessage_def wp_simps)
qed

lemma step_serialise:
  assumes w: "alive w" and m: "messages w type = Some m" and s: "theSerializer loc w = Some s"
    and ok: "\<And>data w'. grows w w' \<Longrightarrow> serialised P outProto m data \<Longrightarrow> pending w' = pending w \<Longrightarrow> Q data w'"
    and refused: "\<And>w'. grows w w' \<Longrightarrow> pending w' \<noteq> None \<Longrightarrow> Q [] w'" and failed: "\<And>e w'. grows w w' \<Longrightarrow> E e w'"
  shows "wp (serialiseMessage P outProto type loc) Q E w"
proof -
  have g: "grows w w" using alive_grows [OF w] .
  have put: "grows w (putSerializer loc s' w)" "pending (putSerializer loc s' w) = pending w" for s'
    using w s quiet_update(3) [OF w] quiet_update(4) [OF w]
    by (auto simp: putSerializer_def theSerializer_def quiet_def split: ser_loc.split)
  have refuse: "wp (throwIllegalState msg) (\<lambda>_. wp (ret []) Q E) E w" for msg
    by (rule grow_throwIllegal(2) [OF g]) (simp add: wp_ret refused)
  obtain r s' where r: "pl_serialize P m s = (r, s')" by fastforce
  have "fst (pl_serialize P m s) = r" by (simp add: r)
  then have zl: "wp (lift_exn r) Q E (putSerializer loc s' w)" if "outProto = Zl"
    using put that by (cases r) (auto simp: wp_lift_exn serialised_def intro!: ok failed)
  show ?thesis
    unfolding serialiseMessage_def wp_bnd [of "needed _"] wp_needed m option.case
    by (cases outProto)
      (use g refuse zl r s in \<open>auto simp: wp_bnd wp_seq wp_ret wp_needed wp_modify serialised_def intro!: ok
          split: option.split sum.split\<close>)
qed

lemma step_makeArray:
  assumes w: "alive w"
    and made: "\<And>r w'. grows w w' \<Longrightarrow> r \<noteq> 0 \<Longrightarrow> next_ref w \<le> r \<Longrightarrow> pending w' = pending w \<Longrightarrow>
      objs w' r = Some (JByteArr (take (jsize (word_of_nat (length data))) data)) \<Longrightarrow> Q r w'"
    and failed: "\<And>w'. grows w w' \<Longrightarrow> pending w' \<noteq> None \<Longrightarrow> Q 0 w'"
  shows "wp (makeByteArray data) Q E w"
  unfolding makeByteArray_def Let_def wp_bnd
proof (rule grow_newByteArray [OF alive_grows [OF w]])
  let ?n = "word_of_nat (length data) :: jint"
  fix w'
  assume g: "grows w w'" "pending w' \<noteq> None"
  show "wp (if 0 = (0::nat) then seq (throwCached OutOfMemoryError ''Unable to allocate result array'') (ret 0)
      else seq (if data \<noteq> [] then setArrayRegion 0 (JByteArr (take (jsize ?n) data)) else ret ()) (ret 0)) Q E w'"
    using grow_throwCached [OF g(1)] failed by (simp add: wp_seq wp_ret)
next
  let ?n = "word_of_nat (length data) :: jint"
  fix r w'
  assume g: "grows w w'" and r: "\<not> jneg ?n" "r \<noteq> 0" "next_ref w \<le> r"
    "objs w' r = Some (JByteArr (replicate (jsize ?n) 0))" "pending w' = pending w"
  have n: "jsize ?n \<le> length data"
  proof -
    have "sint ?n \<le> uint ?n"
      unfolding sint_uint signed_take_bit_int_less_eq_self_iff
      by (rule order_trans [OF _ uint_ge_0]) simp
    then have "jsize ?n \<le> unat ?n" by (simp only: jsize_def unat_eq_nat_uint nat_mono)
    also have "\<dots> \<le> length data" by (simp add: unat_of_nat)
    finally show ?thesis .
  qed
  show "wp (if r = 0 then seq (throwCached OutOfMemoryError ''Unable to allocate result array'') (ret 0)
      else seq (if data \<noteq> [] then setArrayRegion r (JByteArr (take (jsize ?n) data)) else ret ()) (ret r)) Q E w'"
  proof (cases "data = []")
    case True
    then show ?thesis using g r by (auto simp: wp_seq wp_ret jsize_def intro!: made)
  next
    case False
    then show ?thesis
      using r n w by (auto simp: wp_seq wp_ret alive_def intro!: grow_setByteRegion [OF g r(3,4)] made)
  qed
qed

lemma quiet_grows: "quiet w w' \<Longrightarrow> grows w w'"
  by (simp add: quiet_def)

lemma step_choose:
  fixes P :: "('s, 'd, 'm, 'k, 'i, 'b, 't) proto" and w :: "('s, 'd, 'm, 'b, 'z) process_scheme"
  assumes w: "alive w" and cb: "compressorBytes \<noteq> 0 \<Longrightarrow> objs w compressorBytes = Some (JByteArr bs)"
    and found: "\<And>loc s w'. grows w w' \<Longrightarrow> theSerializer loc w' = Some s \<Longrightarrow>
      (compressorBytes = 0 \<Longrightarrow> loc = OfType type) \<Longrightarrow> Q (Some loc) w'"
    and none: "\<And>w'. grows w w' \<Longrightarrow> pending w' \<noteq> None \<Longrightarrow> Q None w'" and failed: "\<And>e w'. grows w w' \<Longrightarrow> E e w'"
  shows "wp (chooseSerializer P type compressorBytes) Q E w"
proof (cases "compressorBytes = 0")
  case True
  show ?thesis
    unfolding chooseSerializer_def using True
    by (auto simp: wp_seq wp_ret theSerializer_def intro!: quietly_mono [OF quietly_entry [OF w]] found failed quiet_grows)
next
  case False
  have new: "quietly (explicitSerializer P data) anything w'" if "alive w'"
    for data and w' :: "('s, 'd, 'm, 'b, 'z) process_scheme"
    unfolding explicitSerializer_def
    apply (rule quietly_bnd [OF quietly_new(1) [OF that]])
    apply (rule quietly_bnd [OF quietly_new(2)], erule quietD(1))
    apply (rule quietly_bnd [OF quietly_new(3)], erule quietD(1))
    apply (rule quietly_ret, erule quietD(1), simp add: anything_def)
    done
  have put: "Q (Some (OfKey k)) (w'\<lparr>explicitSerializers := (explicitSerializers w')(k \<mapsto> s)\<rparr>)"
    if "grows w w'" for k s w'
    using grows_trans [OF that quiet_grows [OF quiet_update(4) [OF grows_alive [OF that]]]]
    by (rule found) (auto simp: theSerializer_def False)
  have fin: "wp exceptionCheck (\<lambda>exn. wp (ret (if exn then None else Some (OfKey k))) Q E) E w'"
    if g: "grows w w'" and k: "explicitSerializers w' k = Some s" for k s w'
    by (rule grow_check [OF g]) (use found [OF g, of "OfKey k" s] none [OF g] k False in \<open>auto simp: wp_ret theSerializer_def\<close>)
  have key: "wp (bnd (gets (\<lambda>w. explicitSerializers w k)) (\<lambda>cached.
      seq (case cached of
          Some s \<Rightarrow> ret ()
        | None \<Rightarrow> bnd (explicitSerializer P data) (\<lambda>s.
            modify (\<lambda>w. w\<lparr>explicitSerializers := (explicitSerializers w)(k \<mapsto> s)\<rparr>)))
        (ret (Some (OfKey k))))) (\<lambda>loc. wp (bnd exceptionCheck (\<lambda>exn. ret (if exn then None else loc))) Q E) E w'"
    if g: "grows w w'" for k data w'
  proof -
    have a: "alive w'" using grows_alive [OF g] .
    have made: "wp (modify (\<lambda>w. w\<lparr>explicitSerializers := (explicitSerializers w)(k \<mapsto> s)\<rparr>))
        (\<lambda>_. wp (ret (Some (OfKey k))) (\<lambda>loc. wp exceptionCheck (\<lambda>exn. wp (ret (if exn then None else loc)) Q E) E) E) E w''"
      if q: "quiet w' w''" for s w''
      unfolding wp_modify wp_ret [of "Some _"]
      by (rule fin [of _ _ s]) (use grows_trans [OF g quiet_grows [OF quiet_trans [OF q quiet_update(4) [OF quietD(1) [OF q]]]]] in auto)
    have "grows w w''" if "quiet w' w''" for w''
      by (rule grows_trans [OF g quiet_grows [OF that]])
    then show ?thesis
      unfolding wp_bnd wp_gets wp_seq
      by (cases "explicitSerializers w' k")
        (use made in \<open>auto simp: wp_bnd wp_ret [of "()"] wp_ret [of "Some _"] intro!: quietly_mono [OF new [OF a]] failed fin [OF g]\<close>)
  qed
  show ?thesis
    unfolding chooseSerializer_def serializerForExplicitCompressor_def Let_def
    apply (simp only: False if_False not_False_eq_True if_True wp_bnd [of "bnd _ _"])
    apply (simp only: wp_bnd [of "copyArray _"])
    apply (rule grow_copyArray [OF alive_grows [OF w] cb [OF False]])
     apply (simp only: wp_bnd [of exceptionCheck])
     apply (rule grow_check, assumption)
     apply (split if_split, intro conjI impI)
      apply (simp only: wp_ret wp_bnd [of exceptionCheck])
      apply (rule grow_check, assumption)
      apply (simp add: none wp_ret)
     apply (erule key)
    apply (erule failed)
    done
qed

section \<open>Conversions\<close>

lemma step_convertMessage:
  assumes P: "owns_compressor P" and w: "alive w" and m: "messages w type = Some m"
    and s: "theSerializer loc w = Some s" and loc: "compressorBytes = 0 \<Longrightarrow> loc = OfType type"
    and payload: "\<And>w'. quiet w w' \<Longrightarrow> payload w' = (Ret data, w')"
    and ok: "\<And>out w'. grows w w' \<Longrightarrow> serialised P outProto m out \<Longrightarrow> Q (Some out) w'"
    and none: "\<And>w'. grows w w' \<Longrightarrow> pending w' \<noteq> None \<Longrightarrow> Q None w'" and failed: "\<And>e w'. grows w w' \<Longrightarrow> E e w'"
  shows "wp (convertMessage P inProto outProto payload len compressorBytes type loc) Q E w"
proof -
  have rest: "wp (bnd (serialiseMessage P outProto type loc) (\<lambda>result.
     bnd exceptionCheck (\<lambda>exn. ret (if exn then None else Some result)))) Q E w1" if q: "quiet w w1" for w1
  proof -
    have m1: "messages w1 type = Some m" using quietD(2) [OF q] m by simp
    obtain s1 where s1: "theSerializer loc w1 = Some s1"
      using s quietD(4,5) [OF q] by (cases loc) (fastforce simp: theSerializer_def)+
    have g: "grows w w'" if "grows w1 w'" for w' by (rule grows_trans [OF quiet_grows [OF q] that])
    show ?thesis
      unfolding wp_bnd
    proof (rule step_serialise [OF quietD(1) [OF q] m1 s1])
      show "wp exceptionCheck (\<lambda>exn. wp (ret (if exn then None else Some out)) Q E) E w'"
        if "grows w1 w'" "serialised P outProto m out" for out w'
        by (rule grow_check [OF that(1)]) (use ok none g [OF that(1)] that(2) in \<open>auto simp: wp_ret\<close>)
      show "wp exceptionCheck (\<lambda>exn. wp (ret (if exn then None else Some [])) Q E) E w'"
        if "grows w1 w'" "pending w' \<noteq> None" for w'
        by (rule grow_check [OF that(1)]) (use none g [OF that(1)] that(2) in \<open>auto simp: wp_ret\<close>)
    qed (use failed g in blast)
  qed
  show ?thesis
  proof (cases "compressorBytes = 0")
    case True
    then obtain e where "serializers w type = Some e" using s loc by (auto simp: theSerializer_def)
    note augment = quietly_augment [OF P w this payload]
    show ?thesis
      unfolding convertMessage_def wp_seq if_P [OF True]
      by (rule quietly_mono [OF augment]) (use rest failed quiet_grows in blast)+
  next
    case False
    then show ?thesis
      unfolding convertMessage_def wp_seq by (simp add: wp_ret rest quiet_refl w)
  qed
qed

text \<open>The array a conversion returns.\<close>

definition converted :: "('s, 'd, 'm, 'k, 'i, 'b, 't) proto \<Rightarrow> protocol \<Rightarrow> protocol \<Rightarrow> bytes \<Rightarrow> bytes \<Rightarrow> bool" where
  "converted P inProto outProto data out \<longleftrightarrow> (\<exists>m. decoded P inProto data m \<and> serialised P outProto m out)"

definition converts :: "('s, 'd, 'm, 'k, 'i, 'b, 't) proto \<Rightarrow> protocol \<Rightarrow> protocol \<Rightarrow> bytes
    \<Rightarrow> ('s, 'd, 'm, 'b, 'z) process_scheme \<Rightarrow> nat \<Rightarrow> ('s, 'd, 'm, 'b, 'z) process_scheme \<Rightarrow> bool" where
  "converts P inProto outProto data w r w' \<longleftrightarrow> grows w w' \<and>
     (if r = 0 then pending w' \<noteq> None
      else next_ref w \<le> r \<and> (\<exists>out. converted P inProto outProto data out
        \<and> objs w' r = Some (JByteArr (take (jsize (word_of_nat (length out))) out))))"

lemma step_makeConverted:
  assumes g: "grows w w1" and c: "converted P inProto outProto data out"
  shows "wp (makeByteArray out) (converts P inProto outProto data w) E w1"
proof (rule step_makeArray [OF grows_alive [OF g]])
  fix r w'
  assume "grows w1 w'" "r \<noteq> 0" "next_ref w1 \<le> r"
    "objs w' r = Some (JByteArr (take (jsize (word_of_nat (length out))) out))"
  moreover have "next_ref w \<le> next_ref w1" using g by (simp add: grows_def)
  ultimately show "converts P inProto outProto data w r w'"
    using c grows_trans [OF g] by (auto simp: converts_def)
qed (use grows_trans [OF g] in \<open>auto simp: converts_def\<close>)

lemma step_convertPayload:
  assumes P: "owns_compressor P" and w: "alive w"
    and cb: "compressorBytes \<noteq> 0 \<Longrightarrow> objs w compressorBytes = Some (JByteArr bs)"
    and payload: "\<And>w'. grows w w' \<Longrightarrow> payload w' = (Ret data, w')" and len: "len = length data"
  shows "wp (convertPayload P inProto outProto payload len compressorBytes type)
    (converts P inProto outProto data w) (\<lambda>_ _. False) w"
proof -
  let ?Q = "converts P inProto outProto data w"
  let ?E = "\<lambda>e. wp (seq (throwIllegalState (what e)) (ret 0)) ?Q (\<lambda>_ _. False)"
  have failed: "?E e w'" if "grows w w'" for e w'
    unfolding wp_seq by (rule grow_throwIllegal(2) [OF that]) (simp add: wp_ret converts_def)
  have none: "?Q 0 w'" if "grows w w'" "pending w' \<noteq> None" for w'
    using that by (simp add: converts_def)
  have message: "wp (bnd (convertMessage P inProto outProto payload len compressorBytes type loc) (\<lambda>result. case result of
        None \<Rightarrow> ret 0 | Some data \<Rightarrow> makeByteArray data)) ?Q ?E w1"
    if g: "grows w w1" and m: "messages w1 type = Some m" "decoded P inProto data m" and s: "theSerializer loc w1 = Some s"
      and loc: "compressorBytes = 0 \<Longrightarrow> loc = OfType type" for w1 m loc s
    unfolding wp_bnd
  proof (rule step_convertMessage [OF P grows_alive [OF g] m(1) s loc])
    show "payload w' = (Ret data, w')" if "quiet w1 w'" for w'
      by (rule payload [OF grows_trans [OF g quiet_grows [OF that]]])
    show "wp (case Some out of None \<Rightarrow> ret 0 | Some data \<Rightarrow> makeByteArray data) ?Q ?E w'"
      if "grows w1 w'" "serialised P outProto m out" for out w'
      unfolding option.case
      by (rule step_makeConverted [OF grows_trans [OF g that(1)]]) (use m(2) that(2) in \<open>auto simp: converted_def\<close>)
    show "wp (case None of None \<Rightarrow> ret 0 | Some data \<Rightarrow> makeByteArray data) ?Q ?E w'"
      if "grows w1 w'" "pending w' \<noteq> None" for w'
      unfolding option.case wp_ret by (rule none [OF grows_trans [OF g that(1)] that(2)])
    show "?E e w'" if "grows w1 w'" for e w' by (rule failed [OF grows_trans [OF g that]])
  qed
  have parsed: "wp (bnd (if inProto = Proto then parsePayload P type payload len
           else bnd payload (\<lambda>bs. seq (parseIntoMessage P inProto bs type)
             (bnd exceptionCheck (\<lambda>exn. ret (\<not> exn))))) (\<lambda>ok. if \<not> ok then ret 0 else
      bnd (convertMessage P inProto outProto payload len compressorBytes type loc) (\<lambda>result. case result of
        None \<Rightarrow> ret 0
      | Some data \<Rightarrow> makeByteArray data))) ?Q ?E w1"
    if g: "grows w w1" and m: "messages w1 type = Some (pl_clear P m0)" and d: "deserializers w1 type = Some d"
      and s: "theSerializer loc w1 = Some s"
      and loc: "compressorBytes = 0 \<Longrightarrow> loc = OfType type" for w1 m0 d loc s
  proof -
    have same: "theSerializer loc w2 = Some s"
      if "serializers w2 = serializers w1" "explicitSerializers w2 = explicitSerializers w1" for w2
      using s that by (simp add: theSerializer_def split: ser_loc.splits)
    show ?thesis
    proof (cases "inProto = Proto")
      case True
      show ?thesis
        unfolding if_P [OF True] wp_bnd [of "parsePayload _ _ _ _"]
      proof (rule step_parsePayload [OF grows_alive [OF g] m len])
        show "payload w1 = (Ret data, w1)" by (rule payload [OF g])
        fix m w2
        assume g2: "grows w1 w2" and m2: "messages w2 type = Some m" "decoded P Proto data m"
          and s2: "serializers w2 = serializers w1" "explicitSerializers w2 = explicitSerializers w1"
        have "decoded P inProto data m" using m2(2) True by simp
        from message [OF grows_trans [OF g g2] m2(1) this same [OF s2] loc]
        show "wp (if \<not> True then ret 0 else bnd (convertMessage P inProto outProto payload len compressorBytes type loc)
           (\<lambda>result. case result of None \<Rightarrow> ret 0 | Some data \<Rightarrow> makeByteArray data)) ?Q ?E w2" by simp
      qed (use none grows_trans [OF g] in \<open>auto simp: wp_ret\<close>)
    next
      case False
      have check: "wp exceptionCheck (\<lambda>exn. wp (ret (\<not> exn)) (\<lambda>ok. wp (if \<not> ok then ret 0 else
        bnd (convertMessage P inProto outProto payload len compressorBytes type loc)
           (\<lambda>result. case result of None \<Rightarrow> ret 0 | Some data \<Rightarrow> makeByteArray data)) ?Q ?E) ?E) ?E w2"
        if g2: "grows w1 w2" and m2: "pending w2 = None \<Longrightarrow> messages w2 type = Some m \<and> decoded P inProto data m
          \<and> serializers w2 = serializers w1 \<and> explicitSerializers w2 = explicitSerializers w1" for m w2
      proof (rule grow_check [OF g2])
        show "wp (ret (\<not> (pending w2 \<noteq> None))) (\<lambda>ok. wp (if \<not> ok then ret 0 else
          bnd (convertMessage P inProto outProto payload len compressorBytes type loc)
           (\<lambda>result. case result of None \<Rightarrow> ret 0 | Some data \<Rightarrow> makeByteArray data)) ?Q ?E) ?E w2"
        proof (cases "pending w2")
          case None
          with m2 message [OF grows_trans [OF g g2] _ _ same loc] show ?thesis by (simp add: wp_ret)
        next
          case (Some x)
          then show ?thesis using none [OF grows_trans [OF g g2]] by (simp add: wp_ret)
        qed
      qed
      have read: "wp payload Q E w1 = Q data w1" for Q E using payload [OF g] by (simp add: wp_def)
      show ?thesis
        unfolding if_not_P [OF False] wp_bnd [of "bnd payload _"] wp_bnd [of payload] read
          wp_seq [of "parseIntoMessage _ _ _ _"] wp_bnd [of exceptionCheck]
      proof (rule step_parseInto [OF grows_alive [OF g] m d False])
        show "?E e w'" if "grows w1 w'" for e w' by (rule failed [OF grows_trans [OF g that]])
      qed (rule check; simp)+
    qed
  qed
  have chosen: "wp (seq (deserializerForType P type)
     (bnd (reusableMessage P type) (\<lambda>_.
      bnd (if inProto = Proto then parsePayload P type payload len
           else bnd payload (\<lambda>bs. seq (parseIntoMessage P inProto bs type)
             (bnd exceptionCheck (\<lambda>exn. ret (\<not> exn))))) (\<lambda>ok. if \<not> ok then ret 0 else
      bnd (convertMessage P inProto outProto payload len compressorBytes type loc) (\<lambda>result. case result of
        None \<Rightarrow> ret 0
      | Some data \<Rightarrow> makeByteArray data))))) ?Q ?E w1"
    if g: "grows w w1" and s: "theSerializer loc w1 = Some s" and loc: "compressorBytes = 0 \<Longrightarrow> loc = OfType type" for w1 loc s
    unfolding wp_seq [of "deserializerForType _ _"]
  proof (rule quietly_mono [OF quietly_deserializer [OF grows_alive [OF g]]])
    show "?E e w'" if "quiet w1 w'" for e w' by (rule failed [OF grows_trans [OF g quiet_grows [OF that]]])
    fix w2
    assume q: "quiet w1 w2" and d: "\<exists>d. deserializers w2 type = Some d"
    obtain d where d: "deserializers w2 type = Some d" using d by blast
    obtain s2 where s2: "theSerializer loc w2 = Some s2"
      using s quietD(4,5) [OF q] by (cases loc) (fastforce simp: theSerializer_def)+
    have g2: "grows w w2" by (rule grows_trans [OF g quiet_grows [OF q]])
    show "wp (bnd (reusableMessage P type) (\<lambda>_.
      bnd (if inProto = Proto then parsePayload P type payload len
           else bnd payload (\<lambda>bs. seq (parseIntoMessage P inProto bs type)
             (bnd exceptionCheck (\<lambda>exn. ret (\<not> exn))))) (\<lambda>ok. if \<not> ok then ret 0 else
      bnd (convertMessage P inProto outProto payload len compressorBytes type loc) (\<lambda>result. case result of
        None \<Rightarrow> ret 0
      | Some data \<Rightarrow> makeByteArray data)))) ?Q ?E w2"
      unfolding wp_bnd [of "reusableMessage _ _"]
    proof (rule step_reusable [OF quietD(1) [OF q]])
      show "?E e w'" if "grows w2 w'" for e w' by (rule failed [OF grows_trans [OF g2 that]])
      fix m0 w3
      assume m: "grows w2 w3" "messages w3 type = Some (pl_clear P m0)" "serializers w3 = serializers w2"
        "explicitSerializers w3 = explicitSerializers w2" "deserializers w3 = deserializers w2"
      show "wp (bnd (if inProto = Proto then parsePayload P type payload len
           else bnd payload (\<lambda>bs. seq (parseIntoMessage P inProto bs type)
             (bnd exceptionCheck (\<lambda>exn. ret (\<not> exn))))) (\<lambda>ok. if \<not> ok then ret 0 else
      bnd (convertMessage P inProto outProto payload len compressorBytes type loc) (\<lambda>result. case result of
        None \<Rightarrow> ret 0
      | Some data \<Rightarrow> makeByteArray data))) ?Q ?E w3"
        using s2 d m(3-5)
        by (intro parsed [OF grows_trans [OF g2 m(1)] m(2) _ _ loc]) (auto simp: theSerializer_def split: ser_loc.splits)
    qed
  qed
  show ?thesis
    unfolding convertPayload_def wp_try_catch wp_bnd [of "chooseSerializer _ _ _"]
  proof (rule step_choose [OF w cb])
    show "wp (case None of None \<Rightarrow> ret 0 | Some loc \<Rightarrow> k loc) ?Q ?E w'"
      if "grows w w'" "pending w' \<noteq> None" for k w'
      using none [OF that] by (simp add: wp_ret)
  qed (use chosen failed in simp_all)
qed

section \<open>Slices of arrays\<close>

definition protocolOf :: "jint \<Rightarrow> protocol option" where
  "protocolOf i = (if i = 0 then Some Proto else if i = 1 then Some Zl else if i = 2 then Some Json else None)"

lemma step_parseProtocol:
  assumes g: "grows w0 w" and "\<And>p. protocolOf i = Some p \<Longrightarrow> wp (k p) Q E w"
    and "\<And>w'. grows w0 w' \<Longrightarrow> pending w' \<noteq> None \<Longrightarrow> Q r w'"
  shows "wp (checked (parseProtocol i) r k) Q E w"
proof (cases "protocolOf i")
  case None
  then have eq: "parseProtocol i = seq (throwIllegalArgument ''Unsupported protocol specified'') (ret Proto)"
    by (auto simp: parseProtocol_def protocolOf_def split: if_splits)
  show ?thesis
    unfolding checked_def eq wp_bnd
    by (auto simp: wp_seq wp_ret intro!: grow_throwIllegal(1) [OF g] grow_check assms(3))
next
  case (Some p)
  then have eq: "parseProtocol i = ret p" by (auto simp: parseProtocol_def protocolOf_def split: if_splits)
  show ?thesis
    unfolding checked_def eq wp_bnd
    using assms(2) [OF Some] assms(3) [OF g] by (auto simp: wp_ret intro!: grow_check [OF g])
qed

definition typeOf :: "string \<Rightarrow> string" where
  "typeOf s = takeWhile (\<lambda>c. c \<noteq> CHR 0x00) s"

lemma step_messageType:
  assumes g: "grows w0 w" and t: "messageType \<noteq> 0 \<Longrightarrow> objs w messageType = Some (JString s)"
    and ok: "\<And>w'. grows w0 w' \<Longrightarrow> keeps w w' \<Longrightarrow> pending w' = None \<Longrightarrow> messageType \<noteq> 0 \<Longrightarrow> typeOf s \<noteq> [] \<Longrightarrow>
      wp (k (typeOf s)) Q E w'"
    and bad: "\<And>w'. grows w0 w' \<Longrightarrow> pending w' \<noteq> None \<Longrightarrow> Q r w'"
  shows "wp (checked (requireMessageType messageType) r k) Q E w"
proof (cases "messageType = 0")
  case True
  then show ?thesis
    unfolding checked_def requireMessageType_def wp_bnd
    by (auto simp: wp_seq wp_ret intro!: grow_throwCached [OF g] grow_check bad)
next
  case False
  let ?w = "consume w"
  have kc: "keeps w ?w" by (simp add: keeps_def)
  have g1: "grows w0 ?w" by (rule keeps_plain [OF g kc]) simp_all
  have chars: "wp (getStringUTFChars messageType) R E' w = R (if next_fault w then None else Some s) ?w" for R E'
    using t [OF False] growsD(2) [OF g] by (simp add: wp_getStringUTFChars)
  have refuse: "wp (throwIllegalArgument msg) (\<lambda>_. wp (ret []) (\<lambda>a. wp exceptionCheck (\<lambda>exn. wp (if exn then ret r else k a) Q E) E) E) E ?w"
    "wp (throwCached c msg) (\<lambda>_. wp (ret []) (\<lambda>a. wp exceptionCheck (\<lambda>exn. wp (if exn then ret r else k a) Q E) E) E) E ?w" for c msg
    by (auto simp: wp_ret intro!: grow_throwIllegal(1) [OF g1] grow_throwCached [OF g1] grow_check bad)
  have accept: "wp exceptionCheck (\<lambda>exn. wp (if exn then ret r else k (typeOf s)) Q E) E ?w" if "typeOf s \<noteq> []"
    by (rule grow_check [OF g1])
      (cases "pending ?w = None", use ok [OF g1 kc _ False that] bad [OF g1] in \<open>simp_all add: wp_ret\<close>)
  show ?thesis
    unfolding checked_def requireMessageType_def wp_bnd Let_def if_not_P [OF False] chars
    using refuse accept unfolding typeOf_def by (auto simp: wp_seq wp_ret)
qed

text \<open>What holds after a call on every path: no pin is left and the old Java objects are as they were.\<close>

definition returned :: "'z jvm_scheme \<Rightarrow> 'z jvm_scheme \<Rightarrow> bool" where
  "returned w w' \<longleftrightarrow> jvm_ok w' \<and> pins w' = [] \<and> (\<forall>r x. objs w r = Some x \<longrightarrow> objs w' r = Some x)"

lemma grows_returned: "grows w w' \<Longrightarrow> returned w w'"
  by (simp add: grows_def returned_def)

text \<open>The copy of the slice: \<open>bad_alloc\<close> is reported while the array is still pinned.\<close>

lemma step_slice:
  fixes k :: "bytes \<Rightarrow> (('s, 'd, 'm, 'b, 'z) process_scheme, nat) act"
  assumes g: "grows w w1" and a: "objs w1 payload = Some (JByteArr bs)" and range: "in_range offset len (length bs)"
    and k: "\<And>w'. grows w w' \<Longrightarrow> keeps w1 w' \<Longrightarrow> wp (k (slice bs (jsize offset) (jsize len))) Q E w'"
    and bad: "\<And>w'. returned w w' \<Longrightarrow> pending w' \<noteq> None \<Longrightarrow> Q 0 w'"
  shows "wp (bnd (getCritical payload) (\<lambda>raw. case raw of
        None \<Rightarrow> seq (throwCached OutOfMemoryError msg) (ret 0)
      | Some p \<Rightarrow>
      bnd fault (\<lambda>f. if f then
        seq (throwIllegalState (what BadAlloc)) (seq (releaseCritical payload p JNI_ABORT) (ret 0)) else
      bnd (readPin p (jsize offset) (jsize len)) (\<lambda>input.
      seq (releaseCritical payload p JNI_ABORT)
     (bnd exceptionCheck (\<lambda>exn. if exn then ret 0 else k input)))))) Q E w1"
proof -
  have p: "pins w1 = []" using growsD(2) [OF g] .
  have kept: "Q 0 w'" if "objs w' = objs w1" "next_ref w' = next_ref w1" "pins w' = []" "pending w' \<noteq> None" for w'
    using that g jvm_ok_cong [OF that(1,2)] by (intro bad) (auto simp: returned_def grows_def)
  have c: "grows w (consume w1)" by (rule keeps_plain [OF g]) (simp_all add: keeps_def)
  have fail1: "wp (seq (throwCached OutOfMemoryError msg) (ret 0)) Q E (consume w1)"
    unfolding wp_seq by (rule grow_throwCached [OF c]) (auto simp: wp_ret intro!: bad grows_returned)
  let ?w = "consume (pinned payload bs (consume w1))"
  have fail2: "wp (seq (throwIllegalState m) (seq (releaseCritical payload (next_pin w1) JNI_ABORT) (ret 0))) Q E ?w" for m
    using p by (auto simp: throw_defs throwNew_def throwCached_def ref_of_def ensureExceptionClass_def
        makeGlobalClassRef_def wp_simps find_pin_def touch_def split: option.split intro!: kept)
  have done1: "wp (bnd exceptionCheck (\<lambda>exn. if exn then ret 0 else k (slice bs (jsize offset) (jsize len)))) Q E w2"
    if w2: "keeps w1 w2" "objs w2 = objs w1" "next_ref w2 = next_ref w1" "pins w2 = []" "misuse w2 = misuse w1" for w2
  proof -
    have g2: "grows w w2" using w2 p by (intro keeps_plain [OF g]) simp_all
    show ?thesis
      unfolding wp_bnd
      by (rule grow_check [OF g2]) (use k [OF g2 w2(1)] bad [OF grows_returned [OF g2]] in \<open>auto simp: wp_ret\<close>)
  qed
  have ok: "wp (bnd (readPin (next_pin w1) (jsize offset) (jsize len)) (\<lambda>input.
      seq (releaseCritical payload (next_pin w1) JNI_ABORT)
     (bnd exceptionCheck (\<lambda>exn. if exn then ret 0 else k input)))) Q E ?w"
  proof -
    have read: "wp (readPin (next_pin w1) (jsize offset) (jsize len)) Q' E' ?w = Q' (slice bs (jsize offset) (jsize len)) ?w"
      for Q' :: "bytes \<Rightarrow> ('s, 'd, 'm, 'b, 'z) process_scheme \<Rightarrow> bool" and E'
      using a range by (simp add: wp_readPin find_pin_def pin_bytes_def heap_bytes_def in_range_def split: option.split)
    have release: "\<exists>w2. keeps w1 w2 \<and> objs w2 = objs w1 \<and> next_ref w2 = next_ref w1 \<and> pins w2 = [] \<and> misuse w2 = misuse w1
        \<and> wp (releaseCritical payload (next_pin w1) JNI_ABORT) Q' E' ?w = Q' () w2"
      for Q' :: "unit \<Rightarrow> ('s, 'd, 'm, 'b, 'z) process_scheme \<Rightarrow> bool" and E'
      using p by (intro exI [of _ "?w\<lparr>pins := [], objs := objs w1\<rparr>"])
        (simp add: wp_releaseCritical find_pin_def keeps_def split: option.split)
    show ?thesis
      unfolding wp_bnd [of "readPin _ _ _"] read wp_seq [of "releaseCritical _ _ _"]
      using release [of "\<lambda>_. wp (bnd exceptionCheck (\<lambda>exn. if exn then ret 0 else k (slice bs (jsize offset) (jsize len)))) Q E" E]
        done1 by auto
  qed
  show ?thesis
    unfolding wp_bnd [of "getCritical _"] wp_getCritical a option.case jobj.case
    using fail1 fail2 ok by (simp add: wp_bnd [of fault] wp_fault)
qed

lemma sum_fits:
  assumes "\<not> jneg offset" "\<not> jneg len" and "jsize offset + jsize len < 2147483648" and "n \<le> 2147483647"
  shows "(sint offset > sint (word_of_nat n :: jint) \<or> sint (offset + len) > sint (word_of_nat n :: jint))
    \<longleftrightarrow> \<not> in_range offset len n"
proof -
  have "0 \<le> sint offset" "0 \<le> sint len" using assms(1,2) by (auto simp: jneg_def)
  moreover from this have "sint (offset + len) = sint offset + sint len"
    using assms(3) by (simp add: sint_word_ariths signed_take_bit_int_eq_self jsize_def nat_add_distrib [symmetric])
  ultimately show ?thesis
    using assms(4) by (auto simp: in_range_def jneg_def jsize_def)
qed

definition slice_result :: "('s, 'd, 'm, 'k, 'i, 'b, 't) proto \<Rightarrow> jint \<Rightarrow> jint \<Rightarrow> jint \<Rightarrow> jint \<Rightarrow> bytes
    \<Rightarrow> ('s, 'd, 'm, 'b, 'z) process_scheme \<Rightarrow> nat \<Rightarrow> ('s, 'd, 'm, 'b, 'z) process_scheme \<Rightarrow> bool" where
  "slice_result P offset len inputProtocol outputProtocol bs w r w' \<longleftrightarrow>
     (if r = 0 then returned w w' \<and> pending w' \<noteq> None
      else in_range offset len (length bs) \<and> (\<exists>p q. protocolOf inputProtocol = Some p \<and> protocolOf outputProtocol = Some q
        \<and> converts P p q (slice bs (jsize offset) (jsize len)) w r w'))"

lemma wp_convertSlice:
  assumes P: "owns_compressor P" and w: "alive w"
    and payload: "payload \<noteq> 0 \<Longrightarrow> objs w payload = Some (JByteArr bs)"
    and type: "messageType \<noteq> 0 \<Longrightarrow> objs w messageType = Some (JString s)"
    and cb: "compressorBytes \<noteq> 0 \<Longrightarrow> objs w compressorBytes = Some (JByteArr cbs)"
    and fits: "\<not> jneg offset \<Longrightarrow> \<not> jneg len \<Longrightarrow> jsize offset + jsize len < 2147483648"
  shows "wp (convertSliceNative P payload offset len inputProtocol outputProtocol compressorBytes messageType)
    (slice_result P offset len inputProtocol outputProtocol bs w) (\<lambda>_ _. False) w"
proof -
  let ?Q = "slice_result P offset len inputProtocol outputProtocol bs w"
  have g: "grows w w" using alive_grows [OF w] .
  have bad: "?Q 0 w'" if "returned w w'" "pending w' \<noteq> None" for w'
    using that by (simp add: slice_result_def)
  have bad': "?Q 0 w'" if "grows w w'" "pending w' \<noteq> None" for w'
    by (rule bad [OF grows_returned [OF that(1)] that(2)])
  have refuse: "wp (seq (throwCached c msg) (ret 0)) ?Q (\<lambda>_ _. False) w"
    "wp (seq (throwIllegalArgument msg) (ret 0)) ?Q (\<lambda>_ _. False) w" for c msg
    by (auto simp: wp_seq wp_ret intro!: grow_throwCached [OF g] grow_throwIllegal(1) [OF g] bad')
  have convert: "wp (convertPayload P p q (ret (slice bs (jsize offset) (jsize len)))
        (length (slice bs (jsize offset) (jsize len))) compressorBytes t) ?Q (\<lambda>_ _. False) w1"
    if p: "protocolOf inputProtocol = Some p" "protocolOf outputProtocol = Some q"
      and r: "in_range offset len (length bs)" and g1: "grows w w1" for p q t w1
  proof (rule wp_mono)
    show "wp (convertPayload P p q (ret (slice bs (jsize offset) (jsize len)))
        (length (slice bs (jsize offset) (jsize len))) compressorBytes t)
        (converts P p q (slice bs (jsize offset) (jsize len)) w1) (\<lambda>_ _. False) w1"
      by (rule step_convertPayload [OF P grows_alive [OF g1] growsD(4) [OF g1 cb]]) (simp_all add: ret_def)
    show "?Q r' w'" if "converts P p q (slice bs (jsize offset) (jsize len)) w1 r' w'" for r' w'
    proof (cases "r' = 0")
      case True
      then show ?thesis using that by (intro bad' [THEN back_subst [where P = "\<lambda>r. ?Q r w'"]])
          (auto simp: converts_def intro: grows_trans [OF g1])
    next
      case False
      have "next_ref w \<le> next_ref w1" using g1 by (simp add: grows_def)
      then show ?thesis
        using that p r False grows_trans [OF g1] by (auto simp: converts_def slice_result_def)
    qed
  qed
  show ?thesis
  proof (cases "payload = 0 \<or> jneg offset \<or> jneg len")
    case True
    then show ?thesis using refuse by (auto simp: convertSliceNative_def)
  next
    case False
    then have a: "objs w payload = Some (JByteArr bs)" using payload by simp
    have n: "length bs \<le> 2147483647" using obj_ok_length [OF growsD(1) [OF g] a] by simp
    have sum: "(sint offset > sint (word_of_nat (length bs) :: jint)
        \<or> sint (offset + len) > sint (word_of_nat (length bs) :: jint)) \<longleftrightarrow> \<not> in_range offset len (length bs)"
      using False fits n by (intro sum_fits) simp_all
    have main: "wp (checked (parseProtocol inputProtocol) 0 (\<lambda>inProto.
      checked (parseProtocol outputProtocol) 0 (\<lambda>outProto.
      checked (requireMessageType messageType) 0 (\<lambda>type.
      bnd (getCritical payload) (\<lambda>raw. case raw of
        None \<Rightarrow> seq (throwCached OutOfMemoryError ''Failed to access payload contents'') (ret 0)
      | Some p \<Rightarrow>
      bnd fault (\<lambda>f. if f then
        seq (throwIllegalState (what BadAlloc)) (seq (releaseCritical payload p JNI_ABORT) (ret 0)) else
      bnd (readPin p (jsize offset) (jsize len)) (\<lambda>input.
      seq (releaseCritical payload p JNI_ABORT)
     (bnd exceptionCheck (\<lambda>exn. if exn then ret 0 else
      convertPayload P inProto outProto (ret input) (length input) compressorBytes type))))))))) ?Q (\<lambda>_ _. False) w"
      if r: "in_range offset len (length bs)"
    proof (rule step_parseProtocol [OF g], rule step_parseProtocol [OF g], rule step_messageType [OF g])
      fix p q w1
      assume p: "protocolOf inputProtocol = Some p" "protocolOf outputProtocol = Some q" and g1: "grows w w1" "keeps w w1"
      show "wp (bnd (getCritical payload) (\<lambda>raw. case raw of
        None \<Rightarrow> seq (throwCached OutOfMemoryError ''Failed to access payload contents'') (ret 0)
      | Some x \<Rightarrow>
      bnd fault (\<lambda>f. if f then
        seq (throwIllegalState (what BadAlloc)) (seq (releaseCritical payload x JNI_ABORT) (ret 0)) else
      bnd (readPin x (jsize offset) (jsize len)) (\<lambda>input.
      seq (releaseCritical payload x JNI_ABORT)
     (bnd exceptionCheck (\<lambda>exn. if exn then ret 0 else
      convertPayload P p q (ret input) (length input) compressorBytes (typeOf s))))))) ?Q (\<lambda>_ _. False) w1"
        by (rule step_slice [OF g1(1) keeps_objs [OF g1(2) a] r]) (use convert [OF p r] bad in blast)+
    qed (use bad' type in blast)+
    have "payload \<noteq> 0" "\<not> (jneg offset \<or> jneg len)" using False by simp_all
    note nf = this [THEN if_not_P]
    show ?thesis
      unfolding convertSliceNative_def nf wp_bnd [of "getArrayLength _"]
    proof (rule grow_length [OF g a array_length.simps(1)], split if_split, intro conjI impI)
      show "wp (seq (throwIllegalArgument ''offset/length exceed payload bounds'') (ret 0)) ?Q (\<lambda>_ _. False) w"
        by (rule refuse(2))
    qed (rule main, use sum in blast)
  qed
qed

end
