(* ===== verification/Structured_Rules.thy ===== *)
theory Structured_Rules
  imports Structured_Natives Proto_Props
begin

text \<open>
  Rules for the structured interface: what is left alone by the JNI, how the Java inputs are
  pinned, and what the inputs built from them stand for in memory.
\<close>

section \<open>Actions on the JVM alone\<close>

text \<open>An action that leaves everything outside of the JVM as it was.\<close>

definition jvm_only :: "('z jvm_scheme, 'a) act \<Rightarrow> bool" where
  "jvm_only m \<longleftrightarrow> (\<forall>w. jvm.more (snd (m w)) = jvm.more w)"

named_theorems jvm_only_intros

lemma jvm_only_basic [jvm_only_intros]:
  "jvm_only (ret a)" "jvm_only (throw e)" "jvm_only undef" "jvm_only (gets f)" "jvm_only fault" "jvm_only jni"
  "jvm_only (raise c msg)" "jvm_only (alloc x)"
  by (simp_all add: jvm_only_def ret_def throw_def undef_def gets_def fault_def jni_def modify_def raise_def alloc_def)

lemma jvm_only_bnd [jvm_only_intros]:
  assumes "jvm_only m" and "\<And>a. jvm_only (f a)"
  shows "jvm_only (bnd m f)"
  unfolding jvm_only_def
proof
  fix w
  have "jvm.more (snd (m w)) = jvm.more w" "\<And>a w. jvm.more (snd (f a w)) = jvm.more w"
    using assms by (simp_all add: jvm_only_def)
  then show "jvm.more (snd (bnd m f w)) = jvm.more w"
    by (auto simp: bnd_def split: prod.split outcome.split)
qed

lemma jvm_only_seq [jvm_only_intros]: "jvm_only m \<Longrightarrow> jvm_only k \<Longrightarrow> jvm_only (seq m k)"
  by (simp add: seq_def jvm_only_bnd)

lemma jvm_only_if [jvm_only_intros]: "(b \<Longrightarrow> jvm_only m) \<Longrightarrow> (\<not> b \<Longrightarrow> jvm_only k) \<Longrightarrow> jvm_only (if b then m else k)"
  by simp

lemma jvm_only_case [jvm_only_intros]:
  "jvm_only m \<Longrightarrow> (\<And>a. jvm_only (f a)) \<Longrightarrow> jvm_only (case x of None \<Rightarrow> m | Some a \<Rightarrow> f a)"
  by (cases x) simp_all

lemma jvm_only_lift [jvm_only_intros]: "jvm_only (lift_exn r)"
  by (cases r) (simp_all add: lift_exn_def jvm_only_basic)

lemma jvm_only_modify: "(\<And>w. jvm.more (f w) = jvm.more w) \<Longrightarrow> jvm_only (modify f)"
  by (simp add: jvm_only_def modify_def)

lemma jvm_only_jni [jvm_only_intros]:
  "jvm_only exceptionCheck" "jvm_only (getArrayLength r)" "jvm_only (newByteArray n)"
  "jvm_only (setArrayRegion r x)" "jvm_only (getCritical r)" "jvm_only (readPin p off k)" "jvm_only (releaseCritical r p mode)"
  "jvm_only (getStringUTFChars r)"
proof -
  show "jvm_only exceptionCheck" "jvm_only (newByteArray n)"
    unfolding exceptionCheck_def newByteArray_def newArray_def by (intro jvm_only_intros)+
  show "jvm_only (getArrayLength r)"
    unfolding getArrayLength_def by (intro jvm_only_intros) (simp add: jvm_only_def split: option.split)
  show "jvm_only (setArrayRegion r x)"
    unfolding setArrayRegion_def
    by (intro jvm_only_intros) (auto simp: jvm_only_def raise_def modify_def split: option.split)
  show "jvm_only (getCritical r)"
    by (auto simp: jvm_only_def getCritical_def bnd_def fault_def split: option.split jobj.split)
  show "jvm_only (readPin p off k)"
    by (simp add: readPin_def jvm_only_def split: option.split)
  show "jvm_only (releaseCritical r p mode)"
    by (simp add: releaseCritical_def jvm_only_def split: option.split)
  show "jvm_only (getStringUTFChars r)"
    unfolding getStringUTFChars_def
    by (intro jvm_only_intros)
      (auto simp: jvm_only_def bnd_def fault_def ret_def split: option.split jobj.split)
qed

lemma jvm_only_throwing [jvm_only_intros]:
  "jvm_only (throwNew cl msg)" "jvm_only (throwCached c msg)" "jvm_only (throwIllegalState msg)"
  "jvm_only (throwIllegalArgument msg)"
proof -
  have new: "jvm_only (throwNew cl msg)" for cl msg
    unfolding throwNew_def by (intro jvm_only_intros)
  have cached: "jvm_only (throwCached c msg)" for c msg
    unfolding throwCached_def ref_of_def by (intro jvm_only_intros new)
  have ensure: "jvm_only (ensureExceptionClass c)" for c
    unfolding ensureExceptionClass_def makeGlobalClassRef_def
    by (intro jvm_only_intros jvm_only_modify) simp_all
  show "jvm_only (throwNew cl msg)" "jvm_only (throwCached c msg)" "jvm_only (throwIllegalState msg)"
    "jvm_only (throwIllegalArgument msg)"
    unfolding throw_defs by (intro jvm_only_intros new cached ensure)+
qed

lemma jvm_only_arrays [jvm_only_intros]:
  "jvm_only (copyArray a)" "jvm_only (makeByteArray data)"
  unfolding copyArray_def makeByteArray_def Let_def by (intro jvm_only_intros)+

lemma jvm_only_type [jvm_only_intros]: "jvm_only (requireMessageType t)"
  unfolding requireMessageType_def Let_def by (intro jvm_only_intros)

lemma wp_jvm_only:
  assumes "wp m Q E w" and "jvm_only m"
  shows "wp m (\<lambda>a w'. Q a w' \<and> jvm.more w' = jvm.more w) (\<lambda>e w'. E e w' \<and> jvm.more w' = jvm.more w) w"
proof -
  have "jvm.more (snd (m w)) = jvm.more w" using assms(2) by (simp add: jvm_only_def)
  then show ?thesis using assms(1) by (auto simp: wp_def split: prod.splits outcome.splits)
qed

section \<open>Calm and still states\<close>

text \<open>
  \<open>calm w0 w\<close>: on top of \<open>grows\<close>, the messages and the resolved classes are as in \<open>w0\<close>; \<open>still\<close>: the
  scratch vectors are, too.
\<close>

definition calm :: "('s, 'd, 'm, 'b, 'c, 'z) structured_scheme \<Rightarrow> ('s, 'd, 'm, 'b, 'c, 'z) structured_scheme \<Rightarrow> bool" where
  "calm w0 w \<longleftrightarrow> grows w0 w \<and> messages w = messages w0 \<and> structuredRefs w = structuredRefs w0"

definition still :: "('s, 'd, 'm, 'b, 'c, 'z) structured_scheme \<Rightarrow> ('s, 'd, 'm, 'b, 'c, 'z) structured_scheme \<Rightarrow> bool" where
  "still w0 w \<longleftrightarrow> calm w0 w \<and> scratchVectors w = scratchVectors w0"

lemma calm_refl: "alive w \<Longrightarrow> calm w w"
  by (simp add: calm_def alive_grows)

lemma still_refl: "alive w \<Longrightarrow> still w w"
  by (simp add: still_def calm_refl)

lemma calm_trans: "calm w w' \<Longrightarrow> calm w' w'' \<Longrightarrow> calm w w''"
  unfolding calm_def using grows_trans by auto

lemma still_trans: "still w w' \<Longrightarrow> still w' w'' \<Longrightarrow> still w w''"
  unfolding still_def using calm_trans by auto

lemma calm_alive: "calm w w' \<Longrightarrow> alive w'"
  by (auto simp: calm_def intro: grows_alive)

lemma still_calm: "still w w' \<Longrightarrow> calm w w'"
  by (simp add: still_def)

lemma calmD:
  assumes "calm w w'"
  shows "grows w w'" "messages w' = messages w" "structuredRefs w' = structuredRefs w" "objs w r = Some x \<Longrightarrow> objs w' r = Some x"
  using assms by (auto simp: calm_def grows_def)

lemma same_more:
  assumes "jvm.more w' = jvm.more (w :: ('s, 'd, 'm, 'b, 'c, 'z) structured_scheme)"
  shows "messages w' = messages w" "structuredRefs w' = structuredRefs w" "scratchVectors w' = scratchVectors w"
    "structuredEntries w' = structuredEntries w" "explicitStructured w' = explicitStructured w" "descriptors w' = descriptors w"
  using assms by (cases w; cases w'; simp)+

lemma still_more: "grows w w' \<Longrightarrow> jvm.more w' = jvm.more w \<Longrightarrow> still w w'"
  unfolding still_def calm_def using same_more by blast

lemma still_keeps: "grows w w' \<Longrightarrow> keeps w w' \<Longrightarrow> still w w'"
  by (rule still_more) (simp_all add: keeps_def)

lemma still_consume: "alive w \<Longrightarrow> still w (consume w)"
  using quiet_grows [OF quiet_consume] by (intro still_keeps) (auto simp: keeps_def)

lemma grows_same_jvm:
  assumes "alive w" and "objs w' = objs w" "next_ref w' = next_ref w" "pins w' = pins w" "misuse w' = misuse w"
    "serializers w' = serializers w" "explicitSerializers w' = explicitSerializers w" "deserializers w' = deserializers w"
    "messages w' = messages w"
  shows "grows w w'"
  using assms jvm_ok_cong [OF assms(2,3)] by (simp add: grows_def alive_def)

lemma still_update:
  assumes "alive w"
  shows "still w (w\<lparr>descriptors := b\<rparr>)" "still w (w\<lparr>structuredEntries := es\<rparr>)" "still w (w\<lparr>explicitStructured := ks\<rparr>)"
    "still w (w\<lparr>structuredPerf := p\<rparr>)" "still w (w\<lparr>durations := ds\<rparr>)" "calm w (w\<lparr>scratchVectors := vs\<rparr>)"
  unfolding still_def calm_def by (intro conjI grows_same_jvm [OF assms]; simp)+

section \<open>Memory of inputs\<close>

definition resolves :: "('s, 'd, 'm, 'b, 'c, 'z) structured_scheme \<Rightarrow> st_input \<Rightarrow> st_output \<Rightarrow> bool" where
  "resolves w x st \<longleftrightarrow> readInput x w = (Ret st, w)"

lemma readMem_calm:
  assumes "readMem p n w = (Ret bs, w)" and "calm w w'"
    and "\<And>key block. p = ScratchMem key block \<Longrightarrow> scratchVectors w' key = scratchVectors w key"
  shows "readMem p n w' = (Ret bs, w')"
proof (cases p)
  case (DirectMem a)
  then show ?thesis
    using assms(1) calmD(4) [OF assms(2)]
    by (auto simp: readMem_def readDirect_def split: option.splits jobj.splits if_splits)
next
  case (ScratchMem key block)
  then show ?thesis
    using assms(1,3) by (auto simp: readMem_def bnd_def gets_def ret_def undef_def split: if_splits)
qed (use assms(1) in \<open>auto simp: readMem_def ret_def undef_def split: if_splits\<close>)

lemma resolves_intro:
  assumes "readMem (si_data x) (si_size x) w = (Ret content, w)"
    and "readMem (si_lengths x) (if si_type x = ZL_string then 4 * si_numElts x else 0) w = (Ret lens, w)"
    and "st = \<lparr>so_type = si_type x, so_eltWidth = si_eltWidth x, so_numElts = si_numElts x, so_content = content,
       so_stringLens = words32 lens, so_tag = Some (si_tag x)\<rparr>"
  shows "resolves w x st"
  using assms by (simp add: resolves_def readInput_def bnd_def ret_def)

lemma readMem_state:
  "(\<exists>bs. readMem p n w = (Ret bs, w)) \<or> (\<exists>e. readMem p n w = (Throw e, w)) \<or> readMem p n w = (Undef, w)"
  by (cases p) (auto simp: readMem_def readDirect_def bnd_def gets_def ret_def undef_def split: option.split jobj.split)

lemma resolves_elim:
  assumes "resolves w x st"
  obtains content lens where "readMem (si_data x) (si_size x) w = (Ret content, w)"
    "readMem (si_lengths x) (if si_type x = ZL_string then 4 * si_numElts x else 0) w = (Ret lens, w)"
    "st = \<lparr>so_type = si_type x, so_eltWidth = si_eltWidth x, so_numElts = si_numElts x, so_content = content,
       so_stringLens = words32 lens, so_tag = Some (si_tag x)\<rparr>"
  using assms readMem_state [of "si_data x" "si_size x" w]
    readMem_state [of "si_lengths x" "if si_type x = ZL_string then 4 * si_numElts x else 0" w]
  by (auto simp: resolves_def readInput_def bnd_def ret_def split: prod.splits outcome.splits)

lemma resolves_calm:
  assumes "resolves w x st" and "calm w w'"
    and "\<And>key block. si_data x = ScratchMem key block \<or> si_lengths x = ScratchMem key block \<Longrightarrow>
      scratchVectors w' key = scratchVectors w key"
  shows "resolves w' x st"
  using assms(1)
proof (rule resolves_elim)
  fix content lens
  assume 1: "readMem (si_data x) (si_size x) w = (Ret content, w)"
    and 2: "readMem (si_lengths x) (if si_type x = ZL_string then 4 * si_numElts x else 0) w = (Ret lens, w)"
    and 3: "st = \<lparr>so_type = si_type x, so_eltWidth = si_eltWidth x, so_numElts = si_numElts x, so_content = content,
       so_stringLens = words32 lens, so_tag = Some (si_tag x)\<rparr>"
  show ?thesis
    by (rule resolves_intro [OF readMem_calm [OF 1 assms(2)] readMem_calm [OF 2 assms(2)] 3]) (use assms(3) in blast)+
qed

lemma resolves_still: "resolves w x st \<Longrightarrow> still w w' \<Longrightarrow> resolves w' x st"
  by (rule resolves_calm) (simp_all add: still_def)

lemma wp_readInputs:
  assumes "list_all2 (resolves w) xs sts" and "Q sts w"
  shows "wp (mapAct readInput xs) Q E w"
proof -
  have "mapAct readInput xs w = (Ret sts, w)"
    using assms(1) by (induction xs sts rule: list_all2_induct) (simp_all add: resolves_def bnd_def ret_def)
  then show ?thesis using assms(2) by (simp add: wp_def)
qed

end
