(* ===== verification/Structured_Pinning.thy ===== *)
theory Structured_Pinning
  imports Structured_Rules
begin

text \<open>
  The Java inputs of a structured compression, the streams they stand for, and what pinning them
  gives access to.
\<close>

section \<open>Java inputs\<close>

text \<open>
  A \<open>ByteAccumulator\<close> whose size is within the capacity of its buffer, which the code does not
  check, and the bytes it has accumulated.
\<close>

definition accumulated :: "'z jvm_scheme \<Rightarrow> nat \<Rightarrow> bytes \<Rightarrow> bool" where
  "accumulated w r bs \<longleftrightarrow> (\<exists>fs d n buf. objs w r = Some (JObject fs) \<and> fs ''data'' = Some (VRef d)
     \<and> fs ''size'' = Some (VInt n) \<and> objs w d = Some (JDirect buf) \<and> \<not> jneg n \<and> jsize n \<le> length buf
     \<and> bs = take (jsize n) buf)"

record java_stream =
  js_tag :: jint
  js_kind :: jint
  js_data :: bytes
  js_lengths :: bytes

record java_inputs =
  ji_fieldIds :: bytes
  ji_fieldTypes :: bytes
  ji_fieldLengths :: bytes
  ji_streams :: "java_stream list"

definition streamObject :: "'z jvm_scheme \<Rightarrow> nat \<Rightarrow> java_stream \<Rightarrow> bool" where
  "streamObject w r s \<longleftrightarrow> (\<exists>fs a b. objs w r = Some (JObject fs) \<and> fs ''tag'' = Some (VInt (js_tag s))
     \<and> fs ''kind'' = Some (VInt (js_kind s)) \<and> fs ''data'' = Some (VRef a) \<and> accumulated w a (js_data s)
     \<and> fs ''lengths'' = Some (VRef b) \<and> (if b = 0 then js_lengths s = [] else accumulated w b (js_lengths s)))"

definition inputsObject :: "'z jvm_scheme \<Rightarrow> nat \<Rightarrow> java_inputs \<Rightarrow> bool" where
  "inputsObject w r J \<longleftrightarrow> (\<exists>fs a b c arr refs n. objs w r = Some (JObject fs)
     \<and> fs ''fieldIds'' = Some (VRef a) \<and> accumulated w a (ji_fieldIds J)
     \<and> fs ''fieldTypes'' = Some (VRef b) \<and> accumulated w b (ji_fieldTypes J)
     \<and> fs ''fieldLengths'' = Some (VRef c) \<and> accumulated w c (ji_fieldLengths J)
     \<and> fs ''fields'' = Some (VRef arr) \<and> objs w arr = Some (JObjArr refs)
     \<and> fs ''fieldCount'' = Some (VInt n) \<and> \<not> jneg n \<and> jsize n \<le> length refs
     \<and> list_all2 (streamObject w) (take (jsize n) refs) (ji_streams J))"

definition refsReady :: "('s, 'd, 'm, 'b, 'c, 'z) structured_scheme \<Rightarrow> bool" where
  "refsReady w \<longleftrightarrow> (let r = structuredRefs w in
     inputsClass r \<and> fieldIdsField r \<and> fieldTypesField r \<and> fieldLengthsField r \<and> fieldsField r \<and> fieldCountField r
     \<and> fieldStreamClass r \<and> fieldStreamTagField r \<and> fieldStreamKindField r \<and> fieldStreamDataField r
     \<and> fieldStreamLengthsField r \<and> byteAccumulatorClass r \<and> dataField r \<and> sizeField r)"

section \<open>The streams they stand for\<close>

definition controlStream :: "control \<Rightarrow> bytes \<Rightarrow> st_output" where
  "controlStream c bs = (let ws = kStructuredControlMagic # controlKind c # words32 bs in
     \<lparr>so_type = ZL_numeric, so_eltWidth = 4, so_numElts = length ws, so_content = concat (map bytes32 ws),
      so_stringLens = [], so_tag = Some (controlTag c)\<rparr>)"

definition valueStream :: "java_stream \<Rightarrow> st_output" where
  "valueStream s =
     (let width = (if js_kind s \<in> set kinds32 then 4 else if js_kind s \<in> set kinds64 then 8 else 1);
          n = length (js_data s) div width in
      if js_kind s = 9 then
        \<lparr>so_type = ZL_string, so_eltWidth = 0, so_numElts = length (js_lengths s) div 4, so_content = js_data s,
         so_stringLens = words32 (js_lengths s), so_tag = Some (js_tag s)\<rparr>
      else \<lparr>so_type = ZL_numeric, so_eltWidth = width, so_numElts = n, so_content = take (width * n) (js_data s),
         so_stringLens = [], so_tag = Some (js_tag s)\<rparr>)"

definition inputStreams :: "java_inputs \<Rightarrow> st_output list" where
  "inputStreams J = controlStream FieldIds (ji_fieldIds J) # controlStream FieldTypes (ji_fieldTypes J)
     # controlStream FieldLengths (ji_fieldLengths J) # map valueStream (ji_streams J)"

section \<open>Pinning\<close>

lemma seq_jni: "pins w = [] \<Longrightarrow> seq jni k w = k w"
  by (simp add: seq_def bnd_def jni_def modify_def)

lemma bnd_gets: "bnd (gets f) k w = k (f w) w"
  by (simp add: bnd_def gets_def)

lemma alive_nonnull: "alive w \<Longrightarrow> objs w r = Some x \<Longrightarrow> r \<noteq> 0"
  by (metis alive_def jvm_ok_def option.distinct(1))

lemma bnd_run: "m w = (Ret a, w') \<Longrightarrow> bnd m f w = f a w'"
  by (simp add: bnd_def)

lemma seq_run: "m w = (Ret a, w') \<Longrightarrow> seq m k w = k w'"
  by (simp add: seq_def bnd_run)

lemma bndo_run: "m w = (Ret (Some a), w') \<Longrightarrow> bndo m f w = f a w'"
  by (simp add: bndo_def bnd_run)

lemma getField_run: "pins w = [] \<Longrightarrow> objs w r = Some (JObject fs) \<Longrightarrow> fs name = Some v \<Longrightarrow> getField r name w = (Ret v, w)"
  by (simp add: getField_def seq_jni)

lemma field_run:
  assumes "pins w = []" "objs w r = Some (JObject fs)"
  shows "fs name = Some (VRef x) \<Longrightarrow> field (structuredRefs w) \<Longrightarrow> objectField field name r w = (Ret x, w)"
    and "fs name = Some (VInt i) \<Longrightarrow> field (structuredRefs w) \<Longrightarrow> intField field name r w = (Ret i, w)"
proof -
  show "fs name = Some (VRef x) \<Longrightarrow> field (structuredRefs w) \<Longrightarrow> objectField field name r w = (Ret x, w)"
    by (drule getField_run [OF assms(1,2)]) (simp add: objectField_def bnd_gets bnd_run ret_def)
  show "fs name = Some (VInt i) \<Longrightarrow> field (structuredRefs w) \<Longrightarrow> intField field name r w = (Ret i, w)"
    by (drule getField_run [OF assms(1,2)]) (simp add: intField_def bnd_gets bnd_run ret_def)
qed

text \<open>The bytes a pinned accumulator gives access to.\<close>

definition pins_bytes :: "('s, 'd, 'm, 'b, 'c, 'z) structured_scheme \<Rightarrow> pinned_accumulator \<Rightarrow> bytes \<Rightarrow> bool" where
  "pins_bytes w p bs \<longleftrightarrow> pa_size p = length bs
     \<and> (case pa_address p of None \<Rightarrow> bs = []
        | Some a \<Rightarrow> \<exists>buf. objs w a = Some (JDirect buf) \<and> length bs \<le> length buf \<and> bs = take (length bs) buf)"

lemma pins_bytes_read:
  assumes "pins_bytes w p bs" and "n \<le> length bs"
  shows "readMem (memOf p) n w = (Ret (take n bs), w)"
proof (cases "pa_address p")
  case None
  then show ?thesis using assms by (simp add: pins_bytes_def memOf_def readMem_def ret_def)
next
  case (Some a)
  then obtain buf where buf: "objs w a = Some (JDirect buf)" "length bs \<le> length buf" "bs = take (length bs) buf"
    using assms(1) by (auto simp: pins_bytes_def)
  have "take n bs = take n buf" using assms(2) by (subst buf(3)) (simp add: min_absorb1)
  then show ?thesis using Some buf(1,2) assms(2) by (simp add: memOf_def readMem_def readDirect_def slice_def)
qed

lemma pinAccumulator_run:
  assumes "alive w" and "refsReady w" and "accumulated w r bs"
  shows "\<exists>p. pinAccumulator r allowNull w = (Ret (Some p), w) \<and> pins_bytes w p bs"
proof -
  obtain fs d n buf where acc: "objs w r = Some (JObject fs)" "fs ''data'' = Some (VRef d)" "fs ''size'' = Some (VInt n)"
      "objs w d = Some (JDirect buf)" "\<not> jneg n" "jsize n \<le> length buf" "bs = take (jsize n) buf"
    using assms(3) by (auto simp: accumulated_def)
  have p: "pins w = []" and ready: "dataField (structuredRefs w)" "sizeField (structuredRefs w)"
    using assms(1,2) by (simp_all add: alive_def refsReady_def Let_def)
  have nz: "r \<noteq> 0" "d \<noteq> 0" using alive_nonnull [OF assms(1)] acc(1,4) by blast+
  have data: "objectField dataField ''data'' r w = (Ret d, w)" by (rule field_run(1) [OF p acc(1) acc(2)]) (rule ready(1))
  have sz: "intField sizeField ''size'' r w = (Ret n, w)" by (rule field_run(2) [OF p acc(1) acc(3)]) (rule ready(2))
  have addr: "getDirectBufferAddress d w = (Ret (Some d), w)"
    using acc(4) by (simp add: getDirectBufferAddress_def seq_jni [OF p] gets_def)
  show ?thesis
  proof (cases "jsize n = 0")
    case True
    then show ?thesis
      using nz acc(5,7) by (simp add: pinAccumulator_def bnd_def data sz ret_def pins_bytes_def noAccumulator_def)
  next
    case False
    then have "pinAccumulator r allowNull w = (Ret (Some \<lparr>pa_address = Some d, pa_size = jsize n\<rparr>), w)"
      using nz acc(5) by (simp add: pinAccumulator_def bnd_def data sz addr ret_def)
    then show ?thesis using acc(4,6,7) by (simp add: pins_bytes_def min_absorb2)
  qed
qed

lemma pinAccumulator_null: "pinAccumulator 0 True w = (Ret (Some noAccumulator), w)"
  by (simp add: pinAccumulator_def ret_def)

definition pins_stream :: "('s, 'd, 'm, 'b, 'c, 'z) structured_scheme \<Rightarrow> structured_pinned_field \<Rightarrow> java_stream \<Rightarrow> bool" where
  "pins_stream w p s \<longleftrightarrow> sp_tag p = js_tag s \<and> sp_kind p = js_kind s \<and> pins_bytes w (sp_data p) (js_data s)
     \<and> pins_bytes w (sp_lengths p) (js_lengths s)"

lemma pinStreams_run:
  assumes w: "alive w" "refsReady w" and arr: "objs w arr = Some (JObjArr refs)"
  shows "\<forall>i \<in> set is. i < length refs \<Longrightarrow> list_all2 (\<lambda>i s. streamObject w (refs ! i) s) is ss \<Longrightarrow>
    \<exists>ps. pinStreams arr is w = (Ret (Some ps), w) \<and> list_all2 (pins_stream w) ps ss"
proof (induction "is" arbitrary: ss)
  case Nil
  then show ?case by (simp add: ret_def)
next
  case (Cons i "is")
  then obtain s rest where ss: "ss = s # rest" and s: "streamObject w (refs ! i) s"
      and rest: "list_all2 (\<lambda>i s. streamObject w (refs ! i) s) is rest" by (auto simp: list_all2_Cons1)
  have p: "pins w = []" using w(1) by (simp add: alive_def)
  obtain fs a b where o: "objs w (refs ! i) = Some (JObject fs)" "fs ''tag'' = Some (VInt (js_tag s))"
      "fs ''kind'' = Some (VInt (js_kind s))" "fs ''data'' = Some (VRef a)" "accumulated w a (js_data s)"
      "fs ''lengths'' = Some (VRef b)" "if b = 0 then js_lengths s = [] else accumulated w b (js_lengths s)"
    using s by (auto simp: streamObject_def)
  have ready: "fieldStreamTagField (structuredRefs w)" "fieldStreamKindField (structuredRefs w)"
    "fieldStreamDataField (structuredRefs w)" "fieldStreamLengthsField (structuredRefs w)"
    using w(2) by (simp_all add: refsReady_def Let_def)
  have i: "getObjectArrayElement arr i w = (Ret (refs ! i), w)"
    using arr Cons.prems(1) by (simp add: getObjectArrayElement_def seq_jni [OF p])
  have nz: "refs ! i \<noteq> 0" using alive_nonnull [OF w(1) o(1)] .
  have tag: "intField fieldStreamTagField ''tag'' (refs ! i) w = (Ret (js_tag s), w)"
    by (rule field_run(2) [OF p o(1) o(2)]) (rule ready(1))
  have kind: "intField fieldStreamKindField ''kind'' (refs ! i) w = (Ret (js_kind s), w)"
    by (rule field_run(2) [OF p o(1) o(3)]) (rule ready(2))
  have data: "objectField fieldStreamDataField ''data'' (refs ! i) w = (Ret a, w)"
    by (rule field_run(1) [OF p o(1) o(4)]) (rule ready(3))
  have lens: "objectField fieldStreamLengthsField ''lengths'' (refs ! i) w = (Ret b, w)"
    by (rule field_run(1) [OF p o(1) o(6)]) (rule ready(4))
  obtain pd where pd: "pinAccumulator a False w = (Ret (Some pd), w)" "pins_bytes w pd (js_data s)"
    using pinAccumulator_run [OF w o(5)] by blast
  obtain pl where pl: "pinAccumulator b True w = (Ret (Some pl), w)" "pins_bytes w pl (js_lengths s)"
  proof (cases "b = 0")
    case True
    then show ?thesis using that [of noAccumulator] o(7) pinAccumulator_null [of w]
      by (simp add: pins_bytes_def noAccumulator_def)
  next
    case False
    then show ?thesis using that pinAccumulator_run [OF w, of b "js_lengths s" True] o(7) by auto
  qed
  obtain ps where ps: "pinStreams arr is w = (Ret (Some ps), w)" "list_all2 (pins_stream w) ps rest"
    using Cons.IH [OF _ rest] Cons.prems(1) by auto
  let ?p = "\<lparr>sp_tag = js_tag s, sp_kind = js_kind s, sp_data = pd, sp_lengths = pl\<rparr>"
  have "pins_stream w ?p s" using pd(2) pl(2) by (simp add: pins_stream_def)
  moreover have "pinStreams arr (i # is) w = (Ret (Some (?p # ps)), w)"
    using nz by (simp add: bnd_def bndo_def i tag kind data pd(1) lens pl(1) ps(1) ret_def)
  ultimately show ?case using ps(2) ss by auto
qed

definition pins_inputs :: "('s, 'd, 'm, 'b, 'c, 'z) structured_scheme \<Rightarrow> structured_pinned_buffers \<Rightarrow> java_inputs \<Rightarrow> bool" where
  "pins_inputs w b J \<longleftrightarrow> pins_bytes w (sb_fieldIds b) (ji_fieldIds J) \<and> pins_bytes w (sb_fieldTypes b) (ji_fieldTypes J)
     \<and> pins_bytes w (sb_fieldLengths b) (ji_fieldLengths J) \<and> list_all2 (pins_stream w) (sb_valueStreams b) (ji_streams J)"

lemma fault_run: "fault w = (Ret (next_fault w), consume w)"
  by (simp add: fault_def next_fault_def consume_def)

lemma wp_pinStructured:
  assumes w: "alive w" "refsReady w" and J: "inputsObject w inputs J"
    and ok: "\<And>b w'. still w w' \<Longrightarrow> pending w' = pending w \<Longrightarrow> pins_inputs w' b J \<Longrightarrow> Q (Some b) w'"
    and bad: "\<And>w'. still w w' \<Longrightarrow> E BadAlloc w'"
  shows "wp (pinStructuredBuffers inputs) Q E w"
proof -
  obtain fs a b c arr refs n where o: "objs w inputs = Some (JObject fs)"
      "fs ''fieldIds'' = Some (VRef a)" "accumulated w a (ji_fieldIds J)"
      "fs ''fieldTypes'' = Some (VRef b)" "accumulated w b (ji_fieldTypes J)"
      "fs ''fieldLengths'' = Some (VRef c)" "accumulated w c (ji_fieldLengths J)"
      "fs ''fields'' = Some (VRef arr)" "objs w arr = Some (JObjArr refs)"
      "fs ''fieldCount'' = Some (VInt n)" "\<not> jneg n" "jsize n \<le> length refs"
      "list_all2 (streamObject w) (take (jsize n) refs) (ji_streams J)"
    using J unfolding inputsObject_def by blast
  have p: "pins w = []" using w(1) by (simp add: alive_def)
  note ready = w(2) [unfolded refsReady_def Let_def]
  have refs: "ensureStructuredJniRefs w = (Ret True, w)"
    using ready by (simp add: ensureStructuredJniRefs_def bnd_def gets_def ret_def)
  have nz: "arr \<noteq> 0" using alive_nonnull [OF w(1) o(9)] .
  have fields: "objectField fieldIdsField ''fieldIds'' inputs w = (Ret a, w)"
    "objectField fieldTypesField ''fieldTypes'' inputs w = (Ret b, w)"
    "objectField fieldLengthsField ''fieldLengths'' inputs w = (Ret c, w)"
    "objectField fieldsField ''fields'' inputs w = (Ret arr, w)"
    "intField fieldCountField ''fieldCount'' inputs w = (Ret n, w)"
    using ready by (intro field_run [OF p o(1)] o(2,4,6,8,10); simp)+
  obtain pa where pa: "pinAccumulator a False w = (Ret (Some pa), w)" "pins_bytes w pa (ji_fieldIds J)"
    using pinAccumulator_run [OF w o(3)] by blast
  obtain pb where pb: "pinAccumulator b False w = (Ret (Some pb), w)" "pins_bytes w pb (ji_fieldTypes J)"
    using pinAccumulator_run [OF w o(5)] by blast
  obtain pc where pc: "pinAccumulator c False w = (Ret (Some pc), w)" "pins_bytes w pc (ji_fieldLengths J)"
    using pinAccumulator_run [OF w o(7)] by blast
  let ?w = "consume w"
  have s: "still w ?w" by (rule still_consume [OF w(1)])
  have "list_all2 (\<lambda>i s. streamObject ?w (refs ! i) s) [0..<jsize n] (ji_streams J)"
  proof -
    have "streamObject ?w = streamObject w" by (simp add: fun_eq_iff streamObject_def accumulated_def)
    then show ?thesis using o(12,13) by (simp add: list_all2_conv_all_nth)
  qed
  moreover have "alive ?w" "refsReady ?w" "objs ?w arr = Some (JObjArr refs)"
    using calm_alive [OF still_calm [OF s]] w(2) calmD(3) [OF still_calm [OF s]] o(9) by (simp_all add: refsReady_def)
  ultimately obtain ps where ps: "pinStreams arr [0..<jsize n] ?w = (Ret (Some ps), ?w)"
      "list_all2 (pins_stream ?w) ps (ji_streams J)"
    using pinStreams_run [of ?w arr refs "[0..<jsize n]" "ji_streams J"] o(12) by auto
  have "pins_bytes ?w = pins_bytes w" by (auto simp: fun_eq_iff pins_bytes_def split: option.split)
  then have inputs: "pins_inputs ?w \<lparr>sb_fieldIds = pa, sb_fieldTypes = pb, sb_fieldLengths = pc, sb_valueStreams = ps\<rparr> J"
    using pa(2) pb(2) pc(2) ps(2) by (simp add: pins_inputs_def)
  have "pinStructuredBuffers inputs w = (if next_fault w then (Throw BadAlloc, ?w)
      else (Ret (Some \<lparr>sb_fieldIds = pa, sb_fieldTypes = pb, sb_fieldLengths = pc, sb_valueStreams = ps\<rparr>), ?w))"
    using o(11) nz by (simp add: pinStructuredBuffers_def bnd_def bndo_def refs fields(1) fields(2)
        fields(3) fields(4) fields(5) pa(1) pb(1)
        pc(1) fault_run ps(1) ret_def throw_def Let_def)
  then show ?thesis using ok [OF s _ inputs] bad [OF s] by (simp add: wp_def)
qed

end
