(* ===== verification/Proto_Slices.thy ===== *)
theory Proto_Slices
  imports Proto_Props
begin

text \<open>
  The properties of \<open>convertSliceNative\<close>: its result on every path, the round trip between two
  encodings, and the slices that its check lets through although they leave the array.
\<close>

section \<open>A concrete protobuf\<close>

text \<open>Messages are their encodings, and every encoding is the same.\<close>

definition plain_proto :: "(unit, unit, bytes, unit, unit, unit, unit) proto" where
  "plain_proto = \<lparr>pl_newSerializer = (), pl_getCompressor = Some, pl_updateCompressor = (\<lambda>_ s. s),
     pl_setCompressor = (\<lambda>_ s. (None, s)),
     pl_serialize = (\<lambda>m s. (if length m \<le> 2147483647 then Inr m else Inl LengthError, s)),
     pl_trainingInputs = (\<lambda>_ s. (Inr [], s)), pl_newDeserializer = (), pl_deserialize = (\<lambda>z _ d. (None, z, d)),
     pl_newCompressor = (), pl_setParameter = (\<lambda>_ _ k. (None, k)), pl_loadCompressor = (\<lambda>_ k. (None, k)),
     pl_compressorJson = (\<lambda>_. Inr ''{}''), pl_registerGraph = (\<lambda>k. (0, k)),
     pl_selectStartingGraph = (\<lambda>_ k. (None, k)), pl_train = (\<lambda>_ _ _ _. Inr [[1]]), pl_clear = (\<lambda>_. []),
     pl_parse = (\<lambda>bs _. (True, bs)), pl_toBytes = Some, pl_fromJson = (\<lambda>bs _. (None, bs)), pl_toJson = Inr,
     pl_new = (\<lambda>m. m), pl_parseSet = (\<lambda>_. Some []), pl_addFile = (\<lambda>_ b. (False, b)),
     pl_findFile = (\<lambda>_ b. (True, b)), pl_findType = (\<lambda>_ b. (Some (), b)), pl_generatedType = (\<lambda>_. None),
     pl_inPool = (\<lambda>_. True), pl_prototype = (\<lambda>_ _. Some []), pl_generatedPrototype = (\<lambda>_. None)\<rparr>"

definition sample_process :: "(unit, unit, bytes, unit) process" where
  "sample_process = \<lparr>objs = [1 \<mapsto> JByteArr [7, 8, 9], 2 \<mapsto> JString ''T''], next_ref = 3, pending = None,
     pins = [], next_pin = 0, pin_copies = True, borrowed = [], faults = [], misuse = False,
     class_refs = (\<lambda>_. True), global_refs = [], handle_field = False, serializers = (\<lambda>_. None),
     explicitSerializers = (\<lambda>_. None), deserializers = (\<lambda>_. None), messages = (\<lambda>_. None),
     trainings = (\<lambda>_. None), descriptors = (), directIntoPerf = \<lparr>pf_enabled = False, pf_ns = [0, 0, 0], pf_calls = 0\<rparr>,
     durations = []\<rparr>"

lemma plain_owns: "owns_compressor plain_proto"
  by (simp add: owns_compressor_def plain_proto_def)

lemma sample_alive: "alive sample_process"
  by (auto simp: alive_def jvm_ok_def sample_process_def obj_ok_def split: if_splits)

lemma sample_objs: "objs sample_process 1 = Some (JByteArr [7, 8, 9])" "objs sample_process 2 = Some (JString ''T'')"
  by (simp_all add: sample_process_def)

section \<open>Results\<close>

lemma wp_returns:
  assumes "wp m Q (\<lambda>_ _. False) w"
  shows "\<exists>r w'. m w = (Ret r, w') \<and> Q r w'"
  using assms by (auto simp: wp_def split: prod.splits outcome.splits)

text \<open>C34. Converting a slice of a byte array, unless the sum of offset and length overflows, has no
  undefined behaviour on any schedule of failures, lets no C++ exception escape, leaves nothing
  pinned and no older Java object changed.  It returns null with an exception pending, or a new
  array that holds the output encoding of the message read from exactly that slice, whatever the
  caches hold and whatever is trained meanwhile.\<close>

theorem convertSlice_result:
  assumes "owns_compressor P" and "alive w"
    and "payload \<noteq> 0 \<Longrightarrow> objs w payload = Some (JByteArr bs)"
    and "messageType \<noteq> 0 \<Longrightarrow> objs w messageType = Some (JString s)"
    and "compressorBytes \<noteq> 0 \<Longrightarrow> objs w compressorBytes = Some (JByteArr cbs)"
    and "\<not> jneg offset \<Longrightarrow> \<not> jneg len \<Longrightarrow> jsize offset + jsize len < 2147483648"
  shows "\<exists>r w'. convertSliceNative P payload offset len inputProtocol outputProtocol compressorBytes messageType w = (Ret r, w')
    \<and> slice_result P offset len inputProtocol outputProtocol bs w r w'"
  by (rule wp_returns, rule wp_convertSlice) (use assms in blast)+

lemma convertSlice_result_witness:
  "\<exists>r w'. convertSliceNative plain_proto 1 1 2 0 1 0 2 sample_process = (Ret r, w')
    \<and> slice_result plain_proto 1 2 0 1 [7, 8, 9] sample_process r w'"
  by (rule convertSlice_result [OF plain_owns sample_alive, where s = "''T''" and cbs = "[]"])
    (use sample_objs in \<open>simp_all add: jsize_def\<close>)

section \<open>Round trip\<close>

text \<open>What the serializer writes, the deserializer reads back; frames fit into Java arrays.\<close>

definition proto_lossless :: "('s, 'd, 'm, 'k, 'i, 'b, 't) proto \<Rightarrow> bool" where
  "proto_lossless P \<longleftrightarrow> (\<forall>m s z s'. pl_serialize P m s = (Inr z, s') \<longrightarrow>
     length z \<le> 2147483647 \<and> (\<forall>m0 d. \<exists>d'. pl_deserialize P z m0 d = (None, m, d')))"

lemma slice_full: "length bs \<le> 2147483647 \<Longrightarrow> slice bs (jsize 0) (jsize (word_of_nat (length bs))) = bs"
  by (simp add: slice_def jsize_def)

text \<open>C35. Converting protobuf bytes to OpenZL and the result back gives the encoding of the message that
  the bytes stand for, unless one of the two calls reports an exception: nothing is lost on the way,
  also when a compressor is trained in between or the two calls use different compressors.\<close>

theorem convert_roundtrip:
  assumes P: "owns_compressor P" "proto_lossless P" and w: "alive w"
    and args: "objs w payload = Some (JByteArr bs)" "objs w messageType = Some (JString s)"
      "compressorBytes \<noteq> 0 \<Longrightarrow> objs w compressorBytes = Some (JByteArr cbs)"
      "otherBytes \<noteq> 0 \<Longrightarrow> objs w otherBytes = Some (JByteArr ecbs)"
    and fits: "jsize offset + jsize len < 2147483648"
  shows "\<exists>z w1. convertSliceNative P payload offset len 0 1 compressorBytes messageType w = (Ret z, w1)
    \<and> (if z = 0 then pending w1 \<noteq> None else \<exists>zs. objs w1 z = Some (JByteArr zs)
      \<and> (\<exists>r w2. convertSliceNative P z 0 (word_of_nat (length zs)) 1 0 otherBytes messageType w1 = (Ret r, w2)
        \<and> (if r = 0 then pending w2 \<noteq> None else
            \<exists>m out. decoded P Proto (slice bs (jsize offset) (jsize len)) m \<and> pl_toBytes P m = Some out
              \<and> objs w2 r = Some (JByteArr (take (jsize (word_of_nat (length out))) out)))))"
proof -
  have codes: "protocolOf 0 = Some Proto" "protocolOf 1 = Some Zl" by (simp_all add: protocolOf_def)
  obtain z w1 where first: "convertSliceNative P payload offset len 0 1 compressorBytes messageType w = (Ret z, w1)"
      "slice_result P offset len 0 1 bs w z w1"
    using wp_returns [OF wp_convertSlice [OF P(1) w, of payload bs messageType s compressorBytes cbs offset len 0 1]]
      args fits by blast
  show ?thesis
  proof (cases "z = 0")
    case True
    then show ?thesis using first by (auto simp: slice_result_def)
  next
    case False
    then obtain zs where 1: "grows w w1" "converted P Proto Zl (slice bs (jsize offset) (jsize len)) zs"
        "objs w1 z = Some (JByteArr (take (jsize (word_of_nat (length zs))) zs))"
      using first(2) by (auto simp: slice_result_def converts_def codes)
    then obtain m ser where m: "decoded P Proto (slice bs (jsize offset) (jsize len)) m"
        "pl_serialize P m ser = (Inr zs, snd (pl_serialize P m ser))"
      by (auto simp: converted_def serialised_def) (metis prod.collapse)
    have zs: "length zs \<le> 2147483647" "\<exists>d'. pl_deserialize P zs m0 d = (None, m, d')" for m0 d
      using P(2) m(2) unfolding proto_lossless_def by blast+
    then have arr: "objs w1 z = Some (JByteArr zs)" using 1(3) by simp
    have again: "slice_result P 0 (word_of_nat (length zs)) 1 0 zs w1 r w2 \<Longrightarrow> r \<noteq> 0 \<Longrightarrow>
        \<exists>out. pl_toBytes P m = Some out \<and> objs w2 r = Some (JByteArr (take (jsize (word_of_nat (length out))) out))" for r w2
    proof -
      assume "slice_result P 0 (word_of_nat (length zs)) 1 0 zs w1 r w2" "r \<noteq> 0"
      then obtain out m2 where 3: "decoded P Zl zs m2" "pl_toBytes P m2 = Some out"
          "objs w2 r = Some (JByteArr (take (jsize (word_of_nat (length out))) out))"
        using slice_full [OF zs(1)]
        by (auto simp: slice_result_def converts_def codes converted_def serialised_def)
      moreover have "m2 = m" using 3(1) zs(2) by (auto simp: decoded_def) (metis Pair_inject)
      ultimately show ?thesis by blast
    qed
    obtain r w2 where second: "convertSliceNative P z 0 (word_of_nat (length zs)) 1 0 otherBytes messageType w1 = (Ret r, w2)"
        "slice_result P 0 (word_of_nat (length zs)) 1 0 zs w1 r w2"
      using wp_returns [OF wp_convertSlice [OF P(1) grows_alive [OF 1(1)], of z zs messageType s otherBytes ecbs
          0 "word_of_nat (length zs)" 1 0]]
        arr args(2,4) growsD(4) [OF 1(1)] zs(1) by (auto simp: jsize_def)
    have "if r = 0 then pending w2 \<noteq> None else
            \<exists>m out. decoded P Proto (slice bs (jsize offset) (jsize len)) m \<and> pl_toBytes P m = Some out
              \<and> objs w2 r = Some (JByteArr (take (jsize (word_of_nat (length out))) out))"
      using again [OF second(2)] second(2) m(1) by (cases "r = 0") (auto simp: slice_result_def)
    with first(1) second(1) arr False show ?thesis
      by (intro exI [of _ z] exI [of _ w1] conjI first(1)) (simp only: if_False, blast)
  qed
qed

lemma plain_lossless: "proto_lossless plain_proto"
  by (auto simp: proto_lossless_def plain_proto_def split: if_splits)

lemma convert_roundtrip_witness:
  "\<exists>z w1. convertSliceNative plain_proto 1 0 3 0 1 0 2 sample_process = (Ret z, w1)
    \<and> (if z = 0 then pending w1 \<noteq> None else \<exists>zs. objs w1 z = Some (JByteArr zs)
      \<and> (\<exists>r w2. convertSliceNative plain_proto z 0 (word_of_nat (length zs)) 1 0 0 2 w1 = (Ret r, w2)
        \<and> (if r = 0 then pending w2 \<noteq> None else
            \<exists>m out. decoded plain_proto Proto (slice [7, 8, 9] (jsize 0) (jsize 3)) m \<and> pl_toBytes plain_proto m = Some out
              \<and> objs w2 r = Some (JByteArr (take (jsize (word_of_nat (length out))) out)))))"
  by (rule convert_roundtrip [OF plain_owns plain_lossless sample_alive, where s = "''T''" and cbs = "[]" and ecbs = "[]"])
    (use sample_objs in \<open>simp_all add: jsize_def\<close>)

section \<open>Slices that wrap\<close>

lemma undef_iff: "fst (m w) = Undef \<longleftrightarrow> \<not> wp m (\<lambda>_ _. True) (\<lambda>_ _. True) w"
  by (auto simp: wp_def split: prod.splits outcome.splits)

text \<open>C36. If offset and length are valid \<open>int\<close>s whose sum exceeds the largest \<open>int\<close>, the bounds check of
  \<open>convertSliceNative\<close> passes and the copy reads beyond the end of the pinned array: undefined
  behaviour, for every array, type and library.\<close>

theorem slice_overread:
  assumes w: "alive w" "faults w = []" "pending w = None"
    and args: "objs w payload = Some (JByteArr bs)" "objs w messageType = Some (JString s)" "typeOf s \<noteq> []"
      "protocolOf inputProtocol = Some p" "protocolOf outputProtocol = Some q"
    and slice: "\<not> jneg offset" "\<not> jneg len" "jsize offset \<le> length bs" "2147483648 \<le> jsize offset + jsize len"
  shows "fst (convertSliceNative P payload offset len inputProtocol outputProtocol compressorBytes messageType w) = Undef"
proof -
  have ok: "jvm_ok w" "pins w = []" using w(1) by (simp_all add: alive_def)
  have n: "length bs \<le> 2147483647" using obj_ok_length [OF ok(1) args(1)] by simp
  have nonzero: "payload \<noteq> 0" "messageType \<noteq> 0" using jvm_ok_null [OF ok(1)] args(1,2) by (metis option.distinct(1))+
  have "parseProtocol inputProtocol = ret p" "parseProtocol outputProtocol = ret q"
    using args(4,5) by (auto simp: parseProtocol_def protocolOf_def split: if_splits)
  note protocols = this
  have neg: "sint (offset + len) < 0" "sint offset \<le> int (length bs)"
  proof -
    have "sint (offset + len) = sint offset + sint len - 4294967296"
    proof -
      have b: "0 \<le> sint offset" "0 \<le> sint len" "sint offset \<le> 2147483647" "sint len \<le> 2147483647"
        "2147483648 \<le> sint offset + sint len"
        using slice(1,2,4) jint_bounds [of offset] jint_bounds [of len] by (auto simp: jneg_def jsize_def)
      have "signed_take_bit 31 k = k - 4294967296" if "2147483648 \<le> k" "k \<le> 4294967294" for k :: int
      proof -
        have "(k + 2147483648) mod 4294967296 = (k - 2147483648 + 4294967296) mod 4294967296"
          by (simp add: add.commute)
        also have "\<dots> = k - 2147483648" unfolding mod_add_self2 using that by (intro mod_pos_pos_trivial) simp_all
        finally have "(k + 2147483648) mod 4294967296 = k - 2147483648" .
        then show ?thesis by (simp add: signed_take_bit_eq_take_bit_shift take_bit_eq_mod)
      qed
      then show ?thesis using b by (simp add: sint_word_ariths)
    qed
    then show "sint (offset + len) < 0" using jint_bounds [of offset] jint_bounds [of len] by simp
    show "sint offset \<le> int (length bs)" using slice(1,3) by (simp add: jsize_def jneg_def)
  qed
  show ?thesis
    unfolding undef_iff convertSliceNative_def checked_def requireMessageType_def protocols
    using ok n nonzero neg slice args w
    by (simp add: wp_simps next_fault_def find_pin_def pin_bytes_def heap_bytes_def typeOf_def Let_def pinned_def)
qed

lemma slice_overread_witness:
  "fst (convertSliceNative plain_proto 1 3 2147483647 0 1 0 2 sample_process) = Undef"
  by (rule slice_overread [OF sample_alive, where s = "''T''" and p = Proto and q = Zl and bs = "[7, 8, 9]"])
    (use sample_objs in \<open>simp_all add: sample_process_def typeOf_def protocolOf_def jsize_def jneg_def numeral_3_eq_3\<close>)

end
