(* ===== verification/Structured_Compress.thy ===== *)
theory Structured_Compress
  imports Structured_Pinning Proto_Slices
begin

text \<open>
  What the structured compressions do with well-formed Java inputs, on every schedule of failures:
  the streams the library gets to compress, and what the native method returns.
\<close>

section \<open>Inputs from pinned buffers\<close>











section \<open>Compression\<close>





















section \<open>The natives\<close>





lemma still_grows: "still w w' \<Longrightarrow> grows w w'"
  by (simp add: still_def calm_def)


















end
