(* ===== verification/Graph_Detail.thy ===== *)
theory Graph_Detail
  imports OZ_Prelude "HOL-Library.While_Combinator"
begin

text \<open>
  \<open>JNI/OpenZLProtobuf.cpp\<close>, \<open>graphDetailJsonNative\<close>: the breadth-first export of the graphs of
  a compressor.  What the compressor answers about a graph is a parameter; graphs and nodes are
  named by their numbers.
\<close>

section \<open>The compressor's graphs\<close>

datatype graph_type =
    Graph_standard
  | Graph_static
  | Graph_selector
  | Graph_function
  | Graph_multiInput
  | Graph_parameterized
  | Graph_segmenter
  | Graph_other

record graph_view =
  gv_name :: "nat \<Rightarrow> string option"
  gv_type :: "nat \<Rightarrow> graph_type"
  gv_base :: "nat \<Rightarrow> nat"
  gv_successors :: "nat \<Rightarrow> nat list"
  gv_customGraphs :: "nat \<Rightarrow> nat list"
  gv_customNodes :: "nat \<Rightarrow> nat list"
  gv_nodeName :: "nat \<Rightarrow> string option"

fun graphTypeName :: "graph_type \<Rightarrow> string" where
  "graphTypeName Graph_standard = ''standard''"
| "graphTypeName Graph_static = ''static''"
| "graphTypeName Graph_selector = ''selector''"
| "graphTypeName Graph_function = ''function''"
| "graphTypeName Graph_multiInput = ''multi_input''"
| "graphTypeName Graph_parameterized = ''parameterized''"
| "graphTypeName Graph_segmenter = ''segmenter''"
| "graphTypeName Graph_other = ''unknown''"

definition graphNameOrId :: "graph_view \<Rightarrow> nat \<Rightarrow> string" where
  "graphNameOrId G graph = (case gv_name G graph of
      Some (c # cs) \<Rightarrow> c # cs
    | _ \<Rightarrow> to_string graph)"

section \<open>Output\<close>

definition newline :: string where "newline = [CHR 0x0A]"

definition quoted :: "string \<Rightarrow> string" where
  "quoted s = [CHR 0x22] @ s @ [CHR 0x22]"

text \<open>A loop that writes a separator before every item but the first.\<close>

fun separated :: "string \<Rightarrow> string list \<Rightarrow> string" where
  "separated sep [] = []"
| "separated sep [x] = x"
| "separated sep (x # y # xs) = x @ sep @ separated sep (y # xs)"

definition graphEntry :: "graph_view \<Rightarrow> nat \<Rightarrow> string" where
  "graphEntry G gid =
     ''    {'' @ newline
     @ ''      '' @ quoted ''id'' @ '': '' @ quoted (graphNameOrId G gid) @ '','' @ newline
     @ ''      '' @ quoted ''type'' @ '': '' @ quoted (graphTypeName (gv_type G gid)) @ '','' @ newline
     @ (if gv_base G gid \<noteq> 0
        then ''      '' @ quoted ''base'' @ '': '' @ quoted (graphNameOrId G (gv_base G gid)) @ '','' @ newline
        else [])
     @ ''      '' @ quoted ''successors'' @ '': [''
     @ separated '', '' (map (\<lambda>s. quoted (graphNameOrId G s)) (gv_successors G gid)) @ ''],'' @ newline
     @ ''      '' @ quoted ''customGraphs'' @ '': [''
     @ separated '', '' (map (\<lambda>s. quoted (graphNameOrId G s)) (gv_customGraphs G gid)) @ ''],'' @ newline
     @ ''      '' @ quoted ''customNodes'' @ '': [''
     @ separated '', '' (map (\<lambda>n. case gv_nodeName G n of None \<Rightarrow> quoted [] | Some s \<Rightarrow> quoted s)
         (gv_customNodes G gid)) @ '']'' @ newline
     @ ''    }''"

definition detailHeader :: "graph_view \<Rightarrow> nat \<Rightarrow> string" where
  "detailHeader G start = ''{'' @ newline @ ''  '' @ quoted ''start'' @ '': ''
     @ quoted (graphNameOrId G start) @ '','' @ newline @ ''  '' @ quoted ''graphs'' @ '': ['' @ newline"

definition detailFooter :: string where
  "detailFooter = newline @ ''  ]'' @ newline @ ''}'' @ newline"

section \<open>The search\<close>

record search =
  visited :: "nat set"
  queue :: "nat list"
  idx :: nat
  out :: string
  firstGraph :: bool

text \<open>Each graph that is not in \<open>visited\<close> yet is entered there and appended to the queue.\<close>

fun pushNew :: "nat list \<Rightarrow> search \<Rightarrow> search" where
  "pushNew [] s = s"
| "pushNew (g # gs) s = pushNew gs
     (if g \<in> visited s then s else s\<lparr>visited := insert g (visited s), queue := queue s @ [g]\<rparr>)"

definition detailStep :: "graph_view \<Rightarrow> search \<Rightarrow> search" where
  "detailStep G s =
     (let gid = queue s ! idx s;
          s = pushNew (gv_successors G gid) s;
          s = pushNew (gv_customGraphs G gid) s
      in s\<lparr>out := out s @ (if firstGraph s then [] else '','' @ newline) @ graphEntry G gid,
           firstGraph := False, idx := Suc (idx s)\<rparr>)"

text \<open>\<open>None\<close> is a search that does not end.\<close>

definition graphDetailJson :: "graph_view \<Rightarrow> nat \<Rightarrow> string option" where
  "graphDetailJson G start =
     (case while_option (\<lambda>s. idx s < length (queue s)) (detailStep G)
        \<lparr>visited = {start}, queue = [start], idx = 0, out = detailHeader G start, firstGraph = True\<rparr> of
        None \<Rightarrow> None
      | Some s \<Rightarrow> Some (out s @ detailFooter))"

section \<open>The search reaches every graph once\<close>

definition graph_edges :: "graph_view \<Rightarrow> (nat \<times> nat) set" where
  "graph_edges G = {(g, h). h \<in> set (gv_successors G g) \<union> set (gv_customGraphs G g)}"

definition reachable :: "graph_view \<Rightarrow> nat \<Rightarrow> nat set" where
  "reachable G start = (graph_edges G)\<^sup>* `` {start}"

text \<open>
  The invariant: the queue lists the visited graphs without repetition, all of them are
  reachable, those before \<open>idx\<close> have their neighbours in the queue and their entries written.
\<close>

definition search_inv :: "graph_view \<Rightarrow> nat \<Rightarrow> search \<Rightarrow> bool" where
  "search_inv G start s \<longleftrightarrow> queue s \<noteq> [] \<and> hd (queue s) = start \<and> distinct (queue s)
     \<and> set (queue s) = visited s \<and> visited s \<subseteq> reachable G start \<and> idx s \<le> length (queue s)
     \<and> (\<forall>i < idx s. graph_edges G `` {queue s ! i} \<subseteq> visited s)
     \<and> out s = detailHeader G start @ separated ('','' @ newline) (map (graphEntry G) (take (idx s) (queue s)))
     \<and> (firstGraph s \<longleftrightarrow> idx s = 0)"

lemma pushNew_keeps [simp]:
  "idx (pushNew gs s) = idx s" "out (pushNew gs s) = out s" "firstGraph (pushNew gs s) = firstGraph s"
  by (induction gs s rule: pushNew.induct) simp_all

lemma pushNew_visited [simp]: "visited (pushNew gs s) = visited s \<union> set gs"
  by (induction gs s rule: pushNew.induct) auto

lemma pushNew_queue:
  assumes "distinct (queue s)" "set (queue s) = visited s"
  shows "\<exists>new. queue (pushNew gs s) = queue s @ new \<and> distinct (queue s @ new)
    \<and> set (queue s @ new) = visited s \<union> set gs"
  using assms
proof (induction gs s rule: pushNew.induct)
  case (2 g gs s)
  let ?s = "if g \<in> visited s then s else s\<lparr>visited := insert g (visited s), queue := queue s @ [g]\<rparr>"
  have "distinct (queue ?s)" "set (queue ?s) = visited ?s" "visited ?s = insert g (visited s)"
    using "2.prems" by auto
  with "2.IH" obtain new where "queue (pushNew gs ?s) = queue ?s @ new" "distinct (queue ?s @ new)"
      "set (queue ?s @ new) = insert g (visited s) \<union> set gs" by auto
  then show ?case by (cases "g \<in> visited s") auto
qed auto

lemma separated_snoc: "xs \<noteq> [] \<Longrightarrow> separated sep (xs @ [x]) = separated sep xs @ sep @ x"
  by (induction sep xs rule: separated.induct) auto

lemma step_inv:
  assumes inv: "search_inv G start s" and more: "idx s < length (queue s)"
  shows "search_inv G start (detailStep G s)"
proof -
  let ?g = "queue s ! idx s"
  let ?s1 = "pushNew (gv_successors G ?g) s"
  let ?s2 = "pushNew (gv_customGraphs G ?g) ?s1"
  have d: "distinct (queue s)" "set (queue s) = visited s" using inv by (auto simp: search_inv_def)
  obtain n1 where q1: "queue ?s1 = queue s @ n1" "distinct (queue ?s1)" "set (queue ?s1) = visited ?s1"
    using pushNew_queue [OF d] by fastforce
  obtain n2 where q2: "queue ?s2 = queue ?s1 @ n2" "distinct (queue ?s2)" "set (queue ?s2) = visited ?s2"
    using pushNew_queue [OF q1(2,3)] by fastforce
  have vis: "visited ?s2 = visited s \<union> graph_edges G `` {?g}" by (auto simp: graph_edges_def)
  have g: "?g \<in> reachable G start" using inv more nth_mem [OF more] by (auto simp: search_inv_def)
  then have "graph_edges G `` {?g} \<subseteq> reachable G start"
    unfolding reachable_def by (auto intro: rtrancl_into_rtrancl)
  moreover have "visited s \<subseteq> reachable G start" using inv by (simp add: search_inv_def)
  ultimately have reach: "visited ?s2 \<subseteq> reachable G start" unfolding vis by blast
  have nth: "queue ?s2 ! i = queue s ! i" if "i \<le> idx s" for i
    using that more q1(1) q2(1) by (simp add: nth_append)
  have edges: "graph_edges G `` {queue ?s2 ! i} \<subseteq> visited ?s2" if "i < Suc (idx s)" for i
  proof (cases "i = idx s")
    case False
    then have "i < idx s" using that by simp
    then show ?thesis using inv nth [of i] by (auto simp: vis search_inv_def)
  next
    case True
    with nth have "queue ?s2 ! i = ?g" by simp
    show ?thesis unfolding vis \<open>queue ?s2 ! i = ?g\<close> by (rule Un_upper2)
  qed
  have take: "take (Suc (idx s)) (queue ?s2) = take (idx s) (queue s) @ [?g]"
    using more q1(1) q2(1) by (simp add: take_Suc_conv_app_nth)
  have out: "separated ('','' @ newline) (map (graphEntry G) (take (Suc (idx s)) (queue ?s2)))
      = separated ('','' @ newline) (map (graphEntry G) (take (idx s) (queue s)))
        @ (if idx s = 0 then [] else '','' @ newline) @ graphEntry G ?g"
    unfolding take
  proof (cases "idx s = 0")
    case False
    then have "map (graphEntry G) (take (idx s) (queue s)) \<noteq> []" using more by auto
    then show "separated ('','' @ newline) (map (graphEntry G) (take (idx s) (queue s) @ [?g]))
      = separated ('','' @ newline) (map (graphEntry G) (take (idx s) (queue s)))
        @ (if idx s = 0 then [] else '','' @ newline) @ graphEntry G ?g"
      using False by (simp add: separated_snoc)
  qed simp
  have "hd (queue ?s2) = start" "queue ?s2 \<noteq> []" "length (queue ?s2) > idx s"
    using inv more q1(1) q2(1) by (auto simp: search_inv_def)
  then show ?thesis
    using inv q2(2,3) reach edges out unfolding search_inv_def detailStep_def Let_def by simp
qed

lemma inv_start:
  "search_inv G start \<lparr>visited = {start}, queue = [start], idx = 0, out = detailHeader G start, firstGraph = True\<rparr>"
  by (simp add: search_inv_def reachable_def)

lemma inv_length:
  assumes "finite (reachable G start)" and "search_inv G start s"
  shows "length (queue s) \<le> card (reachable G start)"
proof -
  have "length (queue s) = card (visited s)"
    using assms(2) distinct_card [of "queue s"] by (simp add: search_inv_def)
  then show ?thesis using assms by (simp add: search_inv_def card_mono)
qed

lemma inv_end:
  assumes "search_inv G start s" and "\<not> idx s < length (queue s)"
  shows "visited s = reachable G start"
proof
  show "visited s \<subseteq> reachable G start" using assms(1) by (simp add: search_inv_def)
  have "graph_edges G `` visited s \<subseteq> visited s"
  proof
    fix h
    assume "h \<in> graph_edges G `` visited s"
    then obtain g where g: "g \<in> visited s" "h \<in> graph_edges G `` {g}" by blast
    have "g \<in> set (queue s)" using g(1) assms(1) by (simp add: search_inv_def)
    then obtain i where "i < length (queue s)" "queue s ! i = g" by (auto simp: in_set_conv_nth)
    then show "h \<in> visited s" using g(2) assms by (auto simp: search_inv_def)
  qed
  then have "(graph_edges G)\<^sup>* `` visited s = visited s" by (rule Image_closed_trancl)
  moreover have "start \<in> visited s" using assms(1) by (auto simp: search_inv_def)
  ultimately show "reachable G start \<subseteq> visited s" by (auto simp: reachable_def)
qed

text \<open>C26. If finitely many graphs are reachable from the starting graph, the export ends and lists
  every reachable graph exactly once, the starting graph first.\<close>

theorem graphDetail_reachable:
  assumes "finite (reachable G start)"
  shows "\<exists>gs. graphDetailJson G start = Some (detailHeader G start
      @ separated ('','' @ newline) (map (graphEntry G) gs) @ detailFooter)
    \<and> distinct gs \<and> set gs = reachable G start \<and> hd gs = start"
proof -
  let ?b = "\<lambda>s. idx s < length (queue s)" and ?f = "\<lambda>s. card (reachable G start) - idx s"
  let ?s0 = "\<lparr>visited = {start}, queue = [start], idx = 0, out = detailHeader G start, firstGraph = True\<rparr>"
  have step: "search_inv G start (detailStep G s) \<and> ?f (detailStep G s) < ?f s"
    if "search_inv G start s" "?b s" for s
    using step_inv [OF that] inv_length [OF assms that(1)] that(2) by (auto simp: detailStep_def Let_def)
  obtain s where s: "while_option ?b (detailStep G) ?s0 = Some s"
    using measure_while_option_Some [of "search_inv G start" ?b "detailStep G" ?f ?s0] step inv_start by blast
  have inv: "search_inv G start s"
    by (rule while_option_rule [where P = "search_inv G start", OF _ s inv_start]) (use step in blast)
  have "\<not> ?b s" by (rule while_option_stop [OF s])
  then show ?thesis
    using inv inv_end [OF inv] s by (intro exI [of _ "queue s"]) (simp add: graphDetailJson_def search_inv_def)
qed

text \<open>Two graphs, each a successor of the other.\<close>

definition two_graphs :: graph_view where
  "two_graphs = \<lparr>gv_name = (\<lambda>_. None), gv_type = (\<lambda>_. Graph_standard), gv_base = (\<lambda>_. 0),
     gv_successors = (\<lambda>g. if g = 1 then [2] else []), gv_customGraphs = (\<lambda>g. if g = 2 then [1, 2] else []),
     gv_customNodes = (\<lambda>_. []), gv_nodeName = (\<lambda>_. None)\<rparr>"

lemma graphDetail_reachable_witness:
  "\<exists>gs. graphDetailJson two_graphs 1 = Some (detailHeader two_graphs 1
      @ separated ('','' @ newline) (map (graphEntry two_graphs) gs) @ detailFooter)
    \<and> distinct gs \<and> set gs = reachable two_graphs 1 \<and> hd gs = 1"
proof (rule graphDetail_reachable)
  have "graph_edges two_graphs `` {1, 2} \<subseteq> {1, 2}" by (auto simp: graph_edges_def two_graphs_def split: if_splits)
  then have "(graph_edges two_graphs)\<^sup>* `` {1, 2} = {1, 2}" by (rule Image_closed_trancl)
  then have "reachable two_graphs 1 \<subseteq> {1, 2}" by (auto simp: reachable_def)
  then show "finite (reachable two_graphs 1)" by (rule finite_subset) simp
qed

end
