(* ===== verification/Proto_Natives.thy ===== *)
theory Proto_Natives
  imports Proto_Convert Graph_Detail
begin

text \<open>
  \<open>JNI/OpenZLProtobuf.cpp\<close>: the remaining native methods of \<open>OpenZLProtobuf\<close>: training on given
  samples, registration of schemas, and the exports of compressors and counters.
\<close>

section \<open>Training on samples\<close>

text \<open>
  The inputs of all samples, with the method's own serializer and deserializer; \<open>None\<close> is a return
  with a pending exception.  A failed copy of a sample shows only after its parsing.
\<close>

fun trainingInputsOf :: "('s, 'd, 'm, 'k, 'i, 'b, 't) proto \<Rightarrow> nat \<Rightarrow> protocol \<Rightarrow> string \<Rightarrow> nat list \<Rightarrow> 's \<Rightarrow> 'd
    \<Rightarrow> (('s, 'd, 'm, 'b, 'z) process_scheme, ('i list list \<times> 's) option) act" where
  "trainingInputsOf P sampleArr inProto type [] s d = ret (Some ([], s))"
| "trainingInputsOf P sampleArr inProto type (i # is) s d =
     bnd (getObjectArrayElement sampleArr i) (\<lambda>sample.
     if sample = 0 then seq (throwCached NullPointerException ''samples element'') (ret None) else
     bnd (copyArray sample) (\<lambda>payload.
     bnd (reusableMessage P type) (\<lambda>m.
     case parseMessage P inProto payload m d of (r, m, d) \<Rightarrow>
     seq (setMessage type m) (seq (reportParsed r)
    (bnd exceptionCheck (\<lambda>exn. if exn then ret None else
     case pl_trainingInputs P m s of
       (Inl e, _) \<Rightarrow> throw e
     | (Inr inputs, s) \<Rightarrow>
     bnd (trainingInputsOf P sampleArr inProto type is s d) (\<lambda>rest.
       ret (map_option (\<lambda>(ins, s). (inputs # ins, s)) rest))))))))"

text \<open>\<open>compressorGenFunc\<close>: failures of the graph's registration are ignored.\<close>

definition protoCompressorGen :: "('s, 'd, 'm, 'k, 'i, 'b, 't) proto \<Rightarrow> bytes \<Rightarrow> cpp_exn + 'k" where
  "protoCompressorGen P bs =
     (case pl_registerGraph P (pl_newCompressor P) of (gid, k) \<Rightarrow>
      case pl_loadCompressor P bs (snd (pl_selectStartingGraph P gid k)) of
        (Some e, _) \<Rightarrow> Inl e | (None, k) \<Rightarrow> Inr k)"

definition trainProtoNative :: "('s, 'd, 'm, 'k, 'i, 'b, 't) proto \<Rightarrow> nat \<Rightarrow> jint \<Rightarrow> jint \<Rightarrow> jint \<Rightarrow> jint \<Rightarrow> bool \<Rightarrow> nat
    \<Rightarrow> (('s, 'd, 'm, 'b, 'z) process_scheme, nat) act" where
  "trainProtoNative P sampleArr inputProtocol maxTimeSecs threads numSamples pareto messageType =
     (if sampleArr = 0 then seq (throwCached NullPointerException ''samples'') (ret 0) else
      bnd (getArrayLength sampleArr) (\<lambda>count.
      if count = 0 then seq (throwIllegalArgument ''samples must not be empty'') (ret 0) else
      checked (parseProtocol inputProtocol) 0 (\<lambda>inProto.
      checked (requireMessageType messageType) 0 (\<lambda>type. try_catch
       (bnd (newSerializer P) (\<lambda>s.
        bnd (trainingInputsOf P sampleArr inProto type [0..<jsize count] s (pl_newDeserializer P)) (\<lambda>r. case r of
          None \<Rightarrow> ret 0
        | Some (multiInputs, s) \<Rightarrow>
        bnd (needed (\<lambda>_. pl_getCompressor P s)) (\<lambda>k.
        bnd (lift_exn (pl_train P (trainParams maxTimeSecs threads numSamples pareto)
               (Some (protoCompressorGen P)) multiInputs k)) (\<lambda>trained.
        bnd findClass (\<lambda>found. if \<not> found then ret 0 else
        bnd (newObjectArray (word_of_nat (length trained))) (\<lambda>result.
        if result = 0 then ret 0 else fillTrained result 0 trained)))))))
       (\<lambda>e. seq (throwIllegalState (what e)) (ret 0))))))"

section \<open>Schemas\<close>

definition registerSchemaNative :: "('s, 'd, 'm, 'k, 'i, 'b, 't) proto \<Rightarrow> nat
    \<Rightarrow> (('s, 'd, 'm, 'b, 'z) process_scheme, unit) act" where
  "registerSchemaNative P descriptorBytes =
     (if descriptorBytes = 0 then throwCached NullPointerException ''descriptorBytes'' else
      checked (copyArray descriptorBytes) () (\<lambda>buffer. case pl_parseSet P buffer of
        None \<Rightarrow> throwIllegalArgument ''Failed to parse descriptor set''
      | Some fs \<Rightarrow> try_catch (registerDescriptorSet P fs) (\<lambda>e. throwIllegalState (what e))))"

section \<open>Exports\<close>

definition graphJsonNative :: "('s, 'd, 'm, 'k, 'i, 'b, 't) proto \<Rightarrow> nat
    \<Rightarrow> (('s, 'd, 'm, 'b, 'z) process_scheme, nat) act" where
  "graphJsonNative P messageType =
     checked (requireMessageType messageType) 0 (\<lambda>type. try_catch
      (seq (serializerEntryForType P type)
      (bnd (needed (\<lambda>w. serializers w type)) (\<lambda>e. case pl_getCompressor P (en_serializer e) of
         None \<Rightarrow> seq (throwIllegalState ''No compressor available for graph export'') (ret 0)
       | Some k \<Rightarrow> bnd (lift_exn (pl_compressorJson P k)) newStringUTF)))
      (\<lambda>e. seq (throwIllegalState (what e)) (ret 0)))"

definition graphJsonFromCompressorNative :: "('s, 'd, 'm, 'k, 'i, 'b, 't) proto \<Rightarrow> nat
    \<Rightarrow> (('s, 'd, 'm, 'b, 'z) process_scheme, nat) act" where
  "graphJsonFromCompressorNative P compressorBytes =
     (if compressorBytes = 0 then seq (throwCached NullPointerException ''compressorBytes'') (ret 0) else
      try_catch
       (checked (copyArray compressorBytes) 0 (\<lambda>bs.
        bnd (loadedCompressor P bs) (\<lambda>k. bnd (lift_exn (pl_compressorJson P k)) newStringUTF)))
       (\<lambda>e. seq (throwIllegalState (what e)) (ret 0)))"

text \<open>
  \<open>startOf\<close> is the starting graph of a compressor, if it has one, and \<open>viewOf\<close> what it answers
  about its graphs.
\<close>

definition graphDetailJsonNative :: "('s, 'd, 'm, 'k, 'i, 'b, 't) proto \<Rightarrow> ('k \<Rightarrow> nat option) \<Rightarrow> ('k \<Rightarrow> graph_view)
    \<Rightarrow> nat \<Rightarrow> (('s, 'd, 'm, 'b, 'z) process_scheme, nat) act" where
  "graphDetailJsonNative P startOf viewOf messageType =
     checked (requireMessageType messageType) 0 (\<lambda>type. try_catch
      (seq (serializerEntryForType P type)
      (bnd (needed (\<lambda>w. serializers w type)) (\<lambda>e. case pl_getCompressor P (en_serializer e) of
         None \<Rightarrow> seq (throwIllegalState ''No compressor available for graph detail export'') (ret 0)
       | Some k \<Rightarrow> (case startOf k of
           None \<Rightarrow> seq (throwIllegalState ''Starting graph not available'') (ret 0)
         | Some start \<Rightarrow> bnd (needed (\<lambda>_. graphDetailJson (viewOf k) start)) newStringUTF))))
      (\<lambda>e. seq (throwIllegalState (what e)) (ret 0)))"

definition directIntoProfileNative :: "(('s, 'd, 'm, 'b, 'z) process_scheme, nat) act" where
  "directIntoProfileNative =
     bnd (gets directIntoPerf) (\<lambda>c.
     bnd (newLongArray 5) (\<lambda>result.
     if result = 0
     then seq (throwCached OutOfMemoryError ''Unable to allocate direct-into profile snapshot'') (ret 0)
     else seq (setArrayRegion result
            (JLongArr ((if pf_enabled c then 1 else 0) # pf_ns c @ [pf_calls c]))) (ret result)))"

end
