(* ===== verification/Spec2Isabelle.thy ===== *)
theory Spec2Isabelle
  imports Compressor_Direct Frame_Metadata Compressor_Numeric Oneoff_Props
    Structured_Roundtrip Structured_Training Structured_Compress Training_Registry Proto_Slices Proto_Natives
begin

text \<open>
  The native layer of openzl-jni: the C++ code under \<open>JNI/\<close> that the Java classes
  \<open>OpenZLCompressor\<close>, \<open>OpenZLProtobuf\<close> and \<open>OpenZLStructuredProtoBridge\<close> call through the Java
  Native Interface, and that calls the OpenZL library, protobuf and OpenZL's protobuf tools.

  How the program is modelled.  A native method is an action on an explicit state: it returns a
  value, throws a C++ exception, or has undefined behaviour (\<open>Ret\<close>, \<open>Throw\<close>, \<open>Undef\<close> of
  \<open>OZ_Prelude\<close>), and leaves a new state.  Undefined behaviour is an access outside of a buffer, a
  null or dangling reference, or a misuse of the JNI that the specification leaves undefined.  A
  call of the JNI inside a critical region is recorded in \<open>misuse\<close> instead of stopping the run.
  Which allocations, pins and class lookups fail is an input of the state (\<open>faults\<close>), so that a
  theorem about all states is one about all schedules of failures.  Allocations of short strings
  (messages of exceptions, type names, keys and nodes of caches) do not fail.  \<open>jint\<close>, \<open>jlong\<close> and
  the unsigned types are words of their width; sizes of buffers are natural numbers, and every
  cast of the code between them is written out.  \<open>long\<close> is taken to have 64 bits.  Properties are
  weakest preconditions \<open>wp m Q E w\<close>: run from \<open>w\<close>, the action \<open>m\<close> has no undefined behaviour,
  and ends with \<open>Q\<close> when it returns and with \<open>E\<close> when a C++ exception escapes.

  Foundations.
  \<^item> \<open>OZ_Prelude\<close>: outcomes, actions, the wp calculus (collection \<open>wp_simps\<close>), little-endian bytes.
  \<^item> \<open>Jni_Env\<close>: Java objects, references, pins, the pending exception, and the JNI functions.
  \<^item> \<open>Native_Support\<close>, \<open>Native_Rules\<close>: \<open>OpenZLNativeSupport.cpp/.h\<close>, that is cached classes and
    exceptions, handles, range checks, graph ordinals, \<open>NativeState\<close> with its scratch buffer, and the
    caches of states; their rules.  \<open>Library_Contract\<close>: what is relied on of the library (a record
    of functions, \<open>zl\<close>), and the concrete library and process of the witnesses.

  The compressor (\<open>OpenZLCompressor.cpp\<close> and \<open>compressor/\<close>).
  \<^item> \<open>Compressor_Arrays\<close>, \<open>Compressor_Direct\<close>, \<open>Compressor_Numeric\<close>, \<open>Frame_Metadata\<close>: the four files
    of \<open>compressor/\<close>.  Compression and decompression of byte arrays, of ranges of them, of direct
    buffers and of the four numeric arrays are safe for all arguments and failures: they write only
    in the range they were given and release what they pinned; and they are inverse to each other
    when the library is.  The calls of the library share the locale \<open>library_call\<close>, the element types
    the locale \<open>element_codec\<close>, both interpreted on the model's functions.  The description of a frame
    has the six values of its header, with the casts of the code.
  \<^item> \<open>Compressor_Main\<close>, \<open>Compressor_Oneoff\<close>, \<open>Oneoff_Props\<close>: creation, parameters, profiles, training,
    one-off compression, load and unload.
  \<^item> \<open>State_Pool\<close>, \<open>Lifecycle\<close>: creation, use and recycling of native states by many threads as a
    step relation.  In every reachable state each native state is in exactly one place, and no step
    has undefined behaviour.

  The protobuf bridge (\<open>OpenZLProtobuf.cpp\<close>).
  \<^item> \<open>Training_Registry\<close>: the samples of a message type and the critical sections on them, as steps
    of many threads: exclusion, stability of what was trained, when training starts and when not.
  \<^item> \<open>Proto_Library\<close>, \<open>Proto_Convert\<close>, \<open>Proto_Natives\<close>: descriptors, messages, serializers and
    their caches; the conversions; the other native methods.  \<open>Proto_Rules\<close>, \<open>Proto_Props\<close> and
    \<open>Proto_Slices\<close>: what the steps of a conversion keep (\<open>grows\<close>, \<open>quiet\<close>), the result of the
    conversion of a slice on every schedule, and its round trip.
  \<^item> \<open>Graph_Detail\<close>: the breadth-first export of a compressor's graphs, which ends and lists every
    reachable graph once.

  The structured interface (\<open>OpenZLProtobuf.cpp\<close>).
  \<^item> \<open>Structured_Tags\<close>: the tags of value streams, hashes of the path to their field.
  \<^item> \<open>Structured_Sample\<close>: the serialized samples of a training; the locale \<open>exact_reader\<close> is what the
    readers of the format's parts share.
  \<^item> \<open>Structured_Clusters\<close>: the clusters of a compressor for a message type, collected by a recursion
    that need not end, and that cover every stream of a message.
  \<^item> \<open>Structured_Inputs\<close>, \<open>Structured_Natives\<close>: Java inputs pinned by address, the inputs built from
    them in thread-local scratch vectors, contexts and their caches, and the native methods.
    \<open>Structured_Rules\<close>, \<open>Structured_Pinning\<close>, \<open>Structured_Compress\<close>: the rules, the abstraction
    \<open>inputStreams\<close> of Java inputs, and the refinement of the compression of these streams by
    \<open>compressStructuredNative\<close>.  \<open>Structured_Training\<close>: what training reads of its samples.
  \<^item> \<open>Structured_Frame\<close>, \<open>Structured_Decode\<close>, \<open>Structured_Roundtrip\<close>: the streams of a frame sorted
    into control and value streams, the recursion that rebuilds the message, its termination, and
    its inverse, the encoding of a message's contents.

  Loops.  Most are structural.  The decoding recursion runs on the fuel \<open>decodeFuel\<close>, one more than
  the bytes of the type stream: every step but the last reads four of them, and
  \<open>decode_terminates\<close> shows that it never runs out.  The graph export is a \<open>while_option\<close>, shown to
  return; the collection of clusters is a \<open>partial_function (option)\<close>, with \<open>collect_returns\<close> for when
  it returns.

  Interleavings.  State pool and training registry have steps of many threads.  The conversions and
  the structured methods are modelled as runs of one thread: what other threads may do in between
  to the descriptors and the training states, under the same locks, is not.

  Not modelled.  OpenZL, protobuf and the protobuf tools are submodules: they are parameters, the
  records \<open>zl\<close>, \<open>cli\<close>, \<open>proto\<close>, \<open>clustering\<close>, \<open>reader\<close> and \<open>reflect\<close>, with hypotheses such as
  \<open>reader_ok\<close> or \<open>proto_lossless\<close> where a property needs their contract.  Local references and their
  deletion, the log lines of the performance counters, and the prototypes of the two header
  files have no model.  The Java classes, tests, benchmarks, build files and documents of the
  repository are outside of the native layer.
\<close>

end
